theory Spec2Isabelle
  imports Main "HOL-Library.Word"
begin

unbundle bit_operations_syntax

section \<open>Shared data model\<close>

text \<open>
  Go strings are byte sequences; a \<^typ>\<open>string\<close> is a list of 8-bit characters, so the
  two coincide. A Go \<^verbatim>\<open>[]byte\<close> is a list of 8-bit words.
\<close>

type_synonym byte = "8 word"

text \<open>
  The functions of the package either return normally, return an \<^verbatim>\<open>error\<close> value
  (recoverable by the caller), or \<^verbatim>\<open>panic\<close> (which unwinds the goroutine and, left
  unrecovered, aborts the process). Both carry their message.
\<close>

datatype failure = Panic string | Error string

fun is_error_result :: "failure + 'a \<Rightarrow> bool" where
  "is_error_result (Inl (Error m)) = True"
| "is_error_result (Inl (Panic m)) = False"
| "is_error_result (Inr v) = False"

fun is_panic :: "failure + 'a \<Rightarrow> bool" where
  "is_panic (Inl (Panic m)) = True"
| "is_panic (Inl (Error m)) = False"
| "is_panic (Inr v) = False"

text \<open>\<^verbatim>\<open>asn1.RawValue\<close> and \<^verbatim>\<open>pkix.AttributeTypeAndValue\<close>.\<close>

record RawValue =
  Class :: int
  Tag :: int
  IsCompound :: bool
  Bytes :: "byte list"
  FullBytes :: "byte list"

definition RawValue0 :: RawValue where
  "RawValue0 = \<lparr>Class = 0, Tag = 0, IsCompound = False, Bytes = [], FullBytes = []\<rparr>"

record AttributeTypeAndValue =
  atv_Type :: "int list"
  atv_Value :: RawValue

text \<open>\<^verbatim>\<open>pkix.Name\<close>; the zero value \<^verbatim>\<open>pkix.Name{}\<close> has every field empty.\<close>

record pkix_Name =
  pkix_Country :: "string list"
  pkix_Organization :: "string list"
  pkix_OrganizationalUnit :: "string list"
  pkix_Locality :: "string list"
  pkix_Province :: "string list"
  pkix_StreetAddress :: "string list"
  pkix_PostalCode :: "string list"
  pkix_SerialNumber :: string
  pkix_CommonName :: string
  Names :: "AttributeTypeAndValue list"
  ExtraNames :: "AttributeTypeAndValue list"

definition pkix_Name0 :: pkix_Name where
  "pkix_Name0 = \<lparr>pkix_Country = [], pkix_Organization = [], pkix_OrganizationalUnit = [],
     pkix_Locality = [], pkix_Province = [], pkix_StreetAddress = [], pkix_PostalCode = [],
     pkix_SerialNumber = [], pkix_CommonName = [], Names = [], ExtraNames = []\<rparr>"

text \<open>
  The fields of \<^verbatim>\<open>x509.Certificate\<close> that the projections of this package write.
  \<^verbatim>\<open>net.IP\<close> is a byte slice; \<^verbatim>\<open>*url.URL\<close> is a type of the standard library that
  the package only passes around, so it is a type parameter.
\<close>

record 'url x509_Certificate =
  x509_DNSNames :: "string list"
  x509_EmailAddresses :: "string list"
  x509_IPAddresses :: "byte list list"
  x509_URIs :: "'url list"
  x509_Subject :: pkix_Name
  BasicConstraintsValid :: bool
  IsCA :: bool
  MaxPathLen :: int
  MaxPathLenZero :: bool

text \<open>\<^verbatim>\<open>new(x509.Certificate)\<close>: the zero value.\<close>

definition x509_Certificate0 :: "'url x509_Certificate" where
  "x509_Certificate0 = \<lparr>x509_DNSNames = [], x509_EmailAddresses = [], x509_IPAddresses = [],
     x509_URIs = [], x509_Subject = pkix_Name0, BasicConstraintsValid = False, IsCA = False,
     MaxPathLen = 0, MaxPathLenZero = False\<rparr>"

section \<open>BasicConstraints\<close>

text \<open>The template's \<^verbatim>\<open>BasicConstraints\<close> struct; \<^verbatim>\<open>MaxPathLen\<close> is a Go \<^verbatim>\<open>int\<close>, which
  is only compared and copied.\<close>

record BasicConstraints =
  bc_IsCA :: bool
  bc_MaxPathLen :: int

text \<open>\<^verbatim>\<open>func (b BasicConstraints) Set(c *x509.Certificate)\<close>: the certificate is passed
  in and returned updated.\<close>

definition BasicConstraints_Set ::
  "BasicConstraints \<Rightarrow> ('url, 'z) x509_Certificate_scheme \<Rightarrow> ('url, 'z) x509_Certificate_scheme" where
  "BasicConstraints_Set b c0 =
     (let c = c0\<lparr>BasicConstraintsValid := True\<rparr>;
          c = c\<lparr>IsCA := bc_IsCA b\<rparr>
      in if IsCA c then
           (if bc_MaxPathLen b = 0 then c\<lparr>MaxPathLen := 0, MaxPathLenZero := True\<rparr>
            else if bc_MaxPathLen b < 0 then c\<lparr>MaxPathLen := -1, MaxPathLenZero := False\<rparr>
            else c\<lparr>MaxPathLen := bc_MaxPathLen b, MaxPathLenZero := False\<rparr>)
         else c\<lparr>MaxPathLen := 0, MaxPathLenZero := False\<rparr>)"


section \<open>Name and Subject\<close>

text \<open>The template's \<^verbatim>\<open>Name\<close> struct; \<^verbatim>\<open>MultiString\<close> is a slice of strings.
  \<^verbatim>\<open>Subject\<close> is declared as \<^verbatim>\<open>type Subject Name\<close>.\<close>

record Name =
  Country :: "string list"
  Organization :: "string list"
  OrganizationalUnit :: "string list"
  DomainController :: "string list"
  Locality :: "string list"
  Province :: "string list"
  StreetAddress :: "string list"
  PostalCode :: "string list"
  SerialNumber :: string
  CommonName :: string
  Surname :: string
  GivenName :: string
  Title :: string
  UID :: string

type_synonym Subject = Name

definition oidUID :: "int list" where "oidUID = [0, 9, 2342, 19200300, 100, 1, 1]"
definition oidDC :: "int list" where "oidDC = [0, 9, 2342, 19200300, 100, 1, 25]"
definition oidCommonName :: "int list" where "oidCommonName = [2, 5, 4, 3]"
definition oidSurname :: "int list" where "oidSurname = [2, 5, 4, 4]"
definition oidSerialNumber :: "int list" where "oidSerialNumber = [2, 5, 4, 5]"
definition oidCountry :: "int list" where "oidCountry = [2, 5, 4, 6]"
definition oidLocality :: "int list" where "oidLocality = [2, 5, 4, 7]"
definition oidProvince :: "int list" where "oidProvince = [2, 5, 4, 8]"
definition oidStreetAddress :: "int list" where "oidStreetAddress = [2, 5, 4, 9]"
definition oidOrganization :: "int list" where "oidOrganization = [2, 5, 4, 10]"
definition oidOrganizationalUnit :: "int list" where "oidOrganizationalUnit = [2, 5, 4, 11]"
definition oidTitle :: "int list" where "oidTitle = [2, 5, 4, 12]"
definition oidPostalCode :: "int list" where "oidPostalCode = [2, 5, 4, 17]"
definition oidGivenName :: "int list" where "oidGivenName = [2, 5, 4, 42]"

text \<open>The universal tag numbers of \<^verbatim>\<open>encoding/asn1\<close> that the package names or
  reaches through string parameters.\<close>

definition TagInteger :: int where "TagInteger = 2"
definition TagOID :: int where "TagOID = 6"
definition TagUTF8String :: int where "TagUTF8String = 12"
definition TagSequence :: int where "TagSequence = 16"
definition TagNumericString :: int where "TagNumericString = 18"
definition TagPrintableString :: int where "TagPrintableString = 19"
definition TagIA5String :: int where "TagIA5String = 22"

text \<open>The conversion \<^verbatim>\<open>[]byte(s)\<close>.\<close>

definition bytes_of :: "string \<Rightarrow> byte list" where
  "bytes_of s = map of_char s"

text \<open>
  The statement that \<^verbatim>\<open>Subject.Set\<close> repeats for each attribute value:
  \<^verbatim>\<open>c.Subject.ExtraNames = append(c.Subject.ExtraNames, pkix.AttributeTypeAndValue{
      Type: oid, Value: asn1.RawValue{Tag: asn1.TagIA5String, Bytes: []byte(v)}})\<close>.
\<close>

definition append_ExtraNames ::
  "int list \<Rightarrow> string \<Rightarrow> ('url, 'z) x509_Certificate_scheme \<Rightarrow> ('url, 'z) x509_Certificate_scheme" where
  "append_ExtraNames oid v c =
     c\<lparr>x509_Subject := (x509_Subject c)\<lparr>ExtraNames := ExtraNames (x509_Subject c) @
        [\<lparr>atv_Type = oid, atv_Value = RawValue0\<lparr>Tag := TagIA5String, Bytes := bytes_of v\<rparr>\<rparr>]\<rparr>\<rparr>"

text \<open>\<^verbatim>\<open>func (s Subject) Set(c *x509.Certificate)\<close>: the subject is reset to the empty
  \<^verbatim>\<open>pkix.Name\<close>, then eight \<^verbatim>\<open>for ... range\<close> loops and six \<^verbatim>\<open>if s.X != ""\<close>
  statements run in the order of the source.\<close>

definition Subject_Set ::
  "Subject \<Rightarrow> ('url, 'z) x509_Certificate_scheme \<Rightarrow> ('url, 'z) x509_Certificate_scheme" where
  "Subject_Set s c0 =
     (let c = c0\<lparr>x509_Subject := pkix_Name0\<rparr>;
          c = fold (append_ExtraNames oidCountry) (Country s) c;
          c = fold (append_ExtraNames oidLocality) (Locality s) c;
          c = fold (append_ExtraNames oidProvince) (Province s) c;
          c = fold (append_ExtraNames oidStreetAddress) (StreetAddress s) c;
          c = fold (append_ExtraNames oidPostalCode) (PostalCode s) c;
          c = fold (append_ExtraNames oidOrganization) (Organization s) c;
          c = fold (append_ExtraNames oidDC) (DomainController s) c;
          c = fold (append_ExtraNames oidOrganizationalUnit) (OrganizationalUnit s) c;
          c = (if Title s \<noteq> [] then append_ExtraNames oidTitle (Title s) c else c);
          c = (if GivenName s \<noteq> [] then append_ExtraNames oidGivenName (GivenName s) c else c);
          c = (if Surname s \<noteq> [] then append_ExtraNames oidSurname (Surname s) c else c);
          c = (if CommonName s \<noteq> [] then append_ExtraNames oidCommonName (CommonName s) c else c);
          c = (if SerialNumber s \<noteq> [] then append_ExtraNames oidSerialNumber (SerialNumber s) c else c);
          c = (if UID s \<noteq> [] then append_ExtraNames oidUID (UID s) c else c)
      in c)"

text \<open>The entry that the projection is expected to produce for one value, and the
  entries of a scalar attribute (none when the string is empty).\<close>

definition ia5_entry :: "int list \<Rightarrow> string \<Rightarrow> AttributeTypeAndValue" where
  "ia5_entry oid v =
     \<lparr>atv_Type = oid, atv_Value = \<lparr>Class = 0, Tag = 22, IsCompound = False, Bytes = bytes_of v, FullBytes = []\<rparr>\<rparr>"

definition scalar_entries :: "int list \<Rightarrow> string \<Rightarrow> AttributeTypeAndValue list" where
  "scalar_entries oid v = (if v = [] then [] else [ia5_entry oid v])"

definition present :: "string \<Rightarrow> nat" where
  "present v = (if v = [] then 0 else 1)"

definition Subject_example :: Subject where
  "Subject_example = \<lparr>Country = [''US'', ''CA''], Organization = [''Acme''], OrganizationalUnit = [],
     DomainController = [''dc1''], Locality = [], Province = [], StreetAddress = [],
     PostalCode = [], SerialNumber = [], CommonName = ''example.com'', Surname = [],
     GivenName = [], Title = ''Dr'', UID = ''u1''\<rparr>"


section \<open>Numbers in text\<close>

text \<open>
  The package reads numbers with \<^verbatim>\<open>strconv.Atoi\<close> and \<^verbatim>\<open>big.Int.SetString\<close> and the
  JSON decoder reads them with \<^verbatim>\<open>strconv.ParseInt\<close>. These are functions of the Go
  standard library; they are written out here after their documented behaviour, with
  Go's \<^verbatim>\<open>int\<close> taken to be 64 bits wide.
\<close>

definition isDigit :: "char \<Rightarrow> bool" where
  "isDigit ch = (48 \<le> (of_char ch :: nat) \<and> (of_char ch :: nat) \<le> 57)"

definition decimal_value :: "string \<Rightarrow> nat" where
  "decimal_value ds = foldl (\<lambda>n ch. n * 10 + ((of_char ch :: nat) - 48)) 0 ds"

text \<open>\<^verbatim>\<open>strconv.ParseInt(s, 10, 64)\<close>: an optional sign, then one or more decimal digits,
  and the value must fit the signed 64-bit range; \<^const>\<open>None\<close> is the error result.\<close>

definition ParseInt10_64 :: "string \<Rightarrow> int option" where
  "ParseInt10_64 s =
     (if s = [] then None
      else let neg = (hd s = CHR ''-'');
               ds = (if hd s = CHR ''+'' \<or> hd s = CHR ''-'' then tl s else s)
           in if ds = [] \<or> \<not> list_all isDigit ds then None
              else let un = decimal_value ds
                   in if \<not> neg \<and> un \<ge> 2 ^ 63 then None
                      else if neg \<and> un > 2 ^ 63 then None
                      else Some (if neg then - int un else int un))"

text \<open>\<^verbatim>\<open>strconv.Atoi(s)\<close> is \<^verbatim>\<open>ParseInt(s, 10, 0)\<close> converted to \<^verbatim>\<open>int\<close>.\<close>

definition Atoi :: "string \<Rightarrow> int option" where
  "Atoi s = ParseInt10_64 s"

text \<open>
  \<^verbatim>\<open>big.Int.SetString(s, base)\<close>. The digit scanner of \<^verbatim>\<open>math/big\<close> (\<^verbatim>\<open>nat.scan\<close> with
  \<^verbatim>\<open>fracOk = false\<close>) reads one byte ahead; \<^verbatim>\<open>prev\<close> is \<^verbatim>\<open>'_'\<close>, \<^verbatim>\<open>'0'\<close> (a digit) or
  \<^verbatim>\<open>'.'\<close> (anything else), and a separator \<^verbatim>\<open>'_'\<close> is valid only after a digit and in
  base 0. The string argument of \<open>scan_digits\<close> is the look-ahead byte followed by the
  unread input; the result carries the input left unread.
\<close>

definition digitval :: "nat \<Rightarrow> char \<Rightarrow> nat" where
  "digitval b ch =
     (let c = (of_char ch :: nat)
      in if 48 \<le> c \<and> c \<le> 57 then c - 48
         else if 97 \<le> c \<and> c \<le> 122 then c - 97 + 10
         else if 65 \<le> c \<and> c \<le> 90 then (if b \<le> 36 then c - 65 + 10 else c - 65 + 36)
         else 63)"

fun scan_digits ::
  "nat \<Rightarrow> nat \<Rightarrow> char \<Rightarrow> bool \<Rightarrow> nat \<Rightarrow> nat \<Rightarrow> string \<Rightarrow> char \<times> bool \<times> nat \<times> nat \<times> string" where
  "scan_digits base b prev invalSep count z [] = (prev, invalSep, count, z, [])"
| "scan_digits base b prev invalSep count z (ch # r) =
     (if ch = CHR ''_'' \<and> base = 0
      then scan_digits base b (CHR ''_'') (invalSep \<or> prev \<noteq> CHR ''0'') count z r
      else if digitval b ch \<ge> b then (prev, invalSep, count, z, ch # r)
      else scan_digits base b (CHR ''0'') invalSep (count + 1) (z * b + digitval b ch) r)"

text \<open>The prefix recognition of \<^verbatim>\<open>nat.scan\<close>: the actual base, the prefix letter
  (\<^verbatim>\<open>0\<close> when there is none), \<^verbatim>\<open>prev\<close>, \<^verbatim>\<open>count\<close>, and the input from the look-ahead
  byte on.\<close>

definition scan_prefix :: "nat \<Rightarrow> string \<Rightarrow> nat \<times> char \<times> char \<times> nat \<times> string" where
  "scan_prefix base s =
     (if base = 0 then
        (case s of
           [] \<Rightarrow> (10, CHR 0x00, CHR ''.'', 0, [])
         | ch # r \<Rightarrow>
             if ch = CHR ''0'' then
               (case r of
                  [] \<Rightarrow> (10, CHR 0x00, CHR ''0'', 1, [])
                | ch2 # r2 \<Rightarrow>
                    if ch2 = CHR ''b'' \<or> ch2 = CHR ''B'' then (2, CHR ''b'', CHR ''0'', 0, r2)
                    else if ch2 = CHR ''o'' \<or> ch2 = CHR ''O'' then (8, CHR ''o'', CHR ''0'', 0, r2)
                    else if ch2 = CHR ''x'' \<or> ch2 = CHR ''X'' then (16, CHR ''x'', CHR ''0'', 0, r2)
                    else (8, CHR ''0'', CHR ''0'', 0, ch2 # r2))
             else (10, CHR 0x00, CHR ''.'', 0, ch # r))
      else (base, CHR 0x00, CHR ''.'', 0, s))"

text \<open>\<^verbatim>\<open>nat.scan\<close>: the value, the base, the digit count and the unread input, or
  \<^const>\<open>None\<close> for \<^verbatim>\<open>errInvalSep\<close> and \<^verbatim>\<open>errNoDigits\<close>.\<close>

definition nat_scan :: "string \<Rightarrow> nat \<Rightarrow> (nat \<times> nat \<times> nat \<times> string) option" where
  "nat_scan s base =
     (case scan_prefix base s of (b, prefix, prev0, count0, look) \<Rightarrow>
        (case scan_digits base b prev0 False count0 0 look of (prev, invalSep, count, z, rest) \<Rightarrow>
           let sepErr = (invalSep \<or> prev = CHR ''_'')
           in if count = 0 then
                (if prefix = CHR ''0'' then (if sepErr then None else Some (0, 10, 1, rest))
                 else None)
              else if sepErr then None
              else Some (z, b, count, rest)))"

text \<open>\<^verbatim>\<open>Int.scan\<close> (with \<^verbatim>\<open>scanSign\<close>) and \<^verbatim>\<open>Int.setFromScanner\<close>: the whole string
  must be consumed.\<close>

definition Int_scan :: "string \<Rightarrow> nat \<Rightarrow> (int \<times> nat \<times> string) option" where
  "Int_scan s base =
     (case s of
        [] \<Rightarrow> None
      | ch # r \<Rightarrow>
          let neg = (ch = CHR ''-'');
              s' = (if ch = CHR ''-'' \<or> ch = CHR ''+'' then r else ch # r)
          in (case nat_scan s' base of
                None \<Rightarrow> None
              | Some (z, b, count, rest) \<Rightarrow>
                  Some (if z > 0 \<and> neg then - int z else int z, b, rest)))"

definition SetString :: "string \<Rightarrow> nat \<Rightarrow> int option" where
  "SetString s base =
     (case Int_scan s base of
        None \<Rightarrow> None
      | Some (z, b, rest) \<Rightarrow> if rest = [] then Some z else None)"

section \<open>JSON input\<close>

text \<open>
  The decoders receive the raw bytes of one JSON value. The bytes are abstracted to the
  value they spell: a string is its decoded content, a number is its literal text.
\<close>

datatype json = JNull | JBool bool | JNumber string | JString string
  | JArray "json list" | JObject "(string \<times> json) list"

text \<open>Modelled from the spec: \<^verbatim>\<open>maybeString\<close> is not among the sources; a JSON string
  decodes to its content and any other shape is not a string.\<close>

definition maybeString :: "json \<Rightarrow> string option" where
  "maybeString data = (case data of JString s \<Rightarrow> Some s | _ \<Rightarrow> None)"

text \<open>\<^verbatim>\<open>json.Unmarshal(data, &i)\<close> for \<^verbatim>\<open>var i int64\<close>: a number literal goes through
  \<^verbatim>\<open>strconv.ParseInt\<close>, \<^verbatim>\<open>null\<close> leaves \<^verbatim>\<open>i\<close> at zero, any other shape is an
  \<^verbatim>\<open>UnmarshalTypeError\<close>, whose message is returned on the left.\<close>

definition json_Unmarshal_int64 :: "json \<Rightarrow> string + int" where
  "json_Unmarshal_int64 data =
     (case data of
        JNull \<Rightarrow> Inr 0
      | JNumber lit \<Rightarrow>
          (case ParseInt10_64 lit of
             Some i \<Rightarrow> Inr i
           | None \<Rightarrow> Inl (''json: cannot unmarshal number '' @ lit @ '' into Go value of type int64''))
      | JBool b \<Rightarrow> Inl ''json: cannot unmarshal bool into Go value of type int64''
      | JString s \<Rightarrow> Inl ''json: cannot unmarshal string into Go value of type int64''
      | JArray xs \<Rightarrow> Inl ''json: cannot unmarshal array into Go value of type int64''
      | JObject kvs \<Rightarrow> Inl ''json: cannot unmarshal object into Go value of type int64'')"

section \<open>SerialNumber\<close>

text \<open>\<^verbatim>\<open>type SerialNumber struct { *big.Int }\<close>: the pointer may be nil.\<close>

record SerialNumber_t =
  big_Int :: "int option"

text \<open>\<^verbatim>\<open>func (s *SerialNumber) UnmarshalJSON(data []byte) error\<close>: the receiver is
  returned on success.\<close>

definition SerialNumber_UnmarshalJSON :: "json \<Rightarrow> failure + SerialNumber_t" where
  "SerialNumber_UnmarshalJSON data =
     (case maybeString data of
        Some sn \<Rightarrow>
          (case SetString sn 0 of
             None \<Rightarrow> Inl (Error (''error unmarshaling json: serialNumber '' @ sn @ '' is not valid''))
           | Some b \<Rightarrow> Inr \<lparr>big_Int = Some b\<rparr>)
      | None \<Rightarrow>
          (case json_Unmarshal_int64 data of
             Inl err \<Rightarrow> Inl (Error (''error unmarshaling json: '' @ err))
           | Inr i \<Rightarrow> Inr \<lparr>big_Int = Some i\<rparr>))"

text \<open>What the specification calls parsing in a base: the value of a string of digits, and the
  strings that consist of digits of that base only.\<close>

definition digits_value :: "nat \<Rightarrow> string \<Rightarrow> nat" where
  "digits_value b ds = foldl (\<lambda>z ch. z * b + digitval b ch) 0 ds"

definition digits_of_base :: "nat \<Rightarrow> string \<Rightarrow> bool" where
  "digits_of_base b ds = (ds \<noteq> [] \<and> list_all (\<lambda>ch. ch \<noteq> CHR ''_'' \<and> digitval b ch < b) ds)"

definition has_base_prefix :: "string \<Rightarrow> bool" where
  "has_base_prefix s = (take 2 s \<in> set [''0b'', ''0B'', ''0o'', ''0O'', ''0x'', ''0X''])"

text \<open>The base that the documentation of \<^verbatim>\<open>UnmarshalJSON\<close> announces for a string
  (``a prefix of 0b or 0B selects base 2, 0, 0o or 0O selects base 8, and 0x or 0X
  selects base 16; otherwise the selected base is 10''), and the digits that follow the
  prefix.\<close>

definition selected_base :: "string \<Rightarrow> nat" where
  "selected_base s =
     (if take 2 s = ''0b'' \<or> take 2 s = ''0B'' then 2
      else if take 2 s = ''0o'' \<or> take 2 s = ''0O'' then 8
      else if take 2 s = ''0x'' \<or> take 2 s = ''0X'' then 16
      else if take 1 s = ''0'' \<and> length s > 1 then 8
      else 10)"

definition digits_part :: "string \<Rightarrow> string" where
  "digits_part s =
     (if has_base_prefix s then drop 2 s
      else if take 1 s = ''0'' \<and> length s > 1 then drop 1 s
      else s)"

text \<open>The base as the specification words it: base 10 for every string without one of the
  six two-letter prefixes.\<close>

definition claimed_base :: "string \<Rightarrow> nat" where
  "claimed_base s =
     (if take 2 s = ''0b'' \<or> take 2 s = ''0B'' then 2
      else if take 2 s = ''0o'' \<or> take 2 s = ''0O'' then 8
      else if take 2 s = ''0x'' \<or> take 2 s = ''0X'' then 16
      else 10)"

text \<open>An optional sign precedes the prefix.\<close>

definition unsigned_part :: "string \<Rightarrow> string" where
  "unsigned_part s = (if take 1 s = ''-'' \<or> take 1 s = ''+'' then drop 1 s else s)"

definition sign_of :: "string \<Rightarrow> int" where
  "sign_of s = (if take 1 s = ''-'' then - 1 else 1)"

definition not_valid_message :: "string \<Rightarrow> string" where
  "not_valid_message sn = ''error unmarshaling json: serialNumber '' @ sn @ '' is not valid''"

text \<open>Whether the text of a JSON string or number starts with a minus sign.\<close>

definition minus_signed :: "json \<Rightarrow> bool" where
  "minus_signed data =
     (case data of
        JString s \<Rightarrow> take 1 s = ''-''
      | JNumber lit \<Rightarrow> take 1 lit = ''-''
      | _ \<Rightarrow> False)"


section \<open>ObjectIdentifier\<close>

text \<open>\<^verbatim>\<open>strings.Split(s, sep)\<close> and \<^verbatim>\<open>strings.Join\<close> for a separator of one byte, the
  only kind the package uses (\<^verbatim>\<open>"."\<close> and \<^verbatim>\<open>";"\<close>), and \<^verbatim>\<open>strings.Contains\<close> for
  one byte.\<close>

fun Split :: "string \<Rightarrow> char \<Rightarrow> string list" where
  "Split [] sep = [[]]"
| "Split (ch # r) sep =
     (if ch = sep then [] # Split r sep
      else (ch # hd (Split r sep)) # tl (Split r sep))"

fun Join :: "string list \<Rightarrow> char \<Rightarrow> string" where
  "Join [] sep = []"
| "Join [p] sep = p"
| "Join (p # q # ps) sep = p @ sep # Join (q # ps) sep"

definition Contains :: "string \<Rightarrow> char \<Rightarrow> bool" where
  "Contains s ch = (ch \<in> set s)"

text \<open>\<^verbatim>\<open>strconv.FormatInt(i, 10)\<close>: decimal digits, most significant first, with a
  minus sign for a negative number.\<close>

definition digit_char :: "nat \<Rightarrow> char" where
  "digit_char d = char_of (48 + d)"

fun itoa :: "nat \<Rightarrow> string" where
  "itoa n = (if n < 10 then [digit_char n] else itoa (n div 10) @ [digit_char (n mod 10)])"

declare itoa.simps [simp del]

definition FormatInt :: "int \<Rightarrow> string" where
  "FormatInt i = (if i < 0 then CHR ''-'' # itoa (nat (- i)) else itoa (nat i))"

text \<open>\<^verbatim>\<open>type ObjectIdentifier asn1.ObjectIdentifier\<close>, a slice of \<^verbatim>\<open>int\<close>;
  \<^verbatim>\<open>asn1.ObjectIdentifier.String\<close> joins the decimal components with dots.\<close>

type_synonym ObjectIdentifier = "int list"

definition ObjectIdentifier_String :: "ObjectIdentifier \<Rightarrow> string" where
  "ObjectIdentifier_String oi = Join (map FormatInt oi) CHR ''.''"

text \<open>\<^verbatim>\<open>func (o ObjectIdentifier) MarshalJSON() ([]byte, error)\<close>: the JSON string of
  the dotted form.\<close>

definition ObjectIdentifier_MarshalJSON :: "ObjectIdentifier \<Rightarrow> failure + json" where
  "ObjectIdentifier_MarshalJSON oid = Inr (JString (ObjectIdentifier_String oid))"

text \<open>Modelled from the spec: \<^verbatim>\<open>parseObjectIdentifier\<close> is called by the sources but
  is not among them. The spec gives: ``dotted-decimal string; every component must parse
  as a non-negative integer and the sequence must be non-empty, else ParseError''. A
  component is a non-empty string of decimal digits; its value has to fit the component
  type, Go's 64-bit \<^verbatim>\<open>int\<close>.\<close>

definition parse_component :: "string \<Rightarrow> int option" where
  "parse_component p =
     (if p \<noteq> [] \<and> list_all isDigit p \<and> decimal_value p < 2 ^ 63
      then Some (int (decimal_value p)) else None)"

fun parse_components :: "string list \<Rightarrow> int list option" where
  "parse_components [] = Some []"
| "parse_components (p # ps) =
     (case parse_component p of
        None \<Rightarrow> None
      | Some n \<Rightarrow> (case parse_components ps of None \<Rightarrow> None | Some ns \<Rightarrow> Some (n # ns)))"

definition ParseError :: "string \<Rightarrow> failure" where
  "ParseError s = Error (''ParseError: '' @ s @ '' is not an object identifier'')"

definition parseObjectIdentifier :: "string \<Rightarrow> failure + ObjectIdentifier" where
  "parseObjectIdentifier s =
     (case parse_components (Split s CHR ''.'') of
        None \<Rightarrow> Inl (ParseError s)
      | Some oid \<Rightarrow> if oid = [] then Inl (ParseError s) else Inr oid)"

text \<open>Modelled from the spec: \<^verbatim>\<open>unmarshalString\<close> is not among the sources; a JSON
  string decodes to its content and any other shape fails decoding.\<close>

definition unmarshalString :: "json \<Rightarrow> failure + string" where
  "unmarshalString data =
     (case data of JString s \<Rightarrow> Inr s | _ \<Rightarrow> Inl (Error ''error unmarshaling json''))"

text \<open>\<^verbatim>\<open>func (o *ObjectIdentifier) UnmarshalJSON(data []byte) error\<close>.\<close>

definition ObjectIdentifier_UnmarshalJSON :: "json \<Rightarrow> failure + ObjectIdentifier" where
  "ObjectIdentifier_UnmarshalJSON data =
     (case unmarshalString data of
        Inl err \<Rightarrow> Inl err
      | Inr s \<Rightarrow>
          (case parseObjectIdentifier s of
             Inl err \<Rightarrow> Inl err
           | Inr oid \<Rightarrow> Inr oid))"

text \<open>A valid ObjectIdentifier value: not empty, every component a non-negative
  \<^verbatim>\<open>int\<close>. A dotted string is canonical when no component has a superfluous
  leading zero.\<close>

definition valid_oid :: "ObjectIdentifier \<Rightarrow> bool" where
  "valid_oid oid = (oid \<noteq> [] \<and> list_all (\<lambda>n. 0 \<le> n \<and> n < 2 ^ 63) oid)"

definition canonical_component :: "string \<Rightarrow> bool" where
  "canonical_component p = (p = ''0'' \<or> take 1 p \<noteq> ''0'')"

definition canonical_oid_text :: "string \<Rightarrow> bool" where
  "canonical_oid_text s = list_all canonical_component (Split s CHR ''.'')"


section \<open>DER encoding\<close>

text \<open>
  The part of \<^verbatim>\<open>encoding/asn1\<close> (Go standard library) that the package reaches through
  \<^verbatim>\<open>asn1.Marshal\<close> and \<^verbatim>\<open>asn1.MarshalWithParams\<close>, written out after the library:
  identifier and length octets, INTEGER, OBJECT IDENTIFIER, the four string types, raw
  values and sequences. A failed call returns the message of its error on the left.
\<close>

function lengthLength :: "nat \<Rightarrow> nat" where
  "lengthLength i = (if i > 255 then Suc (lengthLength (i div 256)) else 1)"
  by pat_completeness auto
termination
  by (relation "measure id") auto

declare lengthLength.simps [simp del]

definition appendLength :: "byte list \<Rightarrow> nat \<Rightarrow> byte list" where
  "appendLength dst i = dst @ map (\<lambda>n. of_nat (i div 2 ^ (n * 8))) (rev [0..<lengthLength i])"

function base128_groups :: "int \<Rightarrow> nat" where
  "base128_groups i = (if i > 0 then Suc (base128_groups (i div 128)) else 0)"
  by pat_completeness auto
termination
  by (relation "measure nat") auto

declare base128_groups.simps [simp del]

definition base128IntLength :: "int \<Rightarrow> nat" where
  "base128IntLength n = (if n = 0 then 1 else base128_groups n)"

definition appendBase128Int :: "byte list \<Rightarrow> int \<Rightarrow> byte list" where
  "appendBase128Int dst n =
     dst @ map (\<lambda>i. let o7 = (word_of_int (n div 2 ^ (i * 7)) :: byte) AND 0x7f
                     in if i \<noteq> 0 then o7 OR 0x80 else o7)
               (rev [0..<base128IntLength n])"

text \<open>\<^verbatim>\<open>appendTagAndLength(dst, tagAndLength{class, tag, length, isCompound})\<close>.\<close>

definition appendTagAndLength :: "byte list \<Rightarrow> int \<Rightarrow> int \<Rightarrow> nat \<Rightarrow> bool \<Rightarrow> byte list" where
  "appendTagAndLength dst cls tg len isCompound =
     (let b = push_bit 6 (word_of_int cls :: byte);
          b = (if isCompound then b OR 0x20 else b);
          dst = (if tg \<ge> 31 then appendBase128Int (dst @ [b OR 0x1f]) tg
                 else dst @ [b OR word_of_int tg])
      in if len \<ge> 128 then appendLength (dst @ [0x80 OR of_nat (lengthLength len)]) len
         else dst @ [of_nat len])"

text \<open>\<^verbatim>\<open>int64Encoder\<close>: the shortest two's-complement form, most significant byte
  first. The two loops of \<^verbatim>\<open>Len\<close> count the bytes.\<close>

function int64_len_hi :: "nat \<Rightarrow> int \<Rightarrow> nat \<times> int" where
  "int64_len_hi n i = (if i > 127 then int64_len_hi (Suc n) (i div 256) else (n, i))"
  by pat_completeness auto
termination
  by (relation "measure (\<lambda>(n, i). nat i)") auto

function int64_len_lo :: "nat \<Rightarrow> int \<Rightarrow> nat \<times> int" where
  "int64_len_lo n i = (if i < - 128 then int64_len_lo (Suc n) (i div 256) else (n, i))"
  by pat_completeness auto
termination
  by (relation "measure (\<lambda>(n, i). nat (- i))") auto

declare int64_len_hi.simps [simp del] int64_len_lo.simps [simp del]

definition int64Encoder_Len :: "int \<Rightarrow> nat" where
  "int64Encoder_Len i = (case int64_len_hi 1 i of (n, i') \<Rightarrow> fst (int64_len_lo n i'))"

definition int64Encoder_Encode :: "int \<Rightarrow> byte list" where
  "int64Encoder_Encode i =
     (let n = int64Encoder_Len i
      in map (\<lambda>j. word_of_int (i div 2 ^ ((n - 1 - j) * 8))) [0..<n])"

text \<open>\<^verbatim>\<open>asn1.Marshal(i)\<close> for an \<^verbatim>\<open>int\<close>: universal class, tag INTEGER. It has no
  error case.\<close>

definition asn1_Marshal_int :: "int \<Rightarrow> byte list" where
  "asn1_Marshal_int i =
     (let body = int64Encoder_Encode i
      in appendTagAndLength [] 0 TagInteger (length body) False @ body)"

text \<open>\<^verbatim>\<open>makeObjectIdentifier\<close> and \<^verbatim>\<open>oidEncoder\<close>. The first two components share
  one number, computed in Go's 64-bit \<^verbatim>\<open>int\<close>.\<close>

definition wrap64 :: "int \<Rightarrow> int" where
  "wrap64 x = (x + 2 ^ 63) mod 2 ^ 64 - 2 ^ 63"

definition makeObjectIdentifier :: "int list \<Rightarrow> string + byte list" where
  "makeObjectIdentifier oid =
     (case oid of
        a # b # r \<Rightarrow>
          if a > 2 \<or> (a < 2 \<and> b \<ge> 40)
          then Inl ''asn1: structure error: invalid object identifier''
          else Inr (fold (\<lambda>v dst. appendBase128Int dst v) r
                      (appendBase128Int [] (wrap64 (a * 40 + b))))
      | _ \<Rightarrow> Inl ''asn1: structure error: invalid object identifier'')"

text \<open>\<^verbatim>\<open>asn1.Marshal(oid)\<close> (universal tag 6) and
  \<^verbatim>\<open>asn1.MarshalWithParams(oid, "tag:N")\<close> (implicit context-specific tag N).\<close>

definition asn1_Marshal_oid :: "int list \<Rightarrow> string + byte list" where
  "asn1_Marshal_oid oid =
     (case makeObjectIdentifier oid of
        Inl err \<Rightarrow> Inl err
      | Inr body \<Rightarrow> Inr (appendTagAndLength [] 0 TagOID (length body) False @ body))"

definition asn1_MarshalWithParams_oid_tag :: "int list \<Rightarrow> int \<Rightarrow> string + byte list" where
  "asn1_MarshalWithParams_oid_tag oid tg =
     (case makeObjectIdentifier oid of
        Inl err \<Rightarrow> Inl err
      | Inr body \<Rightarrow> Inr (appendTagAndLength [] 2 tg (length body) False @ body))"

text \<open>The character sets of \<^verbatim>\<open>makePrintableString\<close> (asterisk allowed, ampersand
  rejected), \<^verbatim>\<open>makeIA5String\<close> and \<^verbatim>\<open>makeNumericString\<close>.\<close>

definition isPrintable :: "char \<Rightarrow> bool" where
  "isPrintable ch =
     (let b = (of_char ch :: nat)
      in 97 \<le> b \<and> b \<le> 122 \<or> 65 \<le> b \<and> b \<le> 90 \<or> 48 \<le> b \<and> b \<le> 57
         \<or> 39 \<le> b \<and> b \<le> 41 \<or> 43 \<le> b \<and> b \<le> 47
         \<or> b = 32 \<or> b = 58 \<or> b = 61 \<or> b = 63 \<or> b = 42)"

definition isIA5 :: "char \<Rightarrow> bool" where
  "isIA5 ch = ((of_char ch :: nat) \<le> 127)"

definition isNumeric :: "char \<Rightarrow> bool" where
  "isNumeric ch = (let b = (of_char ch :: nat) in 48 \<le> b \<and> b \<le> 57 \<or> b = 32)"

text \<open>\<^verbatim>\<open>asn1.MarshalWithParams(s, params)\<close> for a string \<^verbatim>\<open>s\<close>. The package passes
  only the parameters \<^verbatim>\<open>"ia5"\<close>, \<^verbatim>\<open>"printable"\<close>, \<^verbatim>\<open>"numeric"\<close> and \<^verbatim>\<open>"utf8"\<close>, which
  select the string type of that name; the last branch is the one for \<^verbatim>\<open>"utf8"\<close>.\<close>

definition asn1_MarshalWithParams_string :: "string \<Rightarrow> string \<Rightarrow> string + byte list" where
  "asn1_MarshalWithParams_string s params =
     (if params = ''ia5'' then
        (if list_all isIA5 s
         then Inr (appendTagAndLength [] 0 TagIA5String (length s) False @ bytes_of s)
         else Inl ''asn1: structure error: IA5String contains invalid character'')
      else if params = ''printable'' then
        (if list_all isPrintable s
         then Inr (appendTagAndLength [] 0 TagPrintableString (length s) False @ bytes_of s)
         else Inl ''asn1: structure error: PrintableString contains invalid character'')
      else if params = ''numeric'' then
        (if list_all isNumeric s
         then Inr (appendTagAndLength [] 0 TagNumericString (length s) False @ bytes_of s)
         else Inl ''asn1: structure error: NumericString contains invalid character'')
      else Inr (appendTagAndLength [] 0 TagUTF8String (length s) False @ bytes_of s))"

text \<open>Marshalling an \<^verbatim>\<open>asn1.RawValue\<close>: \<^verbatim>\<open>FullBytes\<close> when there are any, else the
  identifier and length octets followed by \<^verbatim>\<open>Bytes\<close>.\<close>

definition marshal_RawValue :: "RawValue \<Rightarrow> byte list" where
  "marshal_RawValue rv =
     (if FullBytes rv \<noteq> [] then FullBytes rv
      else appendTagAndLength [] (Class rv) (Tag rv) (length (Bytes rv)) (IsCompound rv) @ Bytes rv)"

text \<open>\<^verbatim>\<open>asn1.Marshal(rawValues)\<close> for a slice of raw values: a SEQUENCE of the
  elements.\<close>

definition asn1_Marshal_RawValues :: "RawValue list \<Rightarrow> byte list" where
  "asn1_Marshal_RawValues rvs =
     (let body = concat (map marshal_RawValue rvs)
      in appendTagAndLength [] 0 TagSequence (length body) True @ body)"

text \<open>
  \<^verbatim>\<open>asn1.MarshalWithParams(otherName, "tag:0")\<close> for
  \<^verbatim>\<open>OtherName{OID: oid, Value: OtherNameValue{V: asn1.RawValue{FullBytes: rawBytes}}}\<close>,
  where the field \<^verbatim>\<open>Value\<close> is declared with \<^verbatim>\<open>asn1:"tag:0"\<close>: both structs are
  sequences whose universal tag is replaced by the context-specific tag 0.
\<close>

definition asn1_MarshalWithParams_OtherName :: "int list \<Rightarrow> byte list \<Rightarrow> string + byte list" where
  "asn1_MarshalWithParams_OtherName oid rawBytes =
     (case asn1_Marshal_oid oid of
        Inl err \<Rightarrow> Inl err
      | Inr oidField \<Rightarrow>
          let v = marshal_RawValue (RawValue0\<lparr>FullBytes := rawBytes\<rparr>);
              valueField = appendTagAndLength [] 2 0 (length v) True @ v;
              body = oidField @ valueField
          in Inr (appendTagAndLength [] 2 0 (length body) True @ body))"

section \<open>SubjectAlternativeName\<close>

record SubjectAlternativeName =
  san_Type :: string
  san_Value :: string

definition AutoType :: string where "AutoType = ''auto''"
definition EmailType :: string where "EmailType = ''email''"
definition DNSType :: string where "DNSType = ''dns''"
definition X400AddressType :: string where "X400AddressType = ''x400Address''"
definition DirectoryNameType :: string where "DirectoryNameType = ''dn''"
definition EDIPartyNameType :: string where "EDIPartyNameType = ''ediPartyName''"
definition URIType :: string where "URIType = ''uri''"
definition IPType :: string where "IPType = ''ip''"
definition RegisteredIDType :: string where "RegisteredIDType = ''registeredID''"

definition nameTypeOtherName :: int where "nameTypeOtherName = 0"
definition nameTypeEmail :: int where "nameTypeEmail = 1"
definition nameTypeDNS :: int where "nameTypeDNS = 2"
definition nameTypeURI :: int where "nameTypeURI = 6"
definition nameTypeIP :: int where "nameTypeIP = 7"
definition nameTypeRegisteredID :: int where "nameTypeRegisteredID = 8"

definition subjectAlternativeNameOID :: ObjectIdentifier where
  "subjectAlternativeNameOID = [2, 5, 29, 17]"

record Extension =
  ext_ID :: ObjectIdentifier
  ext_Critical :: bool
  ext_Value :: "byte list"

text \<open>
  Functions that the package calls and that are given neither by its sources nor by the
  spec: \<^verbatim>\<open>strings.ToLower\<close>, \<^verbatim>\<open>net.ParseIP\<close> (\<^const>\<open>None\<close> for \<^verbatim>\<open>nil\<close>),
  \<^verbatim>\<open>net.IP.String\<close>, \<^verbatim>\<open>url.Parse\<close> (\<^const>\<open>None\<close> for an error), \<^verbatim>\<open>url.URL.String\<close>,
  and the package's own \<^verbatim>\<open>SplitSANs\<close>, which returns DNS names, IPs, email addresses
  and URIs. They are parameters of the model.
\<close>

record 'url externs =
  strings_ToLower :: "string \<Rightarrow> string"
  net_ParseIP :: "string \<Rightarrow> byte list option"
  net_IP_String :: "byte list \<Rightarrow> string"
  url_Parse :: "string \<Rightarrow> 'url option"
  url_URL_String :: "'url \<Rightarrow> string"
  SplitSANs :: "string list \<Rightarrow> string list \<times> byte list list \<times> string list \<times> 'url list"

text \<open>What is used of \<^verbatim>\<open>strings.ToLower\<close>: in a string of ASCII bytes it replaces the
  letters A to Z by a to z and keeps every other byte. A string with other bytes is
  lowercased rune by rune with \<^verbatim>\<open>unicode.ToLower\<close> (U+0130 becomes i, for one), and
  nothing is assumed about the result.\<close>

definition toLower_char :: "char \<Rightarrow> char" where
  "toLower_char ch =
     (if 65 \<le> (of_char ch :: nat) \<and> (of_char ch :: nat) \<le> 90
      then char_of ((of_char ch :: nat) + 32) else ch)"

definition ascii_lower :: "string \<Rightarrow> string" where
  "ascii_lower s = map toLower_char s"

definition ascii :: "string \<Rightarrow> bool" where
  "ascii s = list_all (\<lambda>ch. (of_char ch :: nat) < 128) s"

definition ToLower_contract :: "'url externs \<Rightarrow> bool" where
  "ToLower_contract lib = (\<forall>s. ascii s \<longrightarrow> strings_ToLower lib s = ascii_lower s)"

text \<open>\<^verbatim>\<open>func (s SubjectAlternativeName) Set(c *x509.Certificate)\<close>. The function has
  no result; it returns normally with the certificate updated, or panics.\<close>

definition SubjectAlternativeName_Set ::
  "'url externs \<Rightarrow> SubjectAlternativeName \<Rightarrow> ('url, 'z) x509_Certificate_scheme
     \<Rightarrow> failure + ('url, 'z) x509_Certificate_scheme" where
  "SubjectAlternativeName_Set lib s c =
     (let t = strings_ToLower lib (san_Type s)
      in if t = DNSType then
           Inr (c\<lparr>x509_DNSNames := x509_DNSNames c @ [san_Value s]\<rparr>)
         else if t = EmailType then
           Inr (c\<lparr>x509_EmailAddresses := x509_EmailAddresses c @ [san_Value s]\<rparr>)
         else if t = IPType then
           (case net_ParseIP lib (san_Value s) of
              Some ip \<Rightarrow> Inr (c\<lparr>x509_IPAddresses := x509_IPAddresses c @ [ip]\<rparr>)
            | None \<Rightarrow> Inr c)
         else if t = URIType then
           (case url_Parse lib (san_Value s) of
              Some u \<Rightarrow> Inr (c\<lparr>x509_URIs := x509_URIs c @ [u]\<rparr>)
            | None \<Rightarrow> Inr c)
         else if t = [] \<or> t = AutoType then
           (case SplitSANs lib [san_Value s] of
              (dnsNames, ips, emails, uris) \<Rightarrow>
                Inr (c\<lparr>x509_DNSNames := x509_DNSNames c @ dnsNames,
                       x509_IPAddresses := x509_IPAddresses c @ ips,
                       x509_EmailAddresses := x509_EmailAddresses c @ emails,
                       x509_URIs := x509_URIs c @ uris\<rparr>))
         else Inl (Panic (''unsupported subject alternative name type '' @ san_Type s)))"

section \<open>The SAN extension encoder\<close>

text \<open>The fields of the template \<^verbatim>\<open>Certificate\<close> that the encoder reads, and the
  subject.\<close>

record 'url Certificate =
  Subject :: Subject
  DNSNames :: "string list"
  EmailAddresses :: "string list"
  IPAddresses :: "byte list list"
  URIs :: "'url list"
  SANs :: "SubjectAlternativeName list"

text \<open>\<^verbatim>\<open>func (ip IP) To4() IP\<close>; \<^const>\<open>None\<close> is \<^verbatim>\<open>nil\<close>.\<close>

definition To4 :: "byte list \<Rightarrow> byte list option" where
  "To4 ip =
     (if length ip = 4 then Some ip
      else if length ip = 16 \<and> list_all (\<lambda>b. b = 0) (take 10 ip)
              \<and> ip ! 10 = 0xff \<and> ip ! 11 = 0xff
      then Some (drop 12 ip)
      else None)"

text \<open>The value of an otherName (the computation of \<^verbatim>\<open>rawBytes\<close>): the text before
  the first semicolon names the type, and the rest is the payload.\<close>

definition otherName_rawBytes :: "string \<Rightarrow> string \<Rightarrow> failure + byte list" where
  "otherName_rawBytes sanType value =
     (let (valueType, sanValue) =
            (if Contains value CHR '';''
             then (let vt = hd (Split value CHR '';'') in (vt, drop (length vt + 1) value))
             else (''printable'', value));
          marshalled =
            (if valueType = ''int'' then
               (case Atoi sanValue of
                  None \<Rightarrow> Inl (Error (''invalid int value for int-typed SAN OtherName '' @ sanType))
                | Some i \<Rightarrow> Inr (Inr (asn1_Marshal_int i)))
             else if valueType = ''oid'' then
               (case parseObjectIdentifier sanValue of
                  Inl err \<Rightarrow> Inl (Error (''invalid OID value for OID-typed SAN OtherName '' @ sanType))
                | Inr oidVal \<Rightarrow> Inr (asn1_Marshal_oid oidVal))
             else if valueType = ''utf8'' \<or> valueType = ''ia5'' \<or> valueType = ''numeric''
                     \<or> valueType = ''printable'' then
               Inr (asn1_MarshalWithParams_string sanValue valueType)
             else Inr (asn1_MarshalWithParams_string value ''printable''))
      in case marshalled of
           Inl e \<Rightarrow> Inl e
         | Inr (Inl err) \<Rightarrow> Inl (Error (''could not marshal ASN1 values: '' @ err))
         | Inr (Inr rawBytes) \<Rightarrow> Inr rawBytes)"

text \<open>One iteration of the loop over \<^verbatim>\<open>allSANs\<close>: the \<^verbatim>\<open>switch san.Type\<close>. The
  errors of the two \<^verbatim>\<open>MarshalWithParams\<close> calls whose result is assigned with
  \<^verbatim>\<open>rawBytes, _ :=\<close> are dropped and leave the bytes empty.\<close>

definition san_step ::
  "'url externs \<Rightarrow> RawValue list \<Rightarrow> SubjectAlternativeName \<Rightarrow> failure + RawValue list" where
  "san_step lib rawValues san =
     (let t = san_Type san; v = san_Value san
      in if t = EmailType then
           Inr (rawValues @ [RawValue0\<lparr>Tag := nameTypeEmail, Class := 2, Bytes := bytes_of v\<rparr>])
         else if t = DNSType then
           Inr (rawValues @ [RawValue0\<lparr>Tag := nameTypeDNS, Class := 2, Bytes := bytes_of v\<rparr>])
         else if t = X400AddressType \<or> t = DirectoryNameType \<or> t = EDIPartyNameType then
           Inl (Error (''unimplemented SAN type '' @ t))
         else if t = URIType then
           Inr (rawValues @ [RawValue0\<lparr>Tag := nameTypeURI, Class := 2, Bytes := bytes_of v\<rparr>])
         else if t = IPType then
           (case net_ParseIP lib v of
              None \<Rightarrow> Inr rawValues
            | Some rawIP \<Rightarrow>
                let ip = (case To4 rawIP of None \<Rightarrow> rawIP | Some ip4 \<Rightarrow> ip4)
                in Inr (rawValues @ [RawValue0\<lparr>Tag := nameTypeIP, Class := 2, Bytes := ip\<rparr>]))
         else if t = RegisteredIDType then
           (if v \<noteq> [] then
              (case parseObjectIdentifier v of
                 Inl err \<Rightarrow> Inr rawValues
               | Inr oid \<Rightarrow>
                   let rawBytes = (case asn1_MarshalWithParams_oid_tag oid nameTypeRegisteredID of
                                     Inl err \<Rightarrow> [] | Inr bs \<Rightarrow> bs)
                   in Inr (rawValues @ [RawValue0\<lparr>FullBytes := rawBytes\<rparr>]))
            else Inr rawValues)
         else if t \<noteq> [] then
           (case parseObjectIdentifier t of
              Inl err \<Rightarrow> Inl (Error (''unsupported SAN type '' @ t))
            | Inr oid \<Rightarrow>
                (case otherName_rawBytes t v of
                   Inl e \<Rightarrow> Inl e
                 | Inr rawBytes \<Rightarrow>
                     let generalNameBytes =
                           (case asn1_MarshalWithParams_OtherName oid rawBytes of
                              Inl err \<Rightarrow> [] | Inr bs \<Rightarrow> bs)
                     in Inr (rawValues @ [RawValue0\<lparr>FullBytes := generalNameBytes\<rparr>])))
         else Inr rawValues)"

text \<open>The loop \<^verbatim>\<open>for _, san := range allSANs\<close>; an error ends the function.\<close>

fun san_loop ::
  "'url externs \<Rightarrow> RawValue list \<Rightarrow> SubjectAlternativeName list \<Rightarrow> failure + RawValue list" where
  "san_loop lib rawValues [] = Inr rawValues"
| "san_loop lib rawValues (san # sans) =
     (case san_step lib rawValues san of
        Inl e \<Rightarrow> Inl e
      | Inr rawValues' \<Rightarrow> san_loop lib rawValues' sans)"

text \<open>The four loops that copy the shorthand lists behind the explicit entries, each
  \<^verbatim>\<open>allSANs = append(allSANs, SubjectAlternativeName{Type: T, Value: f(x)})\<close>.\<close>

definition append_SANs ::
  "string \<Rightarrow> ('a \<Rightarrow> string) \<Rightarrow> 'a list \<Rightarrow> SubjectAlternativeName list \<Rightarrow> SubjectAlternativeName list" where
  "append_SANs T f xs allSANs =
     fold (\<lambda>x acc. acc @ [\<lparr>san_Type = T, san_Value = f x\<rparr>]) xs allSANs"

definition all_SANs ::
  "'url externs \<Rightarrow> ('url, 'z) Certificate_scheme \<Rightarrow> SubjectAlternativeName list" where
  "all_SANs lib c =
     (let allSANs = SANs c;
          allSANs = append_SANs DNSType (\<lambda>dnsName. dnsName) (DNSNames c) allSANs;
          allSANs = append_SANs EmailType (\<lambda>emailAddress. emailAddress) (EmailAddresses c) allSANs;
          allSANs = append_SANs URIType (url_URL_String lib) (URIs c) allSANs;
          allSANs = append_SANs IPType (net_IP_String lib) (IPAddresses c) allSANs
      in allSANs)"

text \<open>\<^verbatim>\<open>func createSubjectAltNameExtension(c *Certificate) (*Extension, error)\<close>.\<close>

definition createSubjectAltNameExtension ::
  "'url externs \<Rightarrow> ('url, 'z) Certificate_scheme \<Rightarrow> failure + Extension" where
  "createSubjectAltNameExtension lib c =
     (case san_loop lib [] (all_SANs lib c) of
        Inl e \<Rightarrow> Inl e
      | Inr rawValues \<Rightarrow>
          Inr \<lparr>ext_ID = subjectAlternativeNameOID, ext_Critical = False,
               ext_Value = asn1_Marshal_RawValues rawValues\<rparr>)"


text \<open>The entries that the four loops append behind the explicit ones.\<close>

definition shorthand_SANs ::
  "'url externs \<Rightarrow> ('url, 'z) Certificate_scheme \<Rightarrow> SubjectAlternativeName list" where
  "shorthand_SANs lib c =
     map (\<lambda>x. \<lparr>san_Type = DNSType, san_Value = x\<rparr>) (DNSNames c)
     @ map (\<lambda>x. \<lparr>san_Type = EmailType, san_Value = x\<rparr>) (EmailAddresses c)
     @ map (\<lambda>x. \<lparr>san_Type = URIType, san_Value = url_URL_String lib x\<rparr>) (URIs c)
     @ map (\<lambda>x. \<lparr>san_Type = IPType, san_Value = net_IP_String lib x\<rparr>) (IPAddresses c)"

text \<open>What the specification describes: a DER element is an identifier octet, the length
  octets and the content; an otherName GeneralName is the context tag 0 (constructed)
  around the type-id and the value, the value being wrapped in an explicit context
  tag 0.\<close>

definition der_length :: "nat \<Rightarrow> byte list" where
  "der_length n =
     (if n \<ge> 128 then appendLength [0x80 OR of_nat (lengthLength n)] n else [of_nat n])"

definition der_tlv :: "byte \<Rightarrow> byte list \<Rightarrow> byte list" where
  "der_tlv identifier content = identifier # der_length (length content) @ content"

definition otherName_der :: "byte list \<Rightarrow> byte list \<Rightarrow> byte list" where
  "otherName_der oidContent inner = der_tlv 0xA0 (der_tlv 0x06 oidContent @ der_tlv 0xA0 inner)"

text \<open>The extension in which the GeneralName \<open>gn\<close> stands between the elements
  \<open>before\<close>, encoded from the entries in front of its entry, and the elements of the
  entries behind it: the rest \<open>post\<close> of the explicit list, then the shorthand lists. An
  error among the entries behind it is the result of the encoder.\<close>

definition extension_with ::
  "'url externs \<Rightarrow> ('url, 'z) Certificate_scheme \<Rightarrow> RawValue list \<Rightarrow> byte list
     \<Rightarrow> SubjectAlternativeName list \<Rightarrow> failure + Extension" where
  "extension_with lib c before gn post =
     (case san_loop lib [] (post @ shorthand_SANs lib c) of
        Inl e \<Rightarrow> Inl e
      | Inr after \<Rightarrow>
          Inr \<lparr>ext_ID = [2, 5, 29, 17], ext_Critical = False,
               ext_Value = der_tlv 0x30 (concat (map marshal_RawValue before) @ gn
                             @ concat (map marshal_RawValue after))\<rparr>)"

text \<open>The integer that a DER INTEGER content denotes: big-endian two's complement.
  \<open>low_bytes i k\<close> are the \<open>k\<close> low-order bytes of \<open>i\<close>, most significant first.\<close>

definition be_unsigned :: "byte list \<Rightarrow> int" where
  "be_unsigned bs = foldl (\<lambda>a b. a * 256 + uint b) 0 bs"

definition twos_complement :: "byte list \<Rightarrow> int" where
  "twos_complement bs = (case bs of [] \<Rightarrow> 0 | b # r \<Rightarrow> sint b * 256 ^ length r + be_unsigned r)"

definition low_bytes :: "int \<Rightarrow> nat \<Rightarrow> byte list" where
  "low_bytes i k = map (\<lambda>j. word_of_int (i div 2 ^ ((k - 1 - j) * 8))) [0..<k]"

text \<open>The fixed type tags of the encoder's \<^verbatim>\<open>switch\<close>.\<close>

definition encoder_tags :: "string list" where
  "encoder_tags = [EmailType, DNSType, X400AddressType, DirectoryNameType, EDIPartyNameType,
     URIType, IPType, RegisteredIDType]"

text \<open>A sample instance of the external functions, for concrete runs: it knows the
  addresses 10.0.0.1 and ::1 and treats every other text as a DNS name. Its lowercasing
  maps the letters A to Z and the two bytes C4 B0, which are U+0130 in UTF-8, to
  lowercase, as \<^verbatim>\<open>strings.ToLower\<close> does, and keeps all other bytes.\<close>

fun sample_ToLower :: "string \<Rightarrow> string" where
  "sample_ToLower (a # b # r) =
     (if a = CHR 0xC4 \<and> b = CHR 0xB0 then CHR ''i'' # sample_ToLower r
      else toLower_char a # sample_ToLower (b # r))"
| "sample_ToLower [a] = [toLower_char a]"
| "sample_ToLower [] = []"

definition sample_ParseIP :: "string \<Rightarrow> byte list option" where
  "sample_ParseIP s =
     (if s = ''10.0.0.1'' then Some [0, 0, 0, 0, 0, 0, 0, 0, 0, 0, 0xff, 0xff, 10, 0, 0, 1]
      else if s = ''::1'' then Some [0, 0, 0, 0, 0, 0, 0, 0, 0, 0, 0, 0, 0, 0, 0, 1]
      else None)"

definition sample_IP_String :: "byte list \<Rightarrow> string" where
  "sample_IP_String ip =
     (if ip = [0, 0, 0, 0, 0, 0, 0, 0, 0, 0, 0xff, 0xff, 10, 0, 0, 1] then ''10.0.0.1''
      else if ip = [0, 0, 0, 0, 0, 0, 0, 0, 0, 0, 0, 0, 0, 0, 0, 1] then ''::1''
      else ''?'')"

definition sample_SplitSANs ::
  "string list \<Rightarrow> string list \<times> byte list list \<times> string list \<times> string list" where
  "sample_SplitSANs sans = (sans, [], [], [])"

definition sample_lib :: "string externs" where
  "sample_lib = \<lparr>strings_ToLower = sample_ToLower, net_ParseIP = sample_ParseIP, net_IP_String = sample_IP_String,
     url_Parse = Some, url_URL_String = id, SplitSANs = sample_SplitSANs\<rparr>"

definition Subject0 :: Subject where
  "Subject0 = \<lparr>Country = [], Organization = [], OrganizationalUnit = [],
     DomainController = [], Locality = [], Province = [], StreetAddress = [],
     PostalCode = [], SerialNumber = [], CommonName = [], Surname = [],
     GivenName = [], Title = [], UID = []\<rparr>"

definition Certificate0 :: "string Certificate" where
  "Certificate0 = \<lparr>Subject = Subject0, DNSNames = [], EmailAddresses = [], IPAddresses = [],
     URIs = [], SANs = []\<rparr>"

section \<open>Properties of BasicConstraints.Set\<close>

text \<open>
  C4. For every BasicConstraints value applied with \<^verbatim>\<open>Set\<close>: when isCA is false the
  certificate's MaxPathLen is 0 and MaxPathLenZero is false whatever the input
  maxPathLen; when isCA is true, maxPathLen = 0 gives MaxPathLen 0 with MaxPathLenZero
  true, maxPathLen < 0 gives MaxPathLen -1 with the flag false, and maxPathLen > 0 is
  copied with the flag false.
\<close>

theorem BasicConstraints_Set_policy:
  "(\<not> bc_IsCA b \<longrightarrow>
      MaxPathLen (BasicConstraints_Set b c) = 0 \<and> \<not> MaxPathLenZero (BasicConstraints_Set b c))
   \<and> (bc_IsCA b \<and> bc_MaxPathLen b = 0 \<longrightarrow>
      MaxPathLen (BasicConstraints_Set b c) = 0 \<and> MaxPathLenZero (BasicConstraints_Set b c))
   \<and> (bc_IsCA b \<and> bc_MaxPathLen b < 0 \<longrightarrow>
      MaxPathLen (BasicConstraints_Set b c) = -1 \<and> \<not> MaxPathLenZero (BasicConstraints_Set b c))
   \<and> (bc_IsCA b \<and> bc_MaxPathLen b > 0 \<longrightarrow>
      MaxPathLen (BasicConstraints_Set b c) = bc_MaxPathLen b
      \<and> \<not> MaxPathLenZero (BasicConstraints_Set b c))
   \<and> IsCA (BasicConstraints_Set b c) = bc_IsCA b
   \<and> BasicConstraintsValid (BasicConstraints_Set b c)"
  by (simp add: BasicConstraints_Set_def Let_def)

theorem BasicConstraints_Set_policy_witness:
  "(let r = BasicConstraints_Set \<lparr>bc_IsCA = True, bc_MaxPathLen = 0\<rparr>
              (x509_Certificate0 :: unit x509_Certificate)
    in MaxPathLen r = 0 \<and> MaxPathLenZero r)
   \<and> (let r = BasicConstraints_Set \<lparr>bc_IsCA = True, bc_MaxPathLen = -1\<rparr>
              (x509_Certificate0 :: unit x509_Certificate)
    in MaxPathLen r = -1 \<and> \<not> MaxPathLenZero r)
   \<and> (let r = BasicConstraints_Set \<lparr>bc_IsCA = False, bc_MaxPathLen = 5\<rparr>
              (x509_Certificate0 :: unit x509_Certificate)
    in MaxPathLen r = 0 \<and> \<not> MaxPathLenZero r)
   \<and> (let r = BasicConstraints_Set \<lparr>bc_IsCA = True, bc_MaxPathLen = 3\<rparr>
              (x509_Certificate0 :: unit x509_Certificate)
    in MaxPathLen r = 3 \<and> \<not> MaxPathLenZero r)"
  using BasicConstraints_Set_policy
          [of "\<lparr>bc_IsCA = True, bc_MaxPathLen = 0\<rparr>" "x509_Certificate0 :: unit x509_Certificate"]
        BasicConstraints_Set_policy
          [of "\<lparr>bc_IsCA = True, bc_MaxPathLen = -1\<rparr>" "x509_Certificate0 :: unit x509_Certificate"]
        BasicConstraints_Set_policy
          [of "\<lparr>bc_IsCA = False, bc_MaxPathLen = 5\<rparr>" "x509_Certificate0 :: unit x509_Certificate"]
        BasicConstraints_Set_policy
          [of "\<lparr>bc_IsCA = True, bc_MaxPathLen = 3\<rparr>" "x509_Certificate0 :: unit x509_Certificate"]
  by simp

section \<open>Properties of Subject.Set\<close>

lemma append_ExtraNames_update:
  "append_ExtraNames oid v c =
     x509_Subject_update (ExtraNames_update (\<lambda>xs. xs @ [ia5_entry oid v])) c"
  by (simp add: append_ExtraNames_def ia5_entry_def RawValue0_def TagIA5String_def)

lemma fold_append_ExtraNames:
  "fold (append_ExtraNames oid) vs c =
     x509_Subject_update (ExtraNames_update (\<lambda>xs. xs @ map (ia5_entry oid) vs)) c"
proof (induction vs arbitrary: c)
  case Nil
  show ?case by simp
next
  case (Cons v vs)
  show ?case
    by (simp add: Cons.IH) (simp add: append_ExtraNames_update)
qed

lemma if_append_ExtraNames:
  "(if v \<noteq> [] then append_ExtraNames oid v c else c) =
     x509_Subject_update (ExtraNames_update (\<lambda>xs. xs @ scalar_entries oid v)) c"
  by (simp add: append_ExtraNames_update scalar_entries_def)

lemma Subject_Set_closed_form:
  "Subject_Set s c =
     c\<lparr>x509_Subject := pkix_Name0\<lparr>ExtraNames :=
        map (ia5_entry oidCountry) (Country s) @
        map (ia5_entry oidLocality) (Locality s) @
        map (ia5_entry oidProvince) (Province s) @
        map (ia5_entry oidStreetAddress) (StreetAddress s) @
        map (ia5_entry oidPostalCode) (PostalCode s) @
        map (ia5_entry oidOrganization) (Organization s) @
        map (ia5_entry oidDC) (DomainController s) @
        map (ia5_entry oidOrganizationalUnit) (OrganizationalUnit s) @
        scalar_entries oidTitle (Title s) @
        scalar_entries oidGivenName (GivenName s) @
        scalar_entries oidSurname (Surname s) @
        scalar_entries oidCommonName (CommonName s) @
        scalar_entries oidSerialNumber (SerialNumber s) @
        scalar_entries oidUID (UID s)\<rparr>\<rparr>"
  unfolding Subject_Set_def Let_def fold_append_ExtraNames if_append_ExtraNames
  by (simp add: pkix_Name0_def)

lemma list_all_ia5_map: "list_all (\<lambda>e. Tag (atv_Value e) = TagIA5String \<and> Class (atv_Value e) = 0
    \<and> FullBytes (atv_Value e) = []) (map (ia5_entry oid) vs)"
  by (induction vs) (simp_all add: ia5_entry_def TagIA5String_def)

lemma list_all_ia5_scalar: "list_all (\<lambda>e. Tag (atv_Value e) = TagIA5String \<and> Class (atv_Value e) = 0
    \<and> FullBytes (atv_Value e) = []) (scalar_entries oid v)"
  by (simp add: scalar_entries_def ia5_entry_def TagIA5String_def)

lemma length_scalar_entries: "length (scalar_entries oid v) = present v"
  by (simp add: scalar_entries_def present_def)

text \<open>
  C7. For every Subject, \<^verbatim>\<open>Subject.Set\<close> replaces the certificate's subject by a name
  whose only content is the attribute sequence ExtraNames, which holds one entry per
  value in the order country, locality, province, streetAddress, postalCode,
  organization, domainController, organizationalUnit (each multi-valued, in input
  order), then title, givenName, surname, commonName, serialNumber, userID (each scalar
  present when its string is not empty). Every entry carries the bytes of its value
  under the IA5String tag, and the number of entries is the number of values present.
\<close>

theorem Subject_Set_projection:
  "x509_Subject (Subject_Set s c) = pkix_Name0\<lparr>ExtraNames :=
        map (ia5_entry oidCountry) (Country s) @
        map (ia5_entry oidLocality) (Locality s) @
        map (ia5_entry oidProvince) (Province s) @
        map (ia5_entry oidStreetAddress) (StreetAddress s) @
        map (ia5_entry oidPostalCode) (PostalCode s) @
        map (ia5_entry oidOrganization) (Organization s) @
        map (ia5_entry oidDC) (DomainController s) @
        map (ia5_entry oidOrganizationalUnit) (OrganizationalUnit s) @
        scalar_entries oidTitle (Title s) @
        scalar_entries oidGivenName (GivenName s) @
        scalar_entries oidSurname (Surname s) @
        scalar_entries oidCommonName (CommonName s) @
        scalar_entries oidSerialNumber (SerialNumber s) @
        scalar_entries oidUID (UID s)\<rparr>
   \<and> list_all (\<lambda>e. Tag (atv_Value e) = TagIA5String \<and> Class (atv_Value e) = 0 \<and> FullBytes (atv_Value e) = [])
        (ExtraNames (x509_Subject (Subject_Set s c)))
   \<and> length (ExtraNames (x509_Subject (Subject_Set s c))) =
        length (Country s) + length (Locality s) + length (Province s)
        + length (StreetAddress s) + length (PostalCode s) + length (Organization s)
        + length (DomainController s) + length (OrganizationalUnit s)
        + present (Title s) + present (GivenName s) + present (Surname s)
        + present (CommonName s) + present (SerialNumber s) + present (UID s)"
proof (intro conjI)
  show "x509_Subject (Subject_Set s c) = pkix_Name0\<lparr>ExtraNames :=
        map (ia5_entry oidCountry) (Country s) @
        map (ia5_entry oidLocality) (Locality s) @
        map (ia5_entry oidProvince) (Province s) @
        map (ia5_entry oidStreetAddress) (StreetAddress s) @
        map (ia5_entry oidPostalCode) (PostalCode s) @
        map (ia5_entry oidOrganization) (Organization s) @
        map (ia5_entry oidDC) (DomainController s) @
        map (ia5_entry oidOrganizationalUnit) (OrganizationalUnit s) @
        scalar_entries oidTitle (Title s) @
        scalar_entries oidGivenName (GivenName s) @
        scalar_entries oidSurname (Surname s) @
        scalar_entries oidCommonName (CommonName s) @
        scalar_entries oidSerialNumber (SerialNumber s) @
        scalar_entries oidUID (UID s)\<rparr>"
    by (simp add: Subject_Set_closed_form)
  show "list_all (\<lambda>e. Tag (atv_Value e) = TagIA5String \<and> Class (atv_Value e) = 0 \<and> FullBytes (atv_Value e) = [])
        (ExtraNames (x509_Subject (Subject_Set s c)))"
    by (simp add: Subject_Set_closed_form list_all_ia5_map list_all_ia5_scalar)
  show "length (ExtraNames (x509_Subject (Subject_Set s c))) =
        length (Country s) + length (Locality s) + length (Province s)
        + length (StreetAddress s) + length (PostalCode s) + length (Organization s)
        + length (DomainController s) + length (OrganizationalUnit s)
        + present (Title s) + present (GivenName s) + present (Surname s)
        + present (CommonName s) + present (SerialNumber s) + present (UID s)"
    by (simp add: Subject_Set_closed_form length_scalar_entries)
qed

theorem Subject_Set_projection_witness:
  "map atv_Type (ExtraNames (x509_Subject (Subject_Set Subject_example
       (x509_Certificate0 :: unit x509_Certificate)))) =
     [oidCountry, oidCountry, oidOrganization, oidDC, oidTitle, oidCommonName, oidUID]
   \<and> map (Bytes \<circ> atv_Value) (ExtraNames (x509_Subject (Subject_Set Subject_example
       (x509_Certificate0 :: unit x509_Certificate)))) =
     map bytes_of [''US'', ''CA'', ''Acme'', ''dc1'', ''Dr'', ''example.com'', ''u1'']"
  using Subject_Set_projection [of Subject_example "x509_Certificate0 :: unit x509_Certificate"]
  by (simp add: Subject_example_def scalar_entries_def ia5_entry_def)

section \<open>Properties of SerialNumber.UnmarshalJSON\<close>

lemma scan_digits_plain:
  "list_all (\<lambda>ch. ch \<noteq> CHR ''_'' \<and> digitval b ch < b) ds \<Longrightarrow>
   scan_digits base b prev isep count z ds =
     (if ds = [] then prev else CHR ''0'', isep, count + length ds,
      foldl (\<lambda>z ch. z * b + digitval b ch) z ds, [])"
  by (induction ds arbitrary: prev count z) simp_all

lemma nat_scan_after_prefix:
  assumes "scan_prefix 0 s = (b, prefix, prev0, 0, ds)" and "digits_of_base b ds"
  shows "nat_scan s 0 = Some (digits_value b ds, b, length ds, [])"
  using assms
  by (simp add: nat_scan_def digits_of_base_def digits_value_def scan_digits_plain)

lemma digitval_letters:
  "digitval 2 CHR ''b'' = 11" "digitval 2 CHR ''B'' = 11"
  "digitval 8 CHR ''o'' = 24" "digitval 8 CHR ''O'' = 24"
  "digitval 16 CHR ''x'' = 33" "digitval 16 CHR ''X'' = 33"
  "digitval 8 CHR ''b'' = 11" "digitval 8 CHR ''B'' = 11"
  "digitval 8 CHR ''x'' = 33" "digitval 8 CHR ''X'' = 33"
  "digitval 10 CHR ''0'' = 0"
  "digitval b CHR ''+'' = 63" "digitval b CHR ''-'' = 63"
  by (simp_all add: digitval_def)

lemma scan_prefix_selected:
  assumes "s \<noteq> ''0''"
  shows "\<exists>prefix prev0. scan_prefix 0 s = (selected_base s, prefix, prev0, 0, digits_part s)"
proof (cases s)
  case Nil
  then show ?thesis
    by (simp add: scan_prefix_def selected_base_def digits_part_def has_base_prefix_def)
next
  case (Cons ch r)
  show ?thesis
  proof (cases "ch = CHR ''0''")
    case False
    with Cons show ?thesis
      by (simp add: scan_prefix_def selected_base_def digits_part_def has_base_prefix_def)
  next
    case True
    note ch0 = this
    show ?thesis
    proof (cases r)
      case Nil
      with Cons ch0 assms show ?thesis by simp
    next
      case (Cons ch2 r2)
      with \<open>s = ch # r\<close> ch0 show ?thesis
        by (simp add: scan_prefix_def selected_base_def digits_part_def has_base_prefix_def)
    qed
  qed
qed

lemma digits_of_base_no_sign:
  assumes "digits_of_base b ds" and "b \<le> 36"
  shows "ds \<noteq> [] \<and> hd ds \<noteq> CHR ''-'' \<and> hd ds \<noteq> CHR ''+''"
  using assms by (cases ds) (auto simp: digits_of_base_def digitval_letters)

lemma selected_base_le: "selected_base s \<le> 36"
  by (simp add: selected_base_def)

lemma take2_eq: "take 2 s = [a, b] \<Longrightarrow> \<exists>r. s = a # b # r"
  by (cases s; cases "tl s") (auto simp: numeral_2_eq_2)

lemma digits_part_hd:
  assumes "digits_of_base (selected_base s) (digits_part s)"
  shows "s \<noteq> [] \<and> hd s \<noteq> CHR ''-'' \<and> hd s \<noteq> CHR ''+''"
proof (cases "digits_part s = s")
  case True
  with assms digits_of_base_no_sign [OF _ selected_base_le, of s s] show ?thesis by simp
next
  case False
  then have "\<exists>r. s = CHR ''0'' # r"
    by (cases s) (auto simp: digits_part_def has_base_prefix_def split: if_splits dest: take2_eq)
  then show ?thesis by auto
qed

lemma nat_scan_selected:
  assumes "digits_of_base (selected_base s) (digits_part s)"
  shows "\<exists>b n. nat_scan s 0 = Some (digits_value (selected_base s) (digits_part s), b, n, [])"
proof (cases "s = ''0''")
  case True
  then show ?thesis
    by (simp add: nat_scan_def scan_prefix_def selected_base_def
        digits_part_def has_base_prefix_def digits_value_def digitval_letters)
next
  case False
  from scan_prefix_selected [OF False] obtain prefix prev0 where
    "scan_prefix 0 s = (selected_base s, prefix, prev0, 0, digits_part s)" by blast
  from nat_scan_after_prefix [OF this assms] show ?thesis by blast
qed

lemma Int_scan_sign:
  "s \<noteq> [] \<Longrightarrow> Int_scan s 0 =
     (case nat_scan (unsigned_part s) 0 of
        None \<Rightarrow> None
      | Some (z, b, count, rest) \<Rightarrow> Some (sign_of s * int z, b, rest))"
  by (cases s) (auto simp: Int_scan_def unsigned_part_def sign_of_def Let_def split: option.splits)

lemma SetString_selected:
  assumes "digits_of_base (selected_base (unsigned_part s)) (digits_part (unsigned_part s))"
  shows "SetString s 0 =
     Some (sign_of s * int (digits_value (selected_base (unsigned_part s)) (digits_part (unsigned_part s))))"
proof -
  from assms have "unsigned_part s \<noteq> []"
    using digits_part_hd by blast
  then have ne: "s \<noteq> []" by (auto simp: unsigned_part_def)
  from nat_scan_selected [OF assms] obtain b n where
    "nat_scan (unsigned_part s) 0 =
       Some (digits_value (selected_base (unsigned_part s)) (digits_part (unsigned_part s)), b, n, [])"
    by blast
  then show ?thesis
    by (simp add: SetString_def Int_scan_sign [OF ne])
qed

text \<open>Scanning consumes the whole input only when every character after the prefix is
  a separator or a digit of the base.\<close>

lemma scan_digits_rest:
  "scan_digits base b prev isep count z ds = (prev', isep', count', z', []) \<Longrightarrow>
   list_all (\<lambda>ch. ch = CHR ''_'' \<or> digitval b ch < b) ds"
  by (induction ds arbitrary: prev isep count z) (auto split: if_splits)

lemma scan_prefix_zero_look:
  "scan_prefix 0 s = (b, CHR ''0'', prev0, c, look) \<Longrightarrow> look \<noteq> []"
  by (cases s; cases "tl s") (auto simp: scan_prefix_def split: if_splits)

lemma nat_scan_unfold:
  assumes "scan_prefix 0 s = (b, prefix, prev0, count0, look)"
    and "scan_digits 0 b prev0 False count0 0 look = (prev, isep, count, z, rest)"
  shows "nat_scan s 0 =
     (if count = 0 then
        (if prefix = CHR ''0'' then (if isep \<or> prev = CHR ''_'' then None else Some (0, 10, 1, rest))
         else None)
      else if isep \<or> prev = CHR ''_'' then None
      else Some (z, b, count, rest))"
  using assms by (simp add: nat_scan_def)

lemma nat_scan_rest:
  assumes "nat_scan s 0 = Some (z, b, n, [])"
  shows "list_all (\<lambda>ch. ch = CHR ''_'' \<or> digitval (selected_base s) ch < selected_base s)
           (digits_part s)"
proof (cases "s = ''0''")
  case True
  then show ?thesis
    by (simp add: selected_base_def digits_part_def has_base_prefix_def digitval_letters)
next
  case False
  from scan_prefix_selected [OF False] obtain prefix prev0 where
    sp: "scan_prefix 0 s = (selected_base s, prefix, prev0, 0, digits_part s)" by blast
  obtain prev' isep' count' z' rest where
    sd: "scan_digits 0 (selected_base s) prev0 False 0 0 (digits_part s) =
           (prev', isep', count', z', rest)"
    using prod_cases5 by blast
  from assms have "rest = []"
    unfolding nat_scan_unfold [OF sp sd] by (simp split: if_splits)
  with sd scan_digits_rest show ?thesis by blast
qed

lemma nat_scan_no_digits:
  assumes "digits_part s = []"
  shows "nat_scan s 0 = None"
proof -
  have "s \<noteq> ''0''" using assms by (auto simp: digits_part_def has_base_prefix_def)
  from scan_prefix_selected [OF this] obtain prefix prev0 where
    sp: "scan_prefix 0 s = (selected_base s, prefix, prev0, 0, digits_part s)" by blast
  have "prefix \<noteq> CHR ''0''"
    using scan_prefix_zero_look sp assms by blast
  with assms show ?thesis
    by (simp add: nat_scan_unfold [OF sp, of "prev0" False 0 0 "[]", simplified assms, simplified])
qed

lemma digits_part_subset: "set (digits_part s) \<subseteq> set s"
  using set_drop_subset [of 2 s] set_drop_subset [of 1 s]
  by (simp add: digits_part_def)

lemma unsigned_part_subset: "set (unsigned_part s) \<subseteq> set s"
  using set_drop_subset [of 1 s]
  by (simp add: unsigned_part_def)

lemma SetString_unfold:
  "s \<noteq> [] \<Longrightarrow> SetString s 0 =
     (case nat_scan (unsigned_part s) 0 of
        None \<Rightarrow> None
      | Some (z, b, count, rest) \<Rightarrow> if rest = [] then Some (sign_of s * int z) else None)"
  by (simp add: SetString_def Int_scan_sign split: option.splits)

lemma list_all_exclude:
  "x \<notin> set xs \<Longrightarrow> list_all (\<lambda>ch. ch = x \<or> P ch) xs \<Longrightarrow> list_all (\<lambda>ch. ch \<noteq> x \<and> P ch) xs"
  by (induction xs) auto

lemma notin_subset: "x \<notin> B \<Longrightarrow> A \<subseteq> B \<Longrightarrow> x \<notin> A"
  by blast

lemma nat_scan_consumed:
  assumes "CHR ''_'' \<notin> set s" and "nat_scan s 0 = Some (z, b, n, [])"
  shows "digits_of_base (selected_base s) (digits_part s)"
proof -
  have sub: "CHR ''_'' \<notin> set (digits_part s)"
    by (rule notin_subset [OF assms(1) digits_part_subset])
  have "list_all (\<lambda>ch. ch \<noteq> CHR ''_'' \<and> digitval (selected_base s) ch < selected_base s)
          (digits_part s)"
    by (rule list_all_exclude [OF sub nat_scan_rest [OF assms(2)]])
  moreover have "digits_part s \<noteq> []"
  proof
    assume "digits_part s = []"
    from nat_scan_no_digits [OF this] assms(2) show False by simp
  qed
  ultimately show ?thesis by (simp add: digits_of_base_def)
qed

lemma SetString_rejects:
  assumes "CHR ''_'' \<notin> set s"
    and "\<not> digits_of_base (selected_base (unsigned_part s)) (digits_part (unsigned_part s))"
  shows "SetString s 0 = None"
proof (cases "s = []")
  case True
  then show ?thesis by (simp add: SetString_def Int_scan_def)
next
  case False
  let ?u = "unsigned_part s"
  have sub: "CHR ''_'' \<notin> set ?u"
    by (rule notin_subset [OF assms(1) unsigned_part_subset])
  show ?thesis
  proof (cases "nat_scan ?u 0")
    case None
    with False show ?thesis by (simp add: SetString_unfold)
  next
    case (Some r)
    obtain z b n rest where r: "r = (z, b, n, rest)" by (cases r) auto
    have "rest \<noteq> []"
    proof
      assume "rest = []"
      with Some r have ns: "nat_scan ?u 0 = Some (z, b, n, [])" by simp
      from nat_scan_consumed [OF sub ns] assms(2) show False by simp
    qed
    with Some r False show ?thesis by (simp add: SetString_unfold)
  qed
qed

text \<open>
  C2 (as amended). For every JSON string given to the SerialNumber decoder: after an
  optional sign, a prefix 0b/0B selects base 2, 0o/0O base 8, 0x/0X base 16, a leading 0
  followed by further characters selects base 8 as well, and any other string is read in
  base 10. When the characters after the prefix are one or more digits of the selected
  base, decoding yields their value with the sign applied; a string without
  underscores whose characters after the prefix are not of that form fails with the
  error "serialNumber ... is not valid".
\<close>

theorem SerialNumber_string_base:
  "(digits_of_base (selected_base (unsigned_part s)) (digits_part (unsigned_part s)) \<longrightarrow>
      SerialNumber_UnmarshalJSON (JString s) =
        Inr \<lparr>big_Int = Some (sign_of s *
          int (digits_value (selected_base (unsigned_part s)) (digits_part (unsigned_part s))))\<rparr>)
   \<and> (CHR ''_'' \<notin> set s
        \<and> \<not> digits_of_base (selected_base (unsigned_part s)) (digits_part (unsigned_part s)) \<longrightarrow>
      SerialNumber_UnmarshalJSON (JString s) = Inl (Error (not_valid_message s)))"
proof (intro conjI impI)
  assume "digits_of_base (selected_base (unsigned_part s)) (digits_part (unsigned_part s))"
  from SetString_selected [OF this]
  show "SerialNumber_UnmarshalJSON (JString s) =
        Inr \<lparr>big_Int = Some (sign_of s *
          int (digits_value (selected_base (unsigned_part s)) (digits_part (unsigned_part s))))\<rparr>"
    by (simp add: SerialNumber_UnmarshalJSON_def maybeString_def)
next
  assume "CHR ''_'' \<notin> set s
        \<and> \<not> digits_of_base (selected_base (unsigned_part s)) (digits_part (unsigned_part s))"
  then have "SetString s 0 = None" by (simp add: SetString_rejects)
  then show "SerialNumber_UnmarshalJSON (JString s) = Inl (Error (not_valid_message s))"
    by (simp add: SerialNumber_UnmarshalJSON_def maybeString_def not_valid_message_def)
qed

lemma spec_examples_digits:
  "digits_of_base (selected_base (unsigned_part ''0x10'')) (digits_part (unsigned_part ''0x10''))"
  "digits_of_base (selected_base (unsigned_part ''0b101'')) (digits_part (unsigned_part ''0b101''))"
  "digits_of_base (selected_base (unsigned_part ''0o17'')) (digits_part (unsigned_part ''0o17''))"
  "digits_of_base (selected_base (unsigned_part ''10'')) (digits_part (unsigned_part ''10''))"
  "digits_of_base (selected_base (unsigned_part ''017'')) (digits_part (unsigned_part ''017''))"
  "\<not> digits_of_base (selected_base (unsigned_part ''12a'')) (digits_part (unsigned_part ''12a''))"
  by (simp_all add: digits_of_base_def selected_base_def unsigned_part_def digits_part_def
      has_base_prefix_def digitval_def)

theorem SerialNumber_string_base_witness:
  "SerialNumber_UnmarshalJSON (JString ''0x10'') = Inr \<lparr>big_Int = Some 16\<rparr>
   \<and> SerialNumber_UnmarshalJSON (JString ''0b101'') = Inr \<lparr>big_Int = Some 5\<rparr>
   \<and> SerialNumber_UnmarshalJSON (JString ''0o17'') = Inr \<lparr>big_Int = Some 15\<rparr>
   \<and> SerialNumber_UnmarshalJSON (JString ''10'') = Inr \<lparr>big_Int = Some 10\<rparr>
   \<and> SerialNumber_UnmarshalJSON (JString ''12a'') =
       Inl (Error ''error unmarshaling json: serialNumber 12a is not valid'')"
  using SerialNumber_string_base [of "''0x10''"] SerialNumber_string_base [of "''0b101''"]
    SerialNumber_string_base [of "''0o17''"] SerialNumber_string_base [of "''10''"]
    SerialNumber_string_base [of "''12a''"] spec_examples_digits
  by (simp add: selected_base_def unsigned_part_def digits_part_def has_base_prefix_def
      digits_value_def digitval_def sign_of_def not_valid_message_def)

text \<open>
  The claim as worded reads every string without a 0b/0o/0x prefix in base 10. The
  string 017 has no such prefix and its base-10 value is 17, but the decoder returns 15.
\<close>

theorem SerialNumber_leading_zero_counterexample:
  "\<not> has_base_prefix ''017'' \<and> claimed_base ''017'' = 10 \<and> digits_value 10 ''017'' = 17
   \<and> SerialNumber_UnmarshalJSON (JString ''017'') = Inr \<lparr>big_Int = Some 15\<rparr>"
  by (simp add: has_base_prefix_def claimed_base_def digits_value_def digitval_def
      SerialNumber_UnmarshalJSON_def maybeString_def SetString_def Int_scan_def nat_scan_def
      scan_prefix_def)

section \<open>Sign of a decoded SerialNumber\<close>

lemma SetString_sign:
  assumes "SetString s 0 = Some v"
  shows "(take 1 s \<noteq> ''-'' \<longrightarrow> 0 \<le> v) \<and> (take 1 s = ''-'' \<longrightarrow> v \<le> 0)"
proof (cases s)
  case Nil
  with assms show ?thesis by (simp add: SetString_def Int_scan_def)
next
  case (Cons ch r)
  with assms show ?thesis
    by (auto simp: SetString_def Int_scan_def Let_def split: option.splits if_splits)
qed

lemma ParseInt10_64_sign:
  assumes "ParseInt10_64 s = Some v"
  shows "(take 1 s \<noteq> ''-'' \<longrightarrow> 0 \<le> v) \<and> (take 1 s = ''-'' \<longrightarrow> v \<le> 0)"
proof (cases s)
  case Nil
  with assms show ?thesis by (simp add: ParseInt10_64_def)
next
  case (Cons ch r)
  with assms show ?thesis
    by (auto simp: ParseInt10_64_def Let_def split: if_splits)
qed

text \<open>
  C9 (as amended). Whenever the SerialNumber decoder accepts a JSON input, the serial
  number is set, it is non-negative if the text of the string or number does not start
  with a minus sign, and it is zero or negative if it does. (No check of the sign is
  made: the number -1 and the string "-1" both decode to -1.)
\<close>

theorem SerialNumber_sign:
  assumes "SerialNumber_UnmarshalJSON data = Inr sn"
  shows "\<exists>v. big_Int sn = Some v \<and> (\<not> minus_signed data \<longrightarrow> 0 \<le> v) \<and> (minus_signed data \<longrightarrow> v \<le> 0)"
proof (cases data)
  case (JString s)
  with assms obtain v where "SetString s 0 = Some v" and "sn = \<lparr>big_Int = Some v\<rparr>"
    by (auto simp: SerialNumber_UnmarshalJSON_def maybeString_def split: option.splits)
  with SetString_sign [of s v] JString show ?thesis
    by (simp add: minus_signed_def)
next
  case (JNumber lit)
  with assms obtain v where "ParseInt10_64 lit = Some v" and "sn = \<lparr>big_Int = Some v\<rparr>"
    by (auto simp: SerialNumber_UnmarshalJSON_def maybeString_def json_Unmarshal_int64_def
        split: option.splits)
  with ParseInt10_64_sign [of lit v] JNumber show ?thesis
    by (simp add: minus_signed_def)
next
  case JNull
  with assms show ?thesis
    by (auto simp: SerialNumber_UnmarshalJSON_def maybeString_def json_Unmarshal_int64_def
        minus_signed_def)
next
  case (JBool b)
  with assms show ?thesis
    by (simp add: SerialNumber_UnmarshalJSON_def maybeString_def json_Unmarshal_int64_def)
next
  case (JArray xs)
  with assms show ?thesis
    by (simp add: SerialNumber_UnmarshalJSON_def maybeString_def json_Unmarshal_int64_def)
next
  case (JObject kvs)
  with assms show ?thesis
    by (simp add: SerialNumber_UnmarshalJSON_def maybeString_def json_Unmarshal_int64_def)
qed

lemma decode_ten:
  "SerialNumber_UnmarshalJSON (JNumber ''10'') = Inr \<lparr>big_Int = Some 10\<rparr>"
  by (simp add: SerialNumber_UnmarshalJSON_def maybeString_def json_Unmarshal_int64_def
      ParseInt10_64_def isDigit_def decimal_value_def)

theorem SerialNumber_sign_witness:
  "SerialNumber_UnmarshalJSON (JNumber ''10'') = Inr \<lparr>big_Int = Some 10\<rparr>
   \<and> (\<exists>v. big_Int \<lparr>big_Int = Some 10\<rparr> = Some v \<and> 0 \<le> v)"
  using SerialNumber_sign [OF decode_ten] decode_ten
  by (simp add: minus_signed_def)

theorem SerialNumber_negative_counterexample:
  "SerialNumber_UnmarshalJSON (JNumber ''-1'') = Inr \<lparr>big_Int = Some (- 1)\<rparr>
   \<and> SerialNumber_UnmarshalJSON (JString ''-1'') = Inr \<lparr>big_Int = Some (- 1)\<rparr>"
  by (simp add: SerialNumber_UnmarshalJSON_def maybeString_def json_Unmarshal_int64_def
      ParseInt10_64_def isDigit_def decimal_value_def SetString_def Int_scan_def nat_scan_def
      scan_prefix_def digitval_def)

section \<open>Properties of ObjectIdentifier parsing and formatting\<close>

lemma of_char_digit_char: "d < 10 \<Longrightarrow> (of_char (digit_char d) :: nat) = 48 + d"
  by (simp add: digit_char_def)

lemma isDigit_digit_char: "d < 10 \<Longrightarrow> isDigit (digit_char d)"
  by (simp add: isDigit_def of_char_digit_char)

lemma digit_char_of_char: "isDigit ch \<Longrightarrow> digit_char ((of_char ch :: nat) - 48) = ch"
  by (simp add: isDigit_def digit_char_def)

lemma isDigit_not_sep: "isDigit ch \<Longrightarrow> ch \<noteq> CHR ''.''"
  by (auto simp: isDigit_def)

lemma decimal_value_snoc:
  "decimal_value (ds @ [ch]) = decimal_value ds * 10 + ((of_char ch :: nat) - 48)"
  by (simp add: decimal_value_def)

lemma itoa_digits: "list_all isDigit (itoa n) \<and> itoa n \<noteq> []"
proof (induction n rule: itoa.induct)
  case (1 n)
  show ?case
  proof (cases "n < 10")
    case True
    then show ?thesis by (simp add: itoa.simps [of n] isDigit_digit_char)
  next
    case False
    with 1 show ?thesis by (simp add: itoa.simps [of n] isDigit_digit_char)
  qed
qed

lemma decimal_value_itoa: "decimal_value (itoa n) = n"
proof (induction n rule: itoa.induct)
  case (1 n)
  show ?case
  proof (cases "n < 10")
    case True
    then show ?thesis
      by (simp add: itoa.simps [of n] decimal_value_def of_char_digit_char)
  next
    case False
    with 1 show ?thesis
      by (simp add: itoa.simps [of n] decimal_value_snoc of_char_digit_char)
  qed
qed

lemma parse_component_FormatInt:
  "0 \<le> n \<Longrightarrow> n < 2 ^ 63 \<Longrightarrow> parse_component (FormatInt n) = Some n"
  by (simp add: parse_component_def FormatInt_def itoa_digits decimal_value_itoa)

lemma FormatInt_no_sep: "0 \<le> n \<Longrightarrow> CHR ''.'' \<notin> set (FormatInt n)"
  using itoa_digits [of "nat n"] isDigit_not_sep
  by (auto simp: FormatInt_def list_all_iff)

lemma Split_not_Nil: "Split s sep \<noteq> []"
  by (induction s) auto

lemma Split_no_sep: "sep \<notin> set s \<Longrightarrow> Split s sep = [s]"
  by (induction s) auto

lemma Split_append_sep:
  "sep \<notin> set p \<Longrightarrow> Split (p @ sep # r) sep = p # Split r sep"
  by (induction p) auto

lemma Split_Join:
  "ps \<noteq> [] \<Longrightarrow> list_all (\<lambda>p. sep \<notin> set p) ps \<Longrightarrow> Split (Join ps sep) sep = ps"
proof (induction ps sep rule: Join.induct)
  case (1 sep)
  then show ?case by simp
next
  case (2 p sep)
  then show ?case by (simp add: Split_no_sep)
next
  case (3 p q ps sep)
  then show ?case by (simp add: Split_append_sep)
qed

lemma Join_Split: "Join (Split s sep) sep = s"
proof (induction s)
  case Nil
  show ?case by simp
next
  case (Cons ch r)
  obtain p ps where sp: "Split r sep = p # ps"
    using Split_not_Nil [of r sep] by (cases "Split r sep") auto
  show ?case
  proof (cases "ch = sep")
    case True
    with Cons sp show ?thesis by simp
  next
    case False
    with Cons sp show ?thesis by (cases ps) auto
  qed
qed

lemma parse_components_map:
  "list_all (\<lambda>n. 0 \<le> n \<and> n < 2 ^ 63) oid \<Longrightarrow> parse_components (map FormatInt oid) = Some oid"
  by (induction oid) (simp_all add: parse_component_FormatInt)

lemma parse_format:
  assumes "valid_oid oid"
  shows "parseObjectIdentifier (ObjectIdentifier_String oid) = Inr oid"
proof -
  from assms have ne: "oid \<noteq> []" and rng: "list_all (\<lambda>n. 0 \<le> n \<and> n < 2 ^ 63) oid"
    by (simp_all add: valid_oid_def)
  have "list_all (\<lambda>p. CHR ''.'' \<notin> set p) (map FormatInt oid)"
    using rng by (induction oid) (simp_all add: FormatInt_no_sep)
  with ne have "Split (ObjectIdentifier_String oid) CHR ''.'' = map FormatInt oid"
    by (simp add: ObjectIdentifier_String_def Split_Join)
  with ne rng show ?thesis
    by (simp add: parseObjectIdentifier_def parse_components_map)
qed

lemma digit_zero: "isDigit ch \<Longrightarrow> (of_char ch :: nat) - 48 = 0 \<Longrightarrow> ch = CHR ''0''"
proof -
  assume d: "isDigit ch" and z: "(of_char ch :: nat) - 48 = 0"
  then have "(of_char ch :: nat) = of_char CHR ''0''" by (simp add: isDigit_def)
  then show ?thesis by (simp only: of_char_eq_iff)
qed

lemma decimal_value_pos:
  "q \<noteq> [] \<Longrightarrow> list_all isDigit q \<Longrightarrow> take 1 q \<noteq> ''0'' \<Longrightarrow> 0 < decimal_value q"
proof (induction q rule: rev_induct)
  case Nil
  then show ?case by simp
next
  case (snoc ch r)
  show ?case
  proof (cases "r = []")
    case True
    with snoc.prems have "isDigit ch" and "ch \<noteq> CHR ''0''" by simp_all
    with digit_zero [of ch] have "(of_char ch :: nat) - 48 \<noteq> 0" by blast
    with True show ?thesis by (simp add: decimal_value_def)
  next
    case False
    with snoc.prems have "list_all isDigit r" and "take 1 r \<noteq> ''0''"
      by (cases r; simp)+
    with snoc.IH False have "0 < decimal_value r" by simp
    then show ?thesis by (simp add: decimal_value_snoc)
  qed
qed

lemma digit_lt_10: "isDigit ch \<Longrightarrow> (of_char ch :: nat) - 48 < 10"
  by (auto simp: isDigit_def)

lemma itoa_decimal_value:
  "p \<noteq> [] \<Longrightarrow> list_all isDigit p \<Longrightarrow> canonical_component p \<Longrightarrow> itoa (decimal_value p) = p"
proof (induction p rule: rev_induct)
  case Nil
  then show ?case by simp
next
  case (snoc ch r)
  from snoc.prems have dch: "isDigit ch" by simp
  show ?case
  proof (cases "r = []")
    case True
    with dch show ?thesis
      by (simp add: decimal_value_def itoa.simps [of "of_char ch - 48"] digit_lt_10
          digit_char_of_char)
  next
    case False
    with snoc.prems have dr: "list_all isDigit r" and cr: "take 1 r \<noteq> ''0''"
      by (cases r; simp add: canonical_component_def)+
    then have "canonical_component r" by (simp add: canonical_component_def)
    with snoc.IH False dr have ih: "itoa (decimal_value r) = r" by simp
    from decimal_value_pos [OF False dr cr] have pos: "0 < decimal_value r" .
    let ?d = "(of_char ch :: nat) - 48"
    have d10: "?d < 10" using dch by (rule digit_lt_10)
    from pos have big: "\<not> decimal_value r * 10 + ?d < 10" by simp
    have dv: "(decimal_value r * 10 + ?d) div 10 = decimal_value r"
      using d10 by simp
    have md: "(decimal_value r * 10 + ?d) mod 10 = ?d"
      using d10 by simp
    show ?thesis
      unfolding decimal_value_snoc
      by (subst itoa.simps) (simp only: big dv md ih if_False digit_char_of_char [OF dch])
  qed
qed

lemma FormatInt_parse_component:
  assumes "parse_component p = Some n" and "canonical_component p"
  shows "FormatInt n = p"
proof -
  from assms(1) have p: "p \<noteq> []" "list_all isDigit p" and n: "n = int (decimal_value p)"
    by (auto simp: parse_component_def split: if_splits)
  from itoa_decimal_value [OF p assms(2)] n show ?thesis
    by (simp add: FormatInt_def)
qed

lemma map_FormatInt_parse_components:
  "parse_components ps = Some oid \<Longrightarrow> list_all canonical_component ps \<Longrightarrow>
   map FormatInt oid = ps"
proof (induction ps arbitrary: oid)
  case Nil
  then show ?case by simp
next
  case (Cons p ps)
  from Cons.prems(1) obtain n ns where
    pn: "parse_component p = Some n" and pns: "parse_components ps = Some ns" and
    oid: "oid = n # ns"
    by (auto split: option.splits)
  from Cons.prems(2) have cp: "canonical_component p" and cps: "list_all canonical_component ps"
    by simp_all
  from FormatInt_parse_component [OF pn cp] Cons.IH [OF pns cps] oid show ?case by simp
qed

lemma format_parse:
  assumes "parseObjectIdentifier s = Inr oid" and "canonical_oid_text s"
  shows "ObjectIdentifier_String oid = s"
proof -
  from assms(1) have "parse_components (Split s CHR ''.'') = Some oid"
    by (auto simp: parseObjectIdentifier_def split: option.splits if_splits)
  from map_FormatInt_parse_components [OF this] assms(2)
  have "map FormatInt oid = Split s CHR ''.''" by (simp add: canonical_oid_text_def)
  then show ?thesis by (simp add: ObjectIdentifier_String_def Join_Split)
qed

lemma parse_components_valid:
  "parse_components ps = Some oid \<Longrightarrow> list_all (\<lambda>n. 0 \<le> n \<and> n < 2 ^ 63) oid"
proof (induction ps arbitrary: oid)
  case Nil
  then show ?case by simp
next
  case (Cons p ps)
  from Cons.prems obtain n ns where
    pn: "parse_component p = Some n" and pns: "parse_components ps = Some ns" and
    oid: "oid = n # ns"
    by (auto split: option.splits)
  from pn have "0 \<le> n \<and> n < 2 ^ 63"
    by (auto simp: parse_component_def split: if_splits)
  with Cons.IH [OF pns] oid show ?case by simp
qed

lemma parseObjectIdentifier_valid:
  assumes "parseObjectIdentifier s = Inr oid"
  shows "valid_oid oid"
proof -
  from assms have pc: "parse_components (Split s CHR ''.'') = Some oid" and ne: "oid \<noteq> []"
    by (auto simp: parseObjectIdentifier_def split: option.splits if_splits)
  from parse_components_valid [OF pc] ne show ?thesis by (simp add: valid_oid_def)
qed

text \<open>
  C8 (as amended). Parsing and formatting of ObjectIdentifier round-trip: for every
  valid ObjectIdentifier (non-empty, components non-negative), formatting and parsing
  again gives the same value, through \<^verbatim>\<open>MarshalJSON\<close> and \<^verbatim>\<open>UnmarshalJSON\<close> as well;
  and for every dotted string that the parser accepts and whose components carry no
  superfluous leading zero, parsing and formatting again gives the same string.
\<close>

theorem ObjectIdentifier_round_trip:
  "(valid_oid oid \<longrightarrow>
      parseObjectIdentifier (ObjectIdentifier_String oid) = Inr oid
      \<and> ObjectIdentifier_MarshalJSON oid = Inr (JString (ObjectIdentifier_String oid))
      \<and> ObjectIdentifier_UnmarshalJSON (JString (ObjectIdentifier_String oid)) = Inr oid)
   \<and> (parseObjectIdentifier s = Inr oid' \<and> canonical_oid_text s \<longrightarrow>
      valid_oid oid' \<and> ObjectIdentifier_String oid' = s
      \<and> ObjectIdentifier_UnmarshalJSON (JString s) = Inr oid'
      \<and> ObjectIdentifier_MarshalJSON oid' = Inr (JString s))"
proof (intro conjI impI)
  assume v: "valid_oid oid"
  show "parseObjectIdentifier (ObjectIdentifier_String oid) = Inr oid"
    by (rule parse_format [OF v])
  show "ObjectIdentifier_MarshalJSON oid = Inr (JString (ObjectIdentifier_String oid))"
    by (simp add: ObjectIdentifier_MarshalJSON_def)
  show "ObjectIdentifier_UnmarshalJSON (JString (ObjectIdentifier_String oid)) = Inr oid"
    by (simp add: ObjectIdentifier_UnmarshalJSON_def unmarshalString_def parse_format [OF v])
next
  assume a: "parseObjectIdentifier s = Inr oid' \<and> canonical_oid_text s"
  then have p: "parseObjectIdentifier s = Inr oid'" and c: "canonical_oid_text s" by simp_all
  show "valid_oid oid'" by (rule parseObjectIdentifier_valid [OF p])
  show f: "ObjectIdentifier_String oid' = s" by (rule format_parse [OF p c])
  show "ObjectIdentifier_UnmarshalJSON (JString s) = Inr oid'"
    by (simp add: ObjectIdentifier_UnmarshalJSON_def unmarshalString_def p)
  show "ObjectIdentifier_MarshalJSON oid' = Inr (JString s)"
    by (simp add: ObjectIdentifier_MarshalJSON_def f)
qed

lemma parse_san_oid: "parseObjectIdentifier ''2.5.29.17'' = Inr [2, 5, 29, 17]"
  by (simp add: parseObjectIdentifier_def parse_component_def isDigit_def decimal_value_def)

lemma canonical_san_oid: "canonical_oid_text ''2.5.29.17''"
  by (simp add: canonical_oid_text_def canonical_component_def)

theorem ObjectIdentifier_round_trip_witness:
  "valid_oid [2, 5, 29, 17]
   \<and> ObjectIdentifier_UnmarshalJSON (JString (ObjectIdentifier_String [2, 5, 29, 17])) =
       Inr [2, 5, 29, 17]
   \<and> parseObjectIdentifier ''2.5.29.17'' = Inr [2, 5, 29, 17]
   \<and> canonical_oid_text ''2.5.29.17''
   \<and> ObjectIdentifier_String [2, 5, 29, 17] = ''2.5.29.17''"
  using ObjectIdentifier_round_trip [of "[2, 5, 29, 17]" "''2.5.29.17''" "[2, 5, 29, 17]"]
    parse_san_oid canonical_san_oid
  by (simp add: valid_oid_def)

lemma digit_char_eqI: "d < 10 \<Longrightarrow> (of_char ch :: nat) = 48 + d \<Longrightarrow> digit_char d = ch"
proof -
  assume "d < 10" and "(of_char ch :: nat) = 48 + d"
  then have "(of_char (digit_char d) :: nat) = of_char ch" by (simp add: of_char_digit_char)
  then show ?thesis by (simp only: of_char_eq_iff)
qed

lemma digit_chars:
  "digit_char 0 = CHR ''0''" "digit_char 1 = CHR ''1''" "digit_char 2 = CHR ''2''"
  "digit_char 3 = CHR ''3''" "digit_char 4 = CHR ''4''" "digit_char 5 = CHR ''5''"
  "digit_char 6 = CHR ''6''" "digit_char 7 = CHR ''7''" "digit_char 8 = CHR ''8''"
  "digit_char 9 = CHR ''9''" "digit_char (Suc 0) = CHR ''1''"
  by (rule digit_char_eqI; simp)+

text \<open>
  The string 01.2 is made of dot-separated non-negative integers and is accepted by the
  parser, but formatting the parsed value gives 1.2.
\<close>

theorem ObjectIdentifier_leading_zero_counterexample:
  "ObjectIdentifier_UnmarshalJSON (JString ''01.2'') = Inr [1, 2]
   \<and> ObjectIdentifier_MarshalJSON [1, 2] = Inr (JString ''1.2'')
   \<and> ''1.2'' \<noteq> ''01.2''"
  by (simp add: ObjectIdentifier_UnmarshalJSON_def unmarshalString_def parseObjectIdentifier_def
      parse_component_def isDigit_def decimal_value_def ObjectIdentifier_MarshalJSON_def
      ObjectIdentifier_String_def FormatInt_def itoa.simps digit_chars)

section \<open>Properties of the DER encoding\<close>

lemma appendTagAndLength_universal:
  "appendTagAndLength [] 0 TagInteger n False = 0x02 # der_length n"
  "appendTagAndLength [] 0 TagOID n False = 0x06 # der_length n"
  "appendTagAndLength [] 0 TagUTF8String n False = 0x0C # der_length n"
  "appendTagAndLength [] 0 TagNumericString n False = 0x12 # der_length n"
  "appendTagAndLength [] 0 TagPrintableString n False = 0x13 # der_length n"
  "appendTagAndLength [] 0 TagIA5String n False = 0x16 # der_length n"
  "appendTagAndLength [] 0 TagSequence n True = 0x30 # der_length n"
  by (simp_all add: appendTagAndLength_def der_length_def Let_def appendLength_def
      TagInteger_def TagOID_def TagUTF8String_def TagNumericString_def
      TagPrintableString_def TagIA5String_def TagSequence_def)

lemma appendTagAndLength_context:
  "appendTagAndLength [] 2 0 n True = 0xA0 # der_length n"
  "appendTagAndLength [] 2 nameTypeEmail n False = 0x81 # der_length n"
  "appendTagAndLength [] 2 nameTypeDNS n False = 0x82 # der_length n"
  "appendTagAndLength [] 2 nameTypeURI n False = 0x86 # der_length n"
  "appendTagAndLength [] 2 nameTypeIP n False = 0x87 # der_length n"
  "appendTagAndLength [] 2 nameTypeRegisteredID n False = 0x88 # der_length n"
  by (simp_all add: appendTagAndLength_def der_length_def Let_def appendLength_def
      nameTypeEmail_def nameTypeDNS_def nameTypeURI_def nameTypeIP_def nameTypeRegisteredID_def)

lemma asn1_Marshal_int_der: "asn1_Marshal_int i = der_tlv 0x02 (int64Encoder_Encode i)"
  by (simp add: asn1_Marshal_int_def Let_def der_tlv_def appendTagAndLength_universal)

lemma asn1_Marshal_oid_der:
  "makeObjectIdentifier oid = Inr content \<Longrightarrow> asn1_Marshal_oid oid = Inr (der_tlv 0x06 content)"
  by (simp add: asn1_Marshal_oid_def der_tlv_def appendTagAndLength_universal)

lemma length_bytes_of: "length (bytes_of s) = length s"
  by (simp add: bytes_of_def)

lemma asn1_MarshalWithParams_string_der:
  "asn1_MarshalWithParams_string s ''utf8'' = Inr (der_tlv 0x0C (bytes_of s))"
  "asn1_MarshalWithParams_string s ''ia5'' =
     (if list_all isIA5 s then Inr (der_tlv 0x16 (bytes_of s))
      else Inl ''asn1: structure error: IA5String contains invalid character'')"
  "asn1_MarshalWithParams_string s ''numeric'' =
     (if list_all isNumeric s then Inr (der_tlv 0x12 (bytes_of s))
      else Inl ''asn1: structure error: NumericString contains invalid character'')"
  "asn1_MarshalWithParams_string s ''printable'' =
     (if list_all isPrintable s then Inr (der_tlv 0x13 (bytes_of s))
      else Inl ''asn1: structure error: PrintableString contains invalid character'')"
  by (simp_all add: asn1_MarshalWithParams_string_def der_tlv_def appendTagAndLength_universal
      length_bytes_of)

lemma der_tlv_not_Nil: "der_tlv identifier content \<noteq> []"
  by (simp add: der_tlv_def)

lemma asn1_MarshalWithParams_OtherName_der:
  "makeObjectIdentifier oid = Inr content \<Longrightarrow> rawBytes \<noteq> [] \<Longrightarrow>
   asn1_MarshalWithParams_OtherName oid rawBytes = Inr (otherName_der content rawBytes)"
  by (simp add: asn1_MarshalWithParams_OtherName_def asn1_Marshal_oid_der marshal_RawValue_def
      Let_def otherName_der_def der_tlv_def appendTagAndLength_context)

lemma marshal_RawValue_context:
  "marshal_RawValue (RawValue0\<lparr>Tag := nameTypeEmail, Class := 2, Bytes := bs\<rparr>) = der_tlv 0x81 bs"
  "marshal_RawValue (RawValue0\<lparr>Tag := nameTypeDNS, Class := 2, Bytes := bs\<rparr>) = der_tlv 0x82 bs"
  "marshal_RawValue (RawValue0\<lparr>Tag := nameTypeURI, Class := 2, Bytes := bs\<rparr>) = der_tlv 0x86 bs"
  "marshal_RawValue (RawValue0\<lparr>Tag := nameTypeIP, Class := 2, Bytes := bs\<rparr>) = der_tlv 0x87 bs"
  by (simp_all add: marshal_RawValue_def RawValue0_def der_tlv_def appendTagAndLength_context)

lemma marshal_RawValue_FullBytes:
  "bs \<noteq> [] \<Longrightarrow> marshal_RawValue (RawValue0\<lparr>FullBytes := bs\<rparr>) = bs"
  by (simp add: marshal_RawValue_def)

lemma asn1_Marshal_RawValues_der:
  "asn1_Marshal_RawValues rvs = der_tlv 0x30 (concat (map marshal_RawValue rvs))"
  by (simp add: asn1_Marshal_RawValues_def Let_def der_tlv_def appendTagAndLength_universal)

text \<open>The bytes of \<^verbatim>\<open>int64Encoder\<close> denote the integer they were made from.\<close>

lemma int64_len_hi_result:
  "int64_len_hi n i = (n', i') \<Longrightarrow>
   \<exists>k. n' = n + k \<and> i' = i div 256 ^ k \<and> i' \<le> 127 \<and> (0 \<le> i \<longrightarrow> 0 \<le> i') \<and> (i < 0 \<longrightarrow> k = 0)"
proof (induction n i arbitrary: n' i' rule: int64_len_hi.induct)
  case (1 n i)
  show ?case
  proof (cases "i > 127")
    case False
    with "1.prems" have "n' = n" "i' = i" by (simp_all add: int64_len_hi.simps [of n i])
    with False show ?thesis by (intro exI [of _ 0]) simp
  next
    case True
    with "1.prems" have "int64_len_hi (Suc n) (i div 256) = (n', i')"
      by (simp add: int64_len_hi.simps [of n i])
    from "1.IH" [OF True this] obtain k where
      k: "n' = Suc n + k" "i' = i div 256 div 256 ^ k" "i' \<le> 127" "0 \<le> i div 256 \<longrightarrow> 0 \<le> i'"
      by blast
    have "i div 256 div 256 ^ k = i div 256 ^ Suc k"
      by (simp add: zdiv_zmult2_eq)
    with k True show ?thesis by (intro exI [of _ "Suc k"]) simp
  qed
qed

lemma int64_len_lo_result:
  "int64_len_lo n i = (n', i') \<Longrightarrow>
   \<exists>k. n' = n + k \<and> i' = i div 256 ^ k \<and> - 128 \<le> i' \<and> (i \<le> 127 \<longrightarrow> i' \<le> 127) \<and> (0 \<le> i \<longrightarrow> k = 0)"
proof (induction n i arbitrary: n' i' rule: int64_len_lo.induct)
  case (1 n i)
  show ?case
  proof (cases "i < - 128")
    case False
    with "1.prems" have "n' = n" "i' = i" by (simp_all add: int64_len_lo.simps [of n i])
    with False show ?thesis by (intro exI [of _ 0]) simp
  next
    case True
    with "1.prems" have "int64_len_lo (Suc n) (i div 256) = (n', i')"
      by (simp add: int64_len_lo.simps [of n i])
    from "1.IH" [OF True this] obtain k where
      k: "n' = Suc n + k" "i' = i div 256 div 256 ^ k" "- 128 \<le> i'"
         "i div 256 \<le> 127 \<longrightarrow> i' \<le> 127"
      by blast
    have "i div 256 div 256 ^ k = i div 256 ^ Suc k"
      by (simp add: zdiv_zmult2_eq)
    moreover from True have "i div 256 \<le> 127" by simp
    ultimately show ?thesis using k True by (intro exI [of _ "Suc k"]) simp
  qed
qed

lemma int64Encoder_Len_result:
  "\<exists>k. int64Encoder_Len i = Suc k \<and> - 128 \<le> i div 256 ^ k \<and> i div 256 ^ k \<le> 127"
proof -
  obtain n1 i1 where hi: "int64_len_hi 1 i = (n1, i1)" by (cases "int64_len_hi 1 i") auto
  obtain n2 i2 where lo: "int64_len_lo n1 i1 = (n2, i2)" by (cases "int64_len_lo n1 i1") auto
  from int64_len_hi_result [OF hi] obtain k1 where
    k1: "n1 = 1 + k1" "i1 = i div 256 ^ k1" "i1 \<le> 127" "0 \<le> i \<longrightarrow> 0 \<le> i1" "i < 0 \<longrightarrow> k1 = 0"
    by blast
  from int64_len_lo_result [OF lo] obtain k2 where
    k2: "n2 = n1 + k2" "i2 = i1 div 256 ^ k2" "- 128 \<le> i2" "i1 \<le> 127 \<longrightarrow> i2 \<le> 127"
        "0 \<le> i1 \<longrightarrow> k2 = 0"
    by blast
  have "i1 div 256 ^ k2 = i div 256 ^ (k1 + k2)"
    using k1(2) by (simp add: zdiv_zmult2_eq power_add)
  with k1 k2 hi lo show ?thesis
    by (intro exI [of _ "k1 + k2"]) (simp add: int64Encoder_Len_def)
qed

lemma be_unsigned_snoc: "be_unsigned (bs @ [b]) = be_unsigned bs * 256 + uint b"
  by (simp add: be_unsigned_def)

lemma low_bytes_Suc: "low_bytes i (Suc k) = low_bytes (i div 256) k @ [word_of_int i]"
proof -
  have "map (\<lambda>j. (word_of_int (i div 2 ^ ((Suc k - 1 - j) * 8)) :: byte)) [0..<k] =
        map (\<lambda>j. word_of_int (i div 256 div 2 ^ ((k - 1 - j) * 8))) [0..<k]"
  proof (rule map_cong [OF refl])
    fix j assume "j \<in> set [0..<k]"
    then have "j < k" by simp
    then have "(Suc k - 1 - j) * 8 = 8 + (k - 1 - j) * 8" by simp
    then have "(2::int) ^ ((Suc k - 1 - j) * 8) = 256 * 2 ^ ((k - 1 - j) * 8)"
      by (simp add: power_add)
    then show "(word_of_int (i div 2 ^ ((Suc k - 1 - j) * 8)) :: byte) =
        word_of_int (i div 256 div 2 ^ ((k - 1 - j) * 8))"
      by (simp add: zdiv_zmult2_eq)
  qed
  then show ?thesis by (simp add: low_bytes_def)
qed

lemma be_unsigned_low_bytes: "be_unsigned (low_bytes i k) = i mod 256 ^ k"
proof (induction k arbitrary: i)
  case 0
  show ?case by (simp add: low_bytes_def be_unsigned_def)
next
  case (Suc k)
  have "uint (word_of_int i :: byte) = i mod 256"
    by (simp add: uint_word_of_int_eq take_bit_eq_mod)
  then have "be_unsigned (low_bytes i (Suc k)) = (i div 256 mod 256 ^ k) * 256 + i mod 256"
    by (simp add: low_bytes_Suc be_unsigned_snoc Suc.IH)
  also have "\<dots> = i mod 256 ^ Suc k"
    using zmod_zmult2_eq [of "256 ^ k" i 256] by simp
  finally show ?case .
qed

lemma length_low_bytes: "length (low_bytes i k) = k"
  by (simp add: low_bytes_def)

lemma int64Encoder_Encode_split:
  "int64Encoder_Len i = Suc k \<Longrightarrow>
   int64Encoder_Encode i = word_of_int (i div 256 ^ k) # low_bytes i k"
proof -
  assume n: "int64Encoder_Len i = Suc k"
  have "map (\<lambda>j. (word_of_int (i div 2 ^ ((Suc k - 1 - j) * 8)) :: byte)) [0..<Suc k] =
        word_of_int (i div 2 ^ (k * 8)) #
          map (\<lambda>j. word_of_int (i div 2 ^ ((Suc k - 1 - Suc j) * 8))) [0..<k]"
    by (simp add: upt_conv_Cons map_Suc_upt [symmetric] del: upt_Suc)
  moreover have "(2::int) ^ (k * 8) = 256 ^ k"
    using power_mult [of "2::int" 8 k] by (simp add: mult.commute)
  ultimately show ?thesis
    using n by (simp add: int64Encoder_Encode_def Let_def low_bytes_def)
qed

lemma twos_complement_int64Encoder: "twos_complement (int64Encoder_Encode i) = i"
proof -
  from int64Encoder_Len_result [of i] obtain k where
    k: "int64Encoder_Len i = Suc k" "- 128 \<le> i div 256 ^ k" "i div 256 ^ k \<le> 127"
    by blast
  have "sint (word_of_int (i div 256 ^ k) :: byte) = i div 256 ^ k"
    using k(2,3) by (simp add: sint_sbintrunc' signed_take_bit_int_eq_self)
  then have "twos_complement (int64Encoder_Encode i) = i div 256 ^ k * 256 ^ k + i mod 256 ^ k"
    by (simp add: int64Encoder_Encode_split [OF k(1)] twos_complement_def length_low_bytes
        be_unsigned_low_bytes)
  also have "\<dots> = i" by (rule div_mult_mod_eq)
  finally show ?thesis .
qed

section \<open>Properties of the SAN extension encoder\<close>

lemma Split_hd:
  "Split s sep = p # ps \<Longrightarrow> p \<noteq> [] \<Longrightarrow> s \<noteq> [] \<and> hd s = hd p"
  by (cases s) (auto split: if_splits)

lemma parse_components_hd:
  "parse_components (p # ps) = Some oid \<Longrightarrow> p \<noteq> [] \<and> isDigit (hd p)"
  by (cases p) (auto simp: parse_component_def split: option.splits if_splits)

lemma parseObjectIdentifier_hd:
  assumes "parseObjectIdentifier t = Inr oid"
  shows "t \<noteq> [] \<and> isDigit (hd t)"
proof -
  obtain p ps where sp: "Split t CHR ''.'' = p # ps"
    using Split_not_Nil [of t "CHR ''.''"] by (cases "Split t CHR ''.''") auto
  from assms sp have "parse_components (p # ps) = Some oid"
    by (auto simp: parseObjectIdentifier_def split: option.splits if_splits)
  from parse_components_hd [OF this] Split_hd [OF sp] show ?thesis by simp
qed

lemma oid_type_not_tag:
  assumes "parseObjectIdentifier t = Inr oid"
  shows "t \<noteq> [] \<and> t \<noteq> EmailType \<and> t \<noteq> DNSType \<and> t \<noteq> X400AddressType \<and> t \<noteq> DirectoryNameType
    \<and> t \<noteq> EDIPartyNameType \<and> t \<noteq> URIType \<and> t \<noteq> IPType \<and> t \<noteq> RegisteredIDType"
proof -
  from parseObjectIdentifier_hd [OF assms] have "t \<noteq> []" and "isDigit (hd t)" by simp_all
  then show ?thesis
    by (auto simp: isDigit_def EmailType_def DNSType_def X400AddressType_def
        DirectoryNameType_def EDIPartyNameType_def URIType_def IPType_def RegisteredIDType_def)
qed

lemma otherName_rawBytes_not_Nil:
  "otherName_rawBytes t v = Inr rawBytes \<Longrightarrow> rawBytes \<noteq> []"
  by (auto simp: otherName_rawBytes_def Let_def asn1_Marshal_int_der der_tlv_not_Nil
      asn1_Marshal_oid_def asn1_MarshalWithParams_string_def appendTagAndLength_universal
      split: if_splits option.splits sum.splits prod.splits)

lemma san_step_otherName:
  assumes "parseObjectIdentifier t = Inr oid" and "makeObjectIdentifier oid = Inr content"
  shows "san_step lib rvs \<lparr>san_Type = t, san_Value = v\<rparr> =
     (case otherName_rawBytes t v of
        Inl e \<Rightarrow> Inl e
      | Inr rawBytes \<Rightarrow> Inr (rvs @ [RawValue0\<lparr>FullBytes := otherName_der content rawBytes\<rparr>]))"
proof (cases "otherName_rawBytes t v")
  case (Inl e)
  with assms(1) oid_type_not_tag [OF assms(1)] show ?thesis
    by (simp add: san_step_def)
next
  case (Inr rawBytes)
  from otherName_rawBytes_not_Nil [OF Inr] have "rawBytes \<noteq> []" .
  from asn1_MarshalWithParams_OtherName_der [OF assms(2) this] Inr assms(1)
    oid_type_not_tag [OF assms(1)]
  show ?thesis
    by (simp add: san_step_def)
qed

lemma prefixed_value:
  assumes "CHR '';'' \<notin> set k"
  shows "Contains (k @ CHR '';'' # p) CHR '';''"
    and "hd (Split (k @ CHR '';'' # p) CHR '';'') = k"
    and "drop (length k + 1) (k @ CHR '';'' # p) = p"
  using assms by (simp_all add: Contains_def Split_append_sep)

lemma kinds_no_semicolon:
  "CHR '';'' \<notin> set ''int''" "CHR '';'' \<notin> set ''oid''" "CHR '';'' \<notin> set ''utf8''"
  "CHR '';'' \<notin> set ''ia5''" "CHR '';'' \<notin> set ''numeric''" "CHR '';'' \<notin> set ''printable''"
  by simp_all

lemma otherName_rawBytes_int:
  "otherName_rawBytes t (''int;'' @ p) =
     (case Atoi p of
        None \<Rightarrow> Inl (Error (''invalid int value for int-typed SAN OtherName '' @ t))
      | Some i \<Rightarrow> Inr (der_tlv 0x02 (int64Encoder_Encode i)))"
  using prefixed_value [OF kinds_no_semicolon(1), of p]
  by (simp add: otherName_rawBytes_def Let_def asn1_Marshal_int_der split: option.splits)

lemma otherName_rawBytes_oid:
  "otherName_rawBytes t (''oid;'' @ p) =
     (case parseObjectIdentifier p of
        Inl err \<Rightarrow> Inl (Error (''invalid OID value for OID-typed SAN OtherName '' @ t))
      | Inr oidVal \<Rightarrow>
          (case makeObjectIdentifier oidVal of
             Inl err \<Rightarrow> Inl (Error (''could not marshal ASN1 values: '' @ err))
           | Inr content \<Rightarrow> Inr (der_tlv 0x06 content)))"
  using prefixed_value [OF kinds_no_semicolon(2), of p]
  by (simp add: otherName_rawBytes_def Let_def asn1_Marshal_oid_def der_tlv_def
      appendTagAndLength_universal split: sum.splits)

lemma otherName_rawBytes_utf8:
  "otherName_rawBytes t (''utf8;'' @ p) = Inr (der_tlv 0x0C (bytes_of p))"
  using prefixed_value [OF kinds_no_semicolon(3), of p]
  by (simp add: otherName_rawBytes_def Let_def asn1_MarshalWithParams_string_der)

lemma otherName_rawBytes_ia5:
  "otherName_rawBytes t (''ia5;'' @ p) =
     (if list_all isIA5 p then Inr (der_tlv 0x16 (bytes_of p))
      else Inl (Error ''could not marshal ASN1 values: asn1: structure error: IA5String contains invalid character''))"
  using prefixed_value [OF kinds_no_semicolon(4), of p]
  by (simp add: otherName_rawBytes_def Let_def asn1_MarshalWithParams_string_der)

lemma otherName_rawBytes_numeric:
  "otherName_rawBytes t (''numeric;'' @ p) =
     (if list_all isNumeric p then Inr (der_tlv 0x12 (bytes_of p))
      else Inl (Error ''could not marshal ASN1 values: asn1: structure error: NumericString contains invalid character''))"
  using prefixed_value [OF kinds_no_semicolon(5), of p]
  by (simp add: otherName_rawBytes_def Let_def asn1_MarshalWithParams_string_der)

lemma otherName_rawBytes_printable:
  "otherName_rawBytes t (''printable;'' @ p) =
     (if list_all isPrintable p then Inr (der_tlv 0x13 (bytes_of p))
      else Inl (Error ''could not marshal ASN1 values: asn1: structure error: PrintableString contains invalid character''))"
  using prefixed_value [OF kinds_no_semicolon(6), of p]
  by (simp add: otherName_rawBytes_def Let_def asn1_MarshalWithParams_string_der)

lemma otherName_rawBytes_plain:
  "CHR '';'' \<notin> set v \<Longrightarrow>
   otherName_rawBytes t v =
     (if list_all isPrintable v then Inr (der_tlv 0x13 (bytes_of v))
      else Inl (Error ''could not marshal ASN1 values: asn1: structure error: PrintableString contains invalid character''))"
  by (simp add: otherName_rawBytes_def Let_def Contains_def asn1_MarshalWithParams_string_der)

lemma parse_1234: "parseObjectIdentifier ''1.2.3.4'' = Inr [1, 2, 3, 4]"
  by (simp add: parseObjectIdentifier_def parse_component_def isDigit_def decimal_value_def)

lemma base128_small: "0 < n \<Longrightarrow> n < 128 \<Longrightarrow> appendBase128Int dst n = dst @ [word_of_int n]"
proof -
  assume a: "0 < n" "n < 128"
  then have g: "base128_groups n = Suc 0"
    by (simp add: base128_groups.simps [of n] base128_groups.simps [of 0])
  have "(word_of_int n :: byte) AND 0x7f = word_of_int n"
  proof -
    have "take_bit 7 n = n" using a by (simp add: take_bit_int_eq_self)
    then have "(word_of_int (take_bit 7 n) :: byte) = word_of_int n" by simp
    moreover have "(word_of_int (take_bit 7 n) :: byte) = take_bit 7 (word_of_int n)"
      by (simp add: take_bit_of_int)
    moreover have "take_bit 7 (word_of_int n :: byte) = word_of_int n AND mask 7"
      by (simp add: take_bit_eq_mask)
    ultimately show ?thesis by (simp add: mask_eq_exp_minus_1)
  qed
  with a g show ?thesis
    by (simp add: appendBase128Int_def base128IntLength_def Let_def)
qed

lemma make_1234: "makeObjectIdentifier [1, 2, 3, 4] = Inr [0x2A, 3, 4]"
  by (simp add: makeObjectIdentifier_def wrap64_def base128_small)

lemma Atoi_42: "Atoi ''42'' = Some 42"
  by (simp add: Atoi_def ParseInt10_64_def isDigit_def decimal_value_def)

lemma int64_42: "int64Encoder_Encode 42 = [0x2A]"
  by (simp add: int64Encoder_Encode_def int64Encoder_Len_def int64_len_hi.simps [of _ 42]
      int64_len_lo.simps [of _ 42] Let_def)

lemma der_length_small: "n < 128 \<Longrightarrow> der_length n = [of_nat n]"
  by (simp add: der_length_def)

text \<open>A value with any other prefix is handed whole to the PrintableString encoder; it
  contains a semicolon, which is not a PrintableString character.\<close>

lemma semicolon_not_printable: "\<not> isPrintable CHR '';''"
  by (simp add: isPrintable_def)

lemma not_printable_with_semicolon: "CHR '';'' \<in> set v \<Longrightarrow> \<not> list_all isPrintable v"
  using semicolon_not_printable by (induction v) auto

lemma otherName_rawBytes_other_prefix:
  assumes "CHR '';'' \<in> set v"
    and "hd (Split v CHR '';'') \<notin> set [''int'', ''oid'', ''utf8'', ''ia5'', ''numeric'', ''printable'']"
  shows "otherName_rawBytes t v =
     Inl (Error ''could not marshal ASN1 values: asn1: structure error: PrintableString contains invalid character'')"
  using assms not_printable_with_semicolon [OF assms(1)]
  by (simp add: otherName_rawBytes_def Let_def Contains_def asn1_MarshalWithParams_string_der)

subsection \<open>The place of an entry in the extension\<close>

lemma san_loop_append:
  "san_loop lib rvs (xs @ ys) =
     (case san_loop lib rvs xs of Inl e \<Rightarrow> Inl e | Inr rvs' \<Rightarrow> san_loop lib rvs' ys)"
  by (induction xs arbitrary: rvs) (auto split: sum.splits)

lemma append_SANs_map:
  "append_SANs T f xs allSANs = allSANs @ map (\<lambda>x. \<lparr>san_Type = T, san_Value = f x\<rparr>) xs"
  unfolding append_SANs_def
  by (induction xs arbitrary: allSANs) simp_all

lemma all_SANs_closed_form:
  "all_SANs lib c =
     SANs c
     @ map (\<lambda>x. \<lparr>san_Type = DNSType, san_Value = x\<rparr>) (DNSNames c)
     @ map (\<lambda>x. \<lparr>san_Type = EmailType, san_Value = x\<rparr>) (EmailAddresses c)
     @ map (\<lambda>x. \<lparr>san_Type = URIType, san_Value = url_URL_String lib x\<rparr>) (URIs c)
     @ map (\<lambda>x. \<lparr>san_Type = IPType, san_Value = net_IP_String lib x\<rparr>) (IPAddresses c)"
  by (simp add: all_SANs_def append_SANs_map)

lemma all_SANs_shorthand: "all_SANs lib c = SANs c @ shorthand_SANs lib c"
  by (simp add: all_SANs_closed_form shorthand_SANs_def)

text \<open>The elements already collected have no influence on what an entry adds.\<close>

lemmas type_tags = EmailType_def DNSType_def X400AddressType_def DirectoryNameType_def
  EDIPartyNameType_def URIType_def IPType_def RegisteredIDType_def

lemma san_step_acc:
  "san_step lib rvs san =
     (case san_step lib [] san of Inl e \<Rightarrow> Inl e | Inr r \<Rightarrow> Inr (rvs @ r))"
proof -
  let ?t = "san_Type san"
  consider "?t = EmailType" | "?t \<noteq> EmailType \<and> ?t = DNSType"
    | "?t \<noteq> EmailType \<and> ?t \<noteq> DNSType \<and> (?t = X400AddressType \<or> ?t = DirectoryNameType \<or> ?t = EDIPartyNameType)"
    | "?t \<noteq> EmailType \<and> ?t \<noteq> DNSType \<and> \<not> (?t = X400AddressType \<or> ?t = DirectoryNameType \<or> ?t = EDIPartyNameType) \<and> ?t = URIType"
    | "?t \<noteq> EmailType \<and> ?t \<noteq> DNSType \<and> \<not> (?t = X400AddressType \<or> ?t = DirectoryNameType \<or> ?t = EDIPartyNameType) \<and> ?t \<noteq> URIType \<and> ?t = IPType"
    | "?t \<noteq> EmailType \<and> ?t \<noteq> DNSType \<and> \<not> (?t = X400AddressType \<or> ?t = DirectoryNameType \<or> ?t = EDIPartyNameType) \<and> ?t \<noteq> URIType \<and> ?t \<noteq> IPType \<and> ?t = RegisteredIDType"
    | "?t \<noteq> EmailType \<and> ?t \<noteq> DNSType \<and> \<not> (?t = X400AddressType \<or> ?t = DirectoryNameType \<or> ?t = EDIPartyNameType) \<and> ?t \<noteq> URIType \<and> ?t \<noteq> IPType \<and> ?t \<noteq> RegisteredIDType"
    by blast
  then show ?thesis
  proof cases
    case 1 then show ?thesis by (auto simp: san_step_def type_tags)
  next
    case 2 then show ?thesis by (auto simp: san_step_def type_tags)
  next
    case 3 then show ?thesis by (auto simp: san_step_def type_tags)
  next
    case 4 then show ?thesis by (auto simp: san_step_def type_tags)
  next
    case 5 then show ?thesis by (auto simp: san_step_def type_tags Let_def split: option.splits)
  next
    case 6 then show ?thesis by (auto simp: san_step_def type_tags Let_def split: sum.splits)
  next
    case 7 then show ?thesis by (auto simp: san_step_def type_tags Let_def split: sum.splits)
  qed
qed

lemma san_loop_acc:
  "san_loop lib rvs sans =
     (case san_loop lib [] sans of Inl e \<Rightarrow> Inl e | Inr r \<Rightarrow> Inr (rvs @ r))"
proof (induction sans arbitrary: rvs)
  case Nil
  show ?case by simp
next
  case (Cons san sans)
  show ?case
  proof (cases "san_step lib [] san")
    case (Inl e)
    with san_step_acc [of lib rvs san] show ?thesis by simp
  next
    case (Inr r)
    with san_step_acc [of lib rvs san] have "san_step lib rvs san = Inr (rvs @ r)" by simp
    with Inr Cons.IH [of "rvs @ r"] Cons.IH [of r] show ?thesis
      by (simp split: sum.splits)
  qed
qed

lemma encoder_entry:
  assumes "SANs c = pre @ san # post" and "san_loop lib [] pre = Inr before"
    and "san_step lib [] san = Inr [rv]"
  shows "createSubjectAltNameExtension lib c =
     extension_with lib c before (marshal_RawValue rv) post"
proof -
  from assms(3) san_step_acc [of lib before san]
  have step: "san_step lib before san = Inr (before @ [rv])" by simp
  have "san_loop lib [] (all_SANs lib c) =
      san_loop lib (before @ [rv]) (post @ shorthand_SANs lib c)"
    using assms(1,2) step by (simp add: all_SANs_shorthand san_loop_append)
  also have "\<dots> = (case san_loop lib [] (post @ shorthand_SANs lib c) of
      Inl e \<Rightarrow> Inl e | Inr r \<Rightarrow> Inr ((before @ [rv]) @ r))"
    by (rule san_loop_acc)
  finally show ?thesis
    by (simp add: createSubjectAltNameExtension_def extension_with_def
        asn1_Marshal_RawValues_der subjectAlternativeNameOID_def split: sum.splits)
qed

lemma encoder_entry_error:
  assumes "SANs c = pre @ san # post" and "san_loop lib [] pre = Inr before"
    and "san_step lib [] san = Inl e"
  shows "createSubjectAltNameExtension lib c = Inl e"
proof -
  from assms(3) san_step_acc [of lib before san]
  have "san_step lib before san = Inl e" by simp
  with assms(1,2) show ?thesis
    by (simp add: createSubjectAltNameExtension_def all_SANs_shorthand san_loop_append)
qed

lemma encoder_otherName:
  assumes "parseObjectIdentifier t = Inr oid" and "makeObjectIdentifier oid = Inr content"
    and "SANs c = pre @ \<lparr>san_Type = t, san_Value = v\<rparr> # post"
    and "san_loop lib [] pre = Inr before"
  shows "createSubjectAltNameExtension lib c =
     (case otherName_rawBytes t v of
        Inl e \<Rightarrow> Inl e
      | Inr rawBytes \<Rightarrow> extension_with lib c before (otherName_der content rawBytes) post)"
proof (cases "otherName_rawBytes t v")
  case (Inl e)
  with san_step_otherName [OF assms(1,2), of lib "[]" v]
  have "san_step lib [] \<lparr>san_Type = t, san_Value = v\<rparr> = Inl e" by simp
  from encoder_entry_error [OF assms(3,4) this] Inl show ?thesis by simp
next
  case (Inr rawBytes)
  with san_step_otherName [OF assms(1,2), of lib "[]" v]
  have "san_step lib [] \<lparr>san_Type = t, san_Value = v\<rparr> =
      Inr [RawValue0\<lparr>FullBytes := otherName_der content rawBytes\<rparr>]" by simp
  from encoder_entry [OF assms(3,4) this] Inr show ?thesis
    by (simp add: marshal_RawValue_FullBytes otherName_der_def der_tlv_not_Nil)
qed

text \<open>
  C3 (as amended). For every SAN entry whose type parses as a dotted OID that DER can
  encode (so it is none of the fixed tags), in a certificate whose explicit entries in
  front of it encode, the extension that the encoder returns holds, at the place of the
  entry, an otherName under that OID with the value wrapped in an explicit tag 0:
  a value "int;p" gives the DER INTEGER of p (two's complement, most significant byte
  first) when p parses as a base-10 integer, and the encoder fails with "invalid int
  value for int-typed SAN OtherName" otherwise;
  a value "oid;p" gives the DER OBJECT IDENTIFIER of p when p parses as a dotted OID
  that DER can encode, and the encoder fails with "invalid OID value for OID-typed SAN
  OtherName" when p does not parse;
  "utf8;p" gives p as a UTF8String; "ia5;p", "numeric;p" and "printable;p" give p in the
  string type of that name when all characters of p belong to it, and the encoder fails
  with "could not marshal ASN1 values" otherwise;
  a value without a semicolon is given whole as a PrintableString when all its
  characters are printable, and the encoder fails with "could not marshal ASN1 values"
  otherwise.
\<close>

theorem otherName_encoding:
  assumes "parseObjectIdentifier t = Inr oid" and "makeObjectIdentifier oid = Inr content"
    and "SANs c = pre @ \<lparr>san_Type = t, san_Value = v\<rparr> # post"
    and "san_loop lib [] pre = Inr before"
  shows
    "t \<notin> set encoder_tags
     \<and> (v = ''int;'' @ p \<and> Atoi p = Some i \<longrightarrow>
          createSubjectAltNameExtension lib c =
            extension_with lib c before
              (otherName_der content (der_tlv 0x02 (int64Encoder_Encode i))) post
          \<and> twos_complement (int64Encoder_Encode i) = i)
     \<and> (v = ''int;'' @ p \<and> Atoi p = None \<longrightarrow>
          createSubjectAltNameExtension lib c =
            Inl (Error (''invalid int value for int-typed SAN OtherName '' @ t)))
     \<and> (v = ''oid;'' @ p \<and> parseObjectIdentifier p = Inr oidVal
          \<and> makeObjectIdentifier oidVal = Inr content' \<longrightarrow>
          createSubjectAltNameExtension lib c =
            extension_with lib c before (otherName_der content (der_tlv 0x06 content')) post)
     \<and> (v = ''oid;'' @ p \<and> parseObjectIdentifier p = Inl err \<longrightarrow>
          createSubjectAltNameExtension lib c =
            Inl (Error (''invalid OID value for OID-typed SAN OtherName '' @ t)))
     \<and> (v = ''utf8;'' @ p \<longrightarrow>
          createSubjectAltNameExtension lib c =
            extension_with lib c before (otherName_der content (der_tlv 0x0C (bytes_of p))) post)
     \<and> (v = ''ia5;'' @ p \<longrightarrow>
          createSubjectAltNameExtension lib c =
            (if list_all isIA5 p
             then extension_with lib c before
                    (otherName_der content (der_tlv 0x16 (bytes_of p))) post
             else Inl (Error ''could not marshal ASN1 values: asn1: structure error: IA5String contains invalid character'')))
     \<and> (v = ''numeric;'' @ p \<longrightarrow>
          createSubjectAltNameExtension lib c =
            (if list_all isNumeric p
             then extension_with lib c before
                    (otherName_der content (der_tlv 0x12 (bytes_of p))) post
             else Inl (Error ''could not marshal ASN1 values: asn1: structure error: NumericString contains invalid character'')))
     \<and> (v = ''printable;'' @ p \<longrightarrow>
          createSubjectAltNameExtension lib c =
            (if list_all isPrintable p
             then extension_with lib c before
                    (otherName_der content (der_tlv 0x13 (bytes_of p))) post
             else Inl (Error ''could not marshal ASN1 values: asn1: structure error: PrintableString contains invalid character'')))
     \<and> (CHR '';'' \<notin> set v \<longrightarrow>
          createSubjectAltNameExtension lib c =
            (if list_all isPrintable v
             then extension_with lib c before
                    (otherName_der content (der_tlv 0x13 (bytes_of v))) post
             else Inl (Error ''could not marshal ASN1 values: asn1: structure error: PrintableString contains invalid character'')))"
proof (intro conjI impI)
  note enc = encoder_otherName [OF assms]
  show "t \<notin> set encoder_tags"
    using oid_type_not_tag [OF assms(1)] by (simp add: encoder_tags_def)
  show "twos_complement (int64Encoder_Encode i) = i"
    by (rule twos_complement_int64Encoder)
  show "createSubjectAltNameExtension lib c =
      extension_with lib c before
        (otherName_der content (der_tlv 0x02 (int64Encoder_Encode i))) post"
    if "v = ''int;'' @ p \<and> Atoi p = Some i"
    using that by (simp add: enc otherName_rawBytes_int del: append.simps)
  show "createSubjectAltNameExtension lib c =
      Inl (Error (''invalid int value for int-typed SAN OtherName '' @ t))"
    if "v = ''int;'' @ p \<and> Atoi p = None"
    using that by (simp add: enc otherName_rawBytes_int del: append.simps)
  show "createSubjectAltNameExtension lib c =
      extension_with lib c before (otherName_der content (der_tlv 0x06 content')) post"
    if "v = ''oid;'' @ p \<and> parseObjectIdentifier p = Inr oidVal
          \<and> makeObjectIdentifier oidVal = Inr content'"
    using that by (simp add: enc otherName_rawBytes_oid del: append.simps)
  show "createSubjectAltNameExtension lib c =
      Inl (Error (''invalid OID value for OID-typed SAN OtherName '' @ t))"
    if "v = ''oid;'' @ p \<and> parseObjectIdentifier p = Inl err"
    using that by (simp add: enc otherName_rawBytes_oid del: append.simps)
  show "createSubjectAltNameExtension lib c =
      extension_with lib c before (otherName_der content (der_tlv 0x0C (bytes_of p))) post"
    if "v = ''utf8;'' @ p"
    using that by (simp add: enc otherName_rawBytes_utf8 del: append.simps)
  show "createSubjectAltNameExtension lib c =
      (if list_all isIA5 p
       then extension_with lib c before
              (otherName_der content (der_tlv 0x16 (bytes_of p))) post
       else Inl (Error ''could not marshal ASN1 values: asn1: structure error: IA5String contains invalid character''))"
    if "v = ''ia5;'' @ p"
    using that by (simp add: enc otherName_rawBytes_ia5 del: append.simps)
  show "createSubjectAltNameExtension lib c =
      (if list_all isNumeric p
       then extension_with lib c before
              (otherName_der content (der_tlv 0x12 (bytes_of p))) post
       else Inl (Error ''could not marshal ASN1 values: asn1: structure error: NumericString contains invalid character''))"
    if "v = ''numeric;'' @ p"
    using that by (simp add: enc otherName_rawBytes_numeric del: append.simps)
  show "createSubjectAltNameExtension lib c =
      (if list_all isPrintable p
       then extension_with lib c before
              (otherName_der content (der_tlv 0x13 (bytes_of p))) post
       else Inl (Error ''could not marshal ASN1 values: asn1: structure error: PrintableString contains invalid character''))"
    if "v = ''printable;'' @ p"
    using that by (simp add: enc otherName_rawBytes_printable del: append.simps)
  show "createSubjectAltNameExtension lib c =
      (if list_all isPrintable v
       then extension_with lib c before
              (otherName_der content (der_tlv 0x13 (bytes_of v))) post
       else Inl (Error ''could not marshal ASN1 values: asn1: structure error: PrintableString contains invalid character''))"
    if "CHR '';'' \<notin> set v"
    using that by (simp add: enc otherName_rawBytes_plain)
qed

lemma all_SANs_explicit_only:
  "all_SANs lib (Certificate0\<lparr>SANs := sans\<rparr>) = sans"
  by (simp add: all_SANs_def append_SANs_def Certificate0_def)

lemma encoder_single:
  assumes "san_step lib [] san = Inr [RawValue0\<lparr>FullBytes := bs\<rparr>]" and "bs \<noteq> []"
  shows "createSubjectAltNameExtension lib (Certificate0\<lparr>SANs := [san]\<rparr>) =
     Inr \<lparr>ext_ID = [2, 5, 29, 17], ext_Critical = False, ext_Value = der_tlv 0x30 bs\<rparr>"
  using assms
  by (simp add: createSubjectAltNameExtension_def all_SANs_explicit_only
      asn1_Marshal_RawValues_der marshal_RawValue_FullBytes subjectAlternativeNameOID_def)

lemma encoder_single_error:
  assumes "san_step lib [] san = Inl e"
  shows "createSubjectAltNameExtension lib (Certificate0\<lparr>SANs := [san]\<rparr>) = Inl e"
  using assms
  by (simp add: createSubjectAltNameExtension_def all_SANs_explicit_only)

lemma otherName_42_bytes:
  "otherName_der [0x2A, 3, 4] (der_tlv 0x02 (int64Encoder_Encode 42)) =
     [0xA0, 0x0A, 0x06, 0x03, 0x2A, 0x03, 0x04, 0xA0, 0x03, 0x02, 0x01, 0x2A]"
  by (simp add: otherName_der_def der_tlv_def int64_42 der_length_small)

lemma shorthand_SANs_none: "shorthand_SANs lib (Certificate0\<lparr>SANs := sans\<rparr>) = []"
  by (simp add: shorthand_SANs_def Certificate0_def)

lemma san_loop_dns_a:
  "san_loop sample_lib [] [\<lparr>san_Type = ''dns'', san_Value = ''a''\<rparr>] =
     Inr [RawValue0\<lparr>Tag := nameTypeDNS, Class := 2, Bytes := [0x61]\<rparr>]"
  by (simp add: san_step_def type_tags bytes_of_def)

lemma san_loop_email_c:
  "san_loop sample_lib [] [\<lparr>san_Type = ''email'', san_Value = ''c''\<rparr>] =
     Inr [RawValue0\<lparr>Tag := nameTypeEmail, Class := 2, Bytes := [0x63]\<rparr>]"
  by (simp add: san_step_def type_tags bytes_of_def)

theorem otherName_encoding_witness:
  "parseObjectIdentifier ''1.2.3.4'' = Inr [1, 2, 3, 4]
   \<and> makeObjectIdentifier [1, 2, 3, 4] = Inr [0x2A, 3, 4]
   \<and> Atoi ''42'' = Some 42
   \<and> san_loop sample_lib [] [\<lparr>san_Type = ''dns'', san_Value = ''a''\<rparr>] =
       Inr [RawValue0\<lparr>Tag := nameTypeDNS, Class := 2, Bytes := [0x61]\<rparr>]
   \<and> createSubjectAltNameExtension sample_lib
        (Certificate0\<lparr>SANs := [\<lparr>san_Type = ''dns'', san_Value = ''a''\<rparr>,
                                 \<lparr>san_Type = ''1.2.3.4'', san_Value = ''int;42''\<rparr>,
                                 \<lparr>san_Type = ''email'', san_Value = ''c''\<rparr>]\<rparr>) =
       Inr \<lparr>ext_ID = [2, 5, 29, 17], ext_Critical = False,
            ext_Value = [0x30, 0x12, 0x82, 0x01, 0x61,
                         0xA0, 0x0A, 0x06, 0x03, 0x2A, 0x03, 0x04, 0xA0, 0x03, 0x02, 0x01, 0x2A,
                         0x81, 0x01, 0x63]\<rparr>
   \<and> createSubjectAltNameExtension sample_lib
        (Certificate0\<lparr>SANs := [\<lparr>san_Type = ''1.2.3.4'', san_Value = ''int;42''\<rparr>]\<rparr>) =
       Inr \<lparr>ext_ID = [2, 5, 29, 17], ext_Critical = False,
            ext_Value = [0x30, 0x0C, 0xA0, 0x0A, 0x06, 0x03, 0x2A, 0x03, 0x04,
                         0xA0, 0x03, 0x02, 0x01, 0x2A]\<rparr>"
proof (intro conjI)
  let ?dns = "\<lparr>san_Type = ''dns'', san_Value = ''a''\<rparr>"
  let ?other = "\<lparr>san_Type = ''1.2.3.4'', san_Value = ''int;42''\<rparr>"
  let ?email = "\<lparr>san_Type = ''email'', san_Value = ''c''\<rparr>"
  let ?c = "Certificate0\<lparr>SANs := [?dns, ?other, ?email]\<rparr>"
  have sans: "SANs ?c = [?dns] @ ?other # [?email]" by simp
  from otherName_encoding [OF parse_1234 make_1234 sans san_loop_dns_a,
      where p = "''42''" and i = 42] Atoi_42
  have "createSubjectAltNameExtension sample_lib ?c =
      extension_with sample_lib ?c
        [RawValue0\<lparr>Tag := nameTypeDNS, Class := 2, Bytes := [0x61]\<rparr>]
        (otherName_der [0x2A, 3, 4] (der_tlv 0x02 (int64Encoder_Encode 42))) [?email]"
    by simp
  then show "createSubjectAltNameExtension sample_lib ?c =
       Inr \<lparr>ext_ID = [2, 5, 29, 17], ext_Critical = False,
            ext_Value = [0x30, 0x12, 0x82, 0x01, 0x61,
                         0xA0, 0x0A, 0x06, 0x03, 0x2A, 0x03, 0x04, 0xA0, 0x03, 0x02, 0x01, 0x2A,
                         0x81, 0x01, 0x63]\<rparr>"
    unfolding otherName_42_bytes extension_with_def shorthand_SANs_none
    by (simp add: san_loop_email_c [simplified] marshal_RawValue_context der_tlv_def
        der_length_small)
next
  let ?other = "\<lparr>san_Type = ''1.2.3.4'', san_Value = ''int;42''\<rparr>"
  let ?c = "Certificate0\<lparr>SANs := [?other]\<rparr>"
  have sans: "SANs ?c = [] @ ?other # []" by simp
  have pre: "san_loop sample_lib [] [] = Inr []" by simp
  from otherName_encoding [OF parse_1234 make_1234 sans pre,
      where p = "''42''" and i = 42] Atoi_42
  have "createSubjectAltNameExtension sample_lib ?c =
      extension_with sample_lib ?c []
        (otherName_der [0x2A, 3, 4] (der_tlv 0x02 (int64Encoder_Encode 42))) []"
    by simp
  then show "createSubjectAltNameExtension sample_lib ?c =
       Inr \<lparr>ext_ID = [2, 5, 29, 17], ext_Critical = False,
            ext_Value = [0x30, 0x0C, 0xA0, 0x0A, 0x06, 0x03, 0x2A, 0x03, 0x04,
                         0xA0, 0x03, 0x02, 0x01, 0x2A]\<rparr>"
    unfolding otherName_42_bytes extension_with_def shorthand_SANs_none
    by (simp add: der_tlv_def der_length_small)
next
  show "san_loop sample_lib [] [\<lparr>san_Type = ''dns'', san_Value = ''a''\<rparr>] =
       Inr [RawValue0\<lparr>Tag := nameTypeDNS, Class := 2, Bytes := [0x61]\<rparr>]"
    by (rule san_loop_dns_a)
qed (simp_all add: parse_1234 make_1234 Atoi_42)

text \<open>
  The claim as worded lets the four string prefixes and the absent prefix always encode.
  The payload abc is not a NumericString and the value user@example.com is not a
  PrintableString: the encoder returns an error for both entries.
\<close>

theorem otherName_string_counterexample:
  "createSubjectAltNameExtension sample_lib
      (Certificate0\<lparr>SANs := [\<lparr>san_Type = ''1.2.3.4'', san_Value = ''numeric;abc''\<rparr>]\<rparr>) =
     Inl (Error ''could not marshal ASN1 values: asn1: structure error: NumericString contains invalid character'')
   \<and> createSubjectAltNameExtension sample_lib
      (Certificate0\<lparr>SANs := [\<lparr>san_Type = ''1.2.3.4'', san_Value = ''user@example.com''\<rparr>]\<rparr>) =
     Inl (Error ''could not marshal ASN1 values: asn1: structure error: PrintableString contains invalid character'')"
proof
  have "san_step sample_lib [] \<lparr>san_Type = ''1.2.3.4'', san_Value = ''numeric;'' @ ''abc''\<rparr> =
      Inl (Error ''could not marshal ASN1 values: asn1: structure error: NumericString contains invalid character'')"
    by (simp add: san_step_otherName [OF parse_1234 make_1234] otherName_rawBytes_numeric
        isNumeric_def del: append.simps)
  then show "createSubjectAltNameExtension sample_lib
      (Certificate0\<lparr>SANs := [\<lparr>san_Type = ''1.2.3.4'', san_Value = ''numeric;abc''\<rparr>]\<rparr>) =
     Inl (Error ''could not marshal ASN1 values: asn1: structure error: NumericString contains invalid character'')"
    by (simp add: encoder_single_error)
next
  have "san_step sample_lib [] \<lparr>san_Type = ''1.2.3.4'', san_Value = ''user@example.com''\<rparr> =
      Inl (Error ''could not marshal ASN1 values: asn1: structure error: PrintableString contains invalid character'')"
    by (simp add: san_step_otherName [OF parse_1234 make_1234] otherName_rawBytes_plain
        isPrintable_def)
  then show "createSubjectAltNameExtension sample_lib
      (Certificate0\<lparr>SANs := [\<lparr>san_Type = ''1.2.3.4'', san_Value = ''user@example.com''\<rparr>]\<rparr>) =
     Inl (Error ''could not marshal ASN1 values: asn1: structure error: PrintableString contains invalid character'')"
    by (rule encoder_single_error)
qed

section \<open>IP entries and the extension as a whole\<close>

lemma san_step_ip:
  "san_step lib rvs \<lparr>san_Type = IPType, san_Value = v\<rparr> =
     (case net_ParseIP lib v of
        None \<Rightarrow> Inr rvs
      | Some rawIP \<Rightarrow>
          Inr (rvs @ [RawValue0\<lparr>Tag := nameTypeIP, Class := 2,
                 Bytes := (case To4 rawIP of None \<Rightarrow> rawIP | Some ip4 \<Rightarrow> ip4)\<rparr>]))"
  by (simp add: san_step_def IPType_def EmailType_def DNSType_def X400AddressType_def
      DirectoryNameType_def EDIPartyNameType_def URIType_def Let_def split: option.splits)

lemma To4_16:
  "length ip = 16 \<Longrightarrow> To4 ip = Some ip4 \<Longrightarrow> ip4 = drop 12 ip \<and> length ip4 = 4"
  by (auto simp: To4_def split: if_splits)

lemma san_loop_skip:
  assumes "\<And>rvs. san_step lib rvs san = Inr rvs"
  shows "san_loop lib rvs (xs @ san # ys) = san_loop lib rvs (xs @ ys)"
  by (simp add: san_loop_append assms split: sum.splits)

lemma encoder_ip:
  assumes "SANs c = pre @ \<lparr>san_Type = IPType, san_Value = v\<rparr> # post"
    and "san_loop lib [] pre = Inr before"
    and "net_ParseIP lib v = Some ip"
  shows "createSubjectAltNameExtension lib c =
     extension_with lib c before
       (der_tlv 0x87 (case To4 ip of None \<Rightarrow> ip | Some ip4 \<Rightarrow> ip4)) post"
proof -
  from assms(3) have "san_step lib [] \<lparr>san_Type = IPType, san_Value = v\<rparr> =
      Inr [RawValue0\<lparr>Tag := nameTypeIP, Class := 2,
             Bytes := (case To4 ip of None \<Rightarrow> ip | Some ip4 \<Rightarrow> ip4)\<rparr>]"
    by (simp add: san_step_ip)
  from encoder_entry [OF assms(1,2) this] show ?thesis
    by (simp only: marshal_RawValue_context)
qed

text \<open>
  C5. For every SAN entry of type "ip" in a certificate whose explicit entries in front
  of it encode: when the value parses (\<^verbatim>\<open>net.ParseIP\<close> returns the 16-byte form of the
  address), the extension that the encoder returns holds, at the place of the entry, a
  GeneralName of context tag 7 whose content is the last 4 bytes for an IPv4-mappable
  address (\<^verbatim>\<open>To4\<close> is not nil) and all 16 bytes otherwise. When the value does not
  parse, the encoder adds nothing for the entry and returns no error for it: its result
  is the one for the certificate without the entry.
\<close>

theorem ip_entry_encoding:
  "(SANs c = pre @ \<lparr>san_Type = IPType, san_Value = v\<rparr> # post
      \<and> san_loop lib [] pre = Inr before
      \<and> net_ParseIP lib v = Some ip \<and> length ip = 16 \<longrightarrow>
      (To4 ip \<noteq> None \<longrightarrow>
         createSubjectAltNameExtension lib c =
           extension_with lib c before (der_tlv 0x87 (drop 12 ip)) post
         \<and> length (drop 12 ip) = 4)
      \<and> (To4 ip = None \<longrightarrow>
         createSubjectAltNameExtension lib c =
           extension_with lib c before (der_tlv 0x87 ip) post))
   \<and> (net_ParseIP lib v = None \<longrightarrow>
      san_step lib rvs \<lparr>san_Type = IPType, san_Value = v\<rparr> = Inr rvs
      \<and> createSubjectAltNameExtension lib
           (d\<lparr>SANs := xs @ \<lparr>san_Type = IPType, san_Value = v\<rparr> # ys\<rparr>) =
          createSubjectAltNameExtension lib (d\<lparr>SANs := xs @ ys\<rparr>))"
proof (intro conjI impI)
  assume a: "SANs c = pre @ \<lparr>san_Type = IPType, san_Value = v\<rparr> # post
      \<and> san_loop lib [] pre = Inr before
      \<and> net_ParseIP lib v = Some ip \<and> length ip = 16"
  then have "SANs c = pre @ \<lparr>san_Type = IPType, san_Value = v\<rparr> # post"
    and "san_loop lib [] pre = Inr before" and "net_ParseIP lib v = Some ip"
    by simp_all
  note enc = encoder_ip [OF this]
  show "createSubjectAltNameExtension lib c =
      extension_with lib c before (der_tlv 0x87 (drop 12 ip)) post"
    if "To4 ip \<noteq> None"
    using that a To4_16 [of ip] enc by (cases "To4 ip") simp_all
  show "length (drop 12 ip) = 4" using a by simp
  show "createSubjectAltNameExtension lib c = extension_with lib c before (der_tlv 0x87 ip) post"
    if "To4 ip = None"
    using that enc by simp
next
  assume n: "net_ParseIP lib v = None"
  then show "san_step lib rvs \<lparr>san_Type = IPType, san_Value = v\<rparr> = Inr rvs"
    by (simp add: san_step_ip)
  have skip: "\<And>r. san_step lib r \<lparr>san_Type = IPType, san_Value = v\<rparr> = Inr r"
    using n by (simp add: san_step_ip)
  show "createSubjectAltNameExtension lib
           (d\<lparr>SANs := xs @ \<lparr>san_Type = IPType, san_Value = v\<rparr> # ys\<rparr>) =
          createSubjectAltNameExtension lib (d\<lparr>SANs := xs @ ys\<rparr>)"
    using san_loop_skip [of lib "\<lparr>san_Type = IPType, san_Value = v\<rparr>", OF skip]
    by (simp add: createSubjectAltNameExtension_def all_SANs_closed_form)
qed

lemma sample_ParseIP_values:
  "net_ParseIP sample_lib ''10.0.0.1'' = Some [0, 0, 0, 0, 0, 0, 0, 0, 0, 0, 0xff, 0xff, 10, 0, 0, 1]"
  "net_ParseIP sample_lib ''::1'' = Some [0, 0, 0, 0, 0, 0, 0, 0, 0, 0, 0, 0, 0, 0, 0, 1]"
  "net_ParseIP sample_lib ''not-an-ip'' = None"
  by (simp_all add: sample_lib_def sample_ParseIP_def)

lemma To4_values:
  "To4 [0, 0, 0, 0, 0, 0, 0, 0, 0, 0, 0xff, 0xff, 10, 0, 0, 1] = Some [10, 0, 0, 1]"
  "To4 [0, 0, 0, 0, 0, 0, 0, 0, 0, 0, 0, 0, 0, 0, 0, 1] = None"
  by (simp_all add: To4_def)

lemma encoder_no_entries:
  "createSubjectAltNameExtension lib (Certificate0\<lparr>SANs := []\<rparr>) =
     Inr \<lparr>ext_ID = [2, 5, 29, 17], ext_Critical = False, ext_Value = [0x30, 0x00]\<rparr>"
  by (simp add: createSubjectAltNameExtension_def all_SANs_explicit_only
      asn1_Marshal_RawValues_der der_tlv_def der_length_small subjectAlternativeNameOID_def)

lemma san_loop_ip_samples:
  "san_loop sample_lib [] [\<lparr>san_Type = ''ip'', san_Value = ''10.0.0.1''\<rparr>] =
     Inr [RawValue0\<lparr>Tag := nameTypeIP, Class := 2, Bytes := [10, 0, 0, 1]\<rparr>]"
  "san_loop sample_lib [] [\<lparr>san_Type = ''ip'', san_Value = ''::1''\<rparr>] =
     Inr [RawValue0\<lparr>Tag := nameTypeIP, Class := 2,
            Bytes := [0, 0, 0, 0, 0, 0, 0, 0, 0, 0, 0, 0, 0, 0, 0, 1]\<rparr>]"
  using san_step_ip [of sample_lib "[]" "''10.0.0.1''"] san_step_ip [of sample_lib "[]" "''::1''"]
  by (simp_all add: IPType_def sample_ParseIP_values To4_values)

theorem ip_entry_encoding_witness:
  "net_ParseIP sample_lib ''10.0.0.1'' =
     Some [0, 0, 0, 0, 0, 0, 0, 0, 0, 0, 0xff, 0xff, 10, 0, 0, 1]
   \<and> To4 [0, 0, 0, 0, 0, 0, 0, 0, 0, 0, 0xff, 0xff, 10, 0, 0, 1] \<noteq> None
   \<and> net_ParseIP sample_lib ''::1'' = Some [0, 0, 0, 0, 0, 0, 0, 0, 0, 0, 0, 0, 0, 0, 0, 1]
   \<and> To4 [0, 0, 0, 0, 0, 0, 0, 0, 0, 0, 0, 0, 0, 0, 0, 1] = None
   \<and> net_ParseIP sample_lib ''not-an-ip'' = None
   \<and> createSubjectAltNameExtension sample_lib
        (Certificate0\<lparr>SANs := [\<lparr>san_Type = ''ip'', san_Value = ''10.0.0.1''\<rparr>,
                                 \<lparr>san_Type = ''ip'', san_Value = ''::1''\<rparr>]\<rparr>) =
       Inr \<lparr>ext_ID = [2, 5, 29, 17], ext_Critical = False,
            ext_Value = [0x30, 0x18, 0x87, 0x04, 10, 0, 0, 1,
                         0x87, 0x10, 0, 0, 0, 0, 0, 0, 0, 0, 0, 0, 0, 0, 0, 0, 0, 1]\<rparr>
   \<and> createSubjectAltNameExtension sample_lib
        (Certificate0\<lparr>SANs := [\<lparr>san_Type = ''dns'', san_Value = ''a''\<rparr>,
                                 \<lparr>san_Type = ''ip'', san_Value = ''::1''\<rparr>]\<rparr>) =
       Inr \<lparr>ext_ID = [2, 5, 29, 17], ext_Critical = False,
            ext_Value = [0x30, 0x15, 0x82, 0x01, 0x61,
                         0x87, 0x10, 0, 0, 0, 0, 0, 0, 0, 0, 0, 0, 0, 0, 0, 0, 0, 1]\<rparr>
   \<and> createSubjectAltNameExtension sample_lib
        (Certificate0\<lparr>SANs := [\<lparr>san_Type = ''ip'', san_Value = ''not-an-ip''\<rparr>]\<rparr>) =
       Inr \<lparr>ext_ID = [2, 5, 29, 17], ext_Critical = False, ext_Value = [0x30, 0x00]\<rparr>"
proof (intro conjI)
  let ?v4 = "\<lparr>san_Type = ''ip'', san_Value = ''10.0.0.1''\<rparr>"
  let ?v6 = "\<lparr>san_Type = ''ip'', san_Value = ''::1''\<rparr>"
  let ?ip = "[0, 0, 0, 0, 0, 0, 0, 0, 0, 0, 0xff, 0xff, 10, 0, 0, 1] :: byte list"
  let ?c = "Certificate0\<lparr>SANs := [?v4, ?v6]\<rparr>"
  from ip_entry_encoding [where lib = sample_lib and c = ?c and pre = "[]" and post = "[?v6]"
      and before = "[]" and v = "''10.0.0.1''" and ip = ?ip]
    sample_ParseIP_values(1) To4_values(1)
  have "createSubjectAltNameExtension sample_lib ?c =
      extension_with sample_lib ?c [] (der_tlv 0x87 (drop 12 ?ip)) [?v6]"
    by (simp add: IPType_def)
  then show "createSubjectAltNameExtension sample_lib ?c =
       Inr \<lparr>ext_ID = [2, 5, 29, 17], ext_Critical = False,
            ext_Value = [0x30, 0x18, 0x87, 0x04, 10, 0, 0, 1,
                         0x87, 0x10, 0, 0, 0, 0, 0, 0, 0, 0, 0, 0, 0, 0, 0, 0, 0, 1]\<rparr>"
    unfolding extension_with_def shorthand_SANs_none
    by (simp add: san_loop_ip_samples(2) [simplified] marshal_RawValue_context der_tlv_def
        der_length_small)
next
  let ?dns = "\<lparr>san_Type = ''dns'', san_Value = ''a''\<rparr>"
  let ?v6 = "\<lparr>san_Type = ''ip'', san_Value = ''::1''\<rparr>"
  let ?ip = "[0, 0, 0, 0, 0, 0, 0, 0, 0, 0, 0, 0, 0, 0, 0, 1] :: byte list"
  let ?c = "Certificate0\<lparr>SANs := [?dns, ?v6]\<rparr>"
  from ip_entry_encoding [where lib = sample_lib and c = ?c and pre = "[?dns]" and post = "[]"
      and before = "[RawValue0\<lparr>Tag := nameTypeDNS, Class := 2, Bytes := [0x61]\<rparr>]"
      and v = "''::1''" and ip = ?ip]
    sample_ParseIP_values(2) To4_values(2) san_loop_dns_a
  have "createSubjectAltNameExtension sample_lib ?c =
      extension_with sample_lib ?c
        [RawValue0\<lparr>Tag := nameTypeDNS, Class := 2, Bytes := [0x61]\<rparr>] (der_tlv 0x87 ?ip) []"
    by (simp add: IPType_def)
  then show "createSubjectAltNameExtension sample_lib ?c =
       Inr \<lparr>ext_ID = [2, 5, 29, 17], ext_Critical = False,
            ext_Value = [0x30, 0x15, 0x82, 0x01, 0x61,
                         0x87, 0x10, 0, 0, 0, 0, 0, 0, 0, 0, 0, 0, 0, 0, 0, 0, 0, 1]\<rparr>"
    unfolding extension_with_def shorthand_SANs_none
    by (simp add: marshal_RawValue_context der_tlv_def der_length_small)
next
  from ip_entry_encoding [where lib = sample_lib and v = "''not-an-ip''" and d = Certificate0
      and xs = "[]" and ys = "[]"]
    sample_ParseIP_values(3)
  show "createSubjectAltNameExtension sample_lib
      (Certificate0\<lparr>SANs := [\<lparr>san_Type = ''ip'', san_Value = ''not-an-ip''\<rparr>]\<rparr>) =
     Inr \<lparr>ext_ID = [2, 5, 29, 17], ext_Critical = False, ext_Value = [0x30, 0x00]\<rparr>"
    by (simp add: IPType_def encoder_no_entries)
qed (simp_all add: sample_ParseIP_values To4_values)

text \<open>
  C6. Whenever the SAN encoder succeeds, the extension it returns carries the OID
  2.5.29.17 and is not critical, whatever entries were encoded; the subject of the
  certificate has no influence on the result, so an empty subject does not make the
  extension critical.
\<close>

theorem extension_id_and_criticality:
  "(createSubjectAltNameExtension lib c = Inr ext \<longrightarrow>
      ext_ID ext = [2, 5, 29, 17] \<and> \<not> ext_Critical ext)
   \<and> createSubjectAltNameExtension lib (c\<lparr>Subject := s\<rparr>) = createSubjectAltNameExtension lib c"
proof (intro conjI impI)
  assume a: "createSubjectAltNameExtension lib c = Inr ext"
  then show "ext_ID ext = [2, 5, 29, 17]"
    by (auto simp: createSubjectAltNameExtension_def subjectAlternativeNameOID_def
        split: sum.splits)
  from a show "\<not> ext_Critical ext"
    by (auto simp: createSubjectAltNameExtension_def split: sum.splits)
next
  show "createSubjectAltNameExtension lib (c\<lparr>Subject := s\<rparr>) = createSubjectAltNameExtension lib c"
    by (simp add: createSubjectAltNameExtension_def all_SANs_closed_form)
qed

lemma san_step_dns:
  "san_step lib rvs \<lparr>san_Type = DNSType, san_Value = v\<rparr> =
     Inr (rvs @ [RawValue0\<lparr>Tag := nameTypeDNS, Class := 2, Bytes := bytes_of v\<rparr>])"
  by (simp add: san_step_def DNSType_def EmailType_def)

lemma encoder_dns_example:
  "createSubjectAltNameExtension sample_lib (Certificate0\<lparr>DNSNames := [''example.com'']\<rparr>) =
     Inr \<lparr>ext_ID = [2, 5, 29, 17], ext_Critical = False,
          ext_Value = [0x30, 0x0D, 0x82, 0x0B] @ bytes_of ''example.com''\<rparr>"
  by (simp add: createSubjectAltNameExtension_def all_SANs_closed_form Certificate0_def
      san_step_dns asn1_Marshal_RawValues_der marshal_RawValue_context der_tlv_def
      der_length_small length_bytes_of subjectAlternativeNameOID_def)

theorem extension_id_and_criticality_witness:
  "createSubjectAltNameExtension sample_lib (Certificate0\<lparr>DNSNames := [''example.com'']\<rparr>) =
     Inr \<lparr>ext_ID = [2, 5, 29, 17], ext_Critical = False,
          ext_Value = [0x30, 0x0D, 0x82, 0x0B] @ bytes_of ''example.com''\<rparr>
   \<and> Subject (Certificate0 :: string Certificate) = Subject0
   \<and> ext_ID \<lparr>ext_ID = [2, 5, 29, 17], ext_Critical = False,
          ext_Value = [0x30, 0x0D, 0x82, 0x0B] @ bytes_of ''example.com''\<rparr> = [2, 5, 29, 17]
   \<and> \<not> ext_Critical \<lparr>ext_ID = [2, 5, 29, 17], ext_Critical = False,
          ext_Value = [0x30, 0x0D, 0x82, 0x0B] @ bytes_of ''example.com''\<rparr>
   \<and> createSubjectAltNameExtension sample_lib
        (Certificate0\<lparr>DNSNames := [''example.com''], Subject := Subject_example\<rparr>) =
      createSubjectAltNameExtension sample_lib (Certificate0\<lparr>DNSNames := [''example.com'']\<rparr>)"
  using extension_id_and_criticality
    [where lib = sample_lib and c = "Certificate0\<lparr>DNSNames := [''example.com'']\<rparr>"
      and s = Subject_example
      and ext = "\<lparr>ext_ID = [2, 5, 29, 17], ext_Critical = False,
          ext_Value = [0x30, 0x0D, 0x82, 0x0B] @ bytes_of ''example.com''\<rparr>"]
    encoder_dns_example
  by (simp add: Certificate0_def)

section \<open>Type dispatch in Set and in the encoder\<close>

lemma toLower_digit: "isDigit ch \<Longrightarrow> toLower_char ch = ch"
  by (simp add: toLower_char_def isDigit_def)

lemma not_oid_if_letter:
  assumes "t \<noteq> [] \<and> \<not> isDigit (hd t)"
  shows "\<exists>err. parseObjectIdentifier t = Inl err"
proof (cases "parseObjectIdentifier t")
  case (Inl err)
  then show ?thesis by blast
next
  case (Inr oid)
  from parseObjectIdentifier_hd [OF Inr] assms show ?thesis by simp
qed

lemma san_step_failure_is_error:
  "san_step lib rvs san = Inl f \<Longrightarrow> \<exists>m. f = Error m"
  by (auto simp: san_step_def otherName_rawBytes_def Let_def
      split: if_splits option.splits sum.splits prod.splits)

lemma san_loop_failure_is_error:
  "san_loop lib rvs sans = Inl f \<Longrightarrow> \<exists>m. f = Error m"
proof (induction sans arbitrary: rvs)
  case Nil
  then show ?case by simp
next
  case (Cons san sans)
  then show ?case
    by (auto split: sum.splits dest: san_step_failure_is_error)
qed

lemma san_loop_fails:
  assumes "san \<in> set sans" and "\<And>rvs. \<exists>e. san_step lib rvs san = Inl e"
  shows "\<exists>e. san_loop lib rvs sans = Inl e"
  using assms(1)
proof (induction sans arbitrary: rvs)
  case Nil
  then show ?case by simp
next
  case (Cons x sans)
  show ?case
  proof (cases "san_step lib rvs x")
    case (Inl e)
    then show ?thesis by simp
  next
    case (Inr rvs')
    show ?thesis
    proof (cases "x = san")
      case True
      with assms(2) [of rvs] Inr show ?thesis by simp
    next
      case False
      with Cons.prems have "san \<in> set sans" by simp
      from Cons.IH [OF this] Inr show ?thesis by simp
    qed
  qed
qed

lemma encoder_fails:
  assumes "san \<in> set (SANs c)" and "\<And>rvs. \<exists>e. san_step lib rvs san = Inl e"
  shows "is_error_result (createSubjectAltNameExtension lib c)"
proof -
  from assms(1) have "san \<in> set (all_SANs lib c)" by (simp add: all_SANs_closed_form)
  from san_loop_fails [OF this assms(2)] obtain f where
    f: "san_loop lib [] (all_SANs lib c) = Inl f" by blast
  from san_loop_failure_is_error [OF f] obtain m where "f = Error m" by blast
  with f show ?thesis by (simp add: createSubjectAltNameExtension_def)
qed

lemma toLower_upperI:
  assumes "65 \<le> (of_char ch :: nat)" and "(of_char ch :: nat) \<le> 90"
    and "(of_char ch' :: nat) = of_char ch + 32"
  shows "toLower_char ch = ch'"
proof -
  from assms have "(of_char (toLower_char ch) :: nat) = of_char ch'"
    by (simp add: toLower_char_def)
  then show ?thesis by (simp only: of_char_eq_iff)
qed

lemma toLower_letters:
  "toLower_char CHR ''D'' = CHR ''d''" "toLower_char CHR ''N'' = CHR ''n''"
  "toLower_char CHR ''S'' = CHR ''s''" "toLower_char CHR ''E'' = CHR ''e''"
  "toLower_char CHR ''R'' = CHR ''r''" "toLower_char CHR ''I'' = CHR ''i''"
  "toLower_char CHR ''A'' = CHR ''a''" "toLower_char CHR ''P'' = CHR ''p''"
  by (rule toLower_upperI; simp)+

lemma toLower_lower: "(of_char ch :: nat) > 90 \<or> (of_char ch :: nat) < 65 \<Longrightarrow> toLower_char ch = ch"
  by (auto simp: toLower_char_def)

lemma ascii_lower_tags:
  "ascii_lower X400AddressType = ''x400address''" "ascii_lower DirectoryNameType = ''dn''"
  "ascii_lower EDIPartyNameType = ''edipartyname''" "ascii_lower RegisteredIDType = ''registeredid''"
  "ascii_lower ''RegisteredID'' = ''registeredid''" "ascii_lower ''DNS'' = ''dns''"
  by (simp_all add: ascii_lower_def X400AddressType_def DirectoryNameType_def EDIPartyNameType_def
      RegisteredIDType_def toLower_letters toLower_lower)

lemma ascii_tags:
  "ascii X400AddressType" "ascii DirectoryNameType" "ascii EDIPartyNameType"
  "ascii RegisteredIDType" "ascii ''RegisteredID''" "ascii ''DNS''" "ascii ''x400Address''"
  "ascii []"
  by (simp_all add: ascii_def X400AddressType_def DirectoryNameType_def EDIPartyNameType_def
      RegisteredIDType_def)

text \<open>A string that parses as an object identifier consists of digits and dots, which
  lowercasing keeps.\<close>

lemma parse_components_digits:
  "parse_components ps = Some oid \<Longrightarrow> list_all (list_all isDigit) ps"
  by (induction ps arbitrary: oid)
     (auto simp: parse_component_def split: option.splits if_splits)

lemma set_Join: "set (Join ps sep) \<subseteq> \<Union> (set ` set ps) \<union> {sep}"
  by (induction ps sep rule: Join.induct) auto

lemma oid_text_chars:
  assumes "parseObjectIdentifier t = Inr oid" and "ch \<in> set t"
  shows "isDigit ch \<or> ch = CHR ''.''"
proof -
  from assms(1) obtain ns where "parse_components (Split t CHR ''.'') = Some ns"
    by (auto simp: parseObjectIdentifier_def split: option.splits)
  from parse_components_digits [OF this]
  have digits: "list_all (list_all isDigit) (Split t CHR ''.'')" .
  from assms(2) have "ch \<in> set (Join (Split t CHR ''.'') CHR ''.'')"
    by (simp add: Join_Split)
  with set_Join [of "Split t CHR ''.''" "CHR ''.''"]
  have "ch = CHR ''.'' \<or> (\<exists>p \<in> set (Split t CHR ''.''). ch \<in> set p)" by auto
  with digits show ?thesis by (auto simp: list_all_iff)
qed

lemma oid_text_ascii:
  assumes "parseObjectIdentifier t = Inr oid"
  shows "ascii t \<and> ascii_lower t = t"
proof -
  have "(of_char ch :: nat) < 128 \<and> toLower_char ch = ch" if "ch \<in> set t" for ch
    using oid_text_chars [OF assms that]
    by (auto simp: isDigit_def toLower_char_def)
  then show ?thesis
    by (simp add: ascii_def ascii_lower_def list_all_iff map_idI)
qed

lemma case_variant_not_tag:
  assumes "ToLower_contract lib"
    and "strings_ToLower lib t \<in> {DNSType, EmailType, IPType, URIType}"
    and "t \<notin> {DNSType, EmailType, IPType, URIType}"
  shows "t \<noteq> [] \<and> t \<noteq> EmailType \<and> t \<noteq> DNSType \<and> t \<noteq> X400AddressType \<and> t \<noteq> DirectoryNameType
    \<and> t \<noteq> EDIPartyNameType \<and> t \<noteq> URIType \<and> t \<noteq> IPType \<and> t \<noteq> RegisteredIDType"
proof -
  from assms(1) have low: "strings_ToLower lib s = ascii_lower s" if "ascii s" for s
    using that by (simp add: ToLower_contract_def)
  have "strings_ToLower lib X400AddressType \<notin> {DNSType, EmailType, IPType, URIType}"
    "strings_ToLower lib DirectoryNameType \<notin> {DNSType, EmailType, IPType, URIType}"
    "strings_ToLower lib EDIPartyNameType \<notin> {DNSType, EmailType, IPType, URIType}"
    "strings_ToLower lib RegisteredIDType \<notin> {DNSType, EmailType, IPType, URIType}"
    "strings_ToLower lib [] \<notin> {DNSType, EmailType, IPType, URIType}"
    by (simp_all add: low ascii_tags ascii_lower_tags DNSType_def EmailType_def IPType_def
        URIType_def)
       (simp add: ascii_lower_def)
  with assms(2,3) show ?thesis by auto
qed

lemma case_variant_not_oid:
  assumes "ToLower_contract lib"
    and "strings_ToLower lib t \<in> {DNSType, EmailType, IPType, URIType}"
    and "t \<notin> {DNSType, EmailType, IPType, URIType}"
  shows "\<exists>err. parseObjectIdentifier t = Inl err"
proof (cases "parseObjectIdentifier t")
  case (Inl err)
  then show ?thesis by blast
next
  case (Inr oid)
  from oid_text_ascii [OF Inr] assms(1) have "strings_ToLower lib t = t"
    by (simp add: ToLower_contract_def)
  with assms(2,3) show ?thesis by simp
qed

lemma san_step_case_variant:
  assumes "ToLower_contract lib"
    and "strings_ToLower lib t \<in> {DNSType, EmailType, IPType, URIType}"
    and "t \<notin> {DNSType, EmailType, IPType, URIType}"
  shows "san_step lib' rvs \<lparr>san_Type = t, san_Value = v\<rparr> = Inl (Error (''unsupported SAN type '' @ t))"
proof -
  from case_variant_not_oid [OF assms] obtain err where "parseObjectIdentifier t = Inl err"
    by blast
  with case_variant_not_tag [OF assms] show ?thesis
    by (simp add: san_step_def)
qed

lemma Set_known:
  "strings_ToLower lib t = DNSType \<Longrightarrow>
     SubjectAlternativeName_Set lib \<lparr>san_Type = t, san_Value = v\<rparr> x =
       Inr (x\<lparr>x509_DNSNames := x509_DNSNames x @ [v]\<rparr>)"
  "strings_ToLower lib t = EmailType \<Longrightarrow>
     SubjectAlternativeName_Set lib \<lparr>san_Type = t, san_Value = v\<rparr> x =
       Inr (x\<lparr>x509_EmailAddresses := x509_EmailAddresses x @ [v]\<rparr>)"
  "strings_ToLower lib t = IPType \<Longrightarrow>
     SubjectAlternativeName_Set lib \<lparr>san_Type = t, san_Value = v\<rparr> x =
       (case net_ParseIP lib v of
          Some ip \<Rightarrow> Inr (x\<lparr>x509_IPAddresses := x509_IPAddresses x @ [ip]\<rparr>)
        | None \<Rightarrow> Inr x)"
  "strings_ToLower lib t = URIType \<Longrightarrow>
     SubjectAlternativeName_Set lib \<lparr>san_Type = t, san_Value = v\<rparr> x =
       (case url_Parse lib v of
          Some u \<Rightarrow> Inr (x\<lparr>x509_URIs := x509_URIs x @ [u]\<rparr>)
        | None \<Rightarrow> Inr x)"
  by (simp_all add: SubjectAlternativeName_Set_def DNSType_def EmailType_def IPType_def
      URIType_def)

text \<open>
  C10 (as amended). The encoder compares the type with its tags as written, and
  \<^verbatim>\<open>Set\<close> lowercases it first with \<^verbatim>\<open>strings.ToLower\<close>, of which only the effect on
  ASCII strings is assumed. For every entry whose type is not one of dns, email, ip, uri
  but is lowercased to one of them (DNS, Email, ..., and spellings outside ASCII), the
  type is not a dotted OID; the encoder returns an error for every certificate whose
  explicit SAN list holds the entry, and the error is "unsupported SAN type" followed by
  the type when the entries in front of it encode; whereas \<^verbatim>\<open>Set\<close> applies the entry as
  the lowercased type: a dns or email value is appended to the DNS names or email
  addresses, an ip or uri value is appended when it parses. (The tags x400Address,
  ediPartyName and registeredID contain capitals, so no spelling of them is known to
  \<^verbatim>\<open>Set\<close>.)
\<close>

theorem case_variant_dispatch:
  assumes "ToLower_contract lib"
    and "strings_ToLower lib t \<in> {DNSType, EmailType, IPType, URIType}"
    and "t \<notin> {DNSType, EmailType, IPType, URIType}"
  shows
    "(\<exists>err. parseObjectIdentifier t = Inl err)
     \<and> san_step lib rvs \<lparr>san_Type = t, san_Value = v\<rparr> = Inl (Error (''unsupported SAN type '' @ t))
     \<and> (\<lparr>san_Type = t, san_Value = v\<rparr> \<in> set (SANs c) \<longrightarrow>
          is_error_result (createSubjectAltNameExtension lib c))
     \<and> (SANs c = pre @ \<lparr>san_Type = t, san_Value = v\<rparr> # post
          \<and> san_loop lib [] pre = Inr before \<longrightarrow>
          createSubjectAltNameExtension lib c = Inl (Error (''unsupported SAN type '' @ t)))
     \<and> (strings_ToLower lib t = DNSType \<longrightarrow>
          SubjectAlternativeName_Set lib \<lparr>san_Type = t, san_Value = v\<rparr> x =
            Inr (x\<lparr>x509_DNSNames := x509_DNSNames x @ [v]\<rparr>))
     \<and> (strings_ToLower lib t = EmailType \<longrightarrow>
          SubjectAlternativeName_Set lib \<lparr>san_Type = t, san_Value = v\<rparr> x =
            Inr (x\<lparr>x509_EmailAddresses := x509_EmailAddresses x @ [v]\<rparr>))
     \<and> (strings_ToLower lib t = IPType \<longrightarrow>
          SubjectAlternativeName_Set lib \<lparr>san_Type = t, san_Value = v\<rparr> x =
            (case net_ParseIP lib v of
               Some ip \<Rightarrow> Inr (x\<lparr>x509_IPAddresses := x509_IPAddresses x @ [ip]\<rparr>)
             | None \<Rightarrow> Inr x))
     \<and> (strings_ToLower lib t = URIType \<longrightarrow>
          SubjectAlternativeName_Set lib \<lparr>san_Type = t, san_Value = v\<rparr> x =
            (case url_Parse lib v of
               Some u \<Rightarrow> Inr (x\<lparr>x509_URIs := x509_URIs x @ [u]\<rparr>)
             | None \<Rightarrow> Inr x))"
proof (intro conjI impI)
  show "\<exists>err. parseObjectIdentifier t = Inl err"
    by (rule case_variant_not_oid [OF assms])
  show step: "san_step lib rvs \<lparr>san_Type = t, san_Value = v\<rparr> =
      Inl (Error (''unsupported SAN type '' @ t))" for rvs
    by (rule san_step_case_variant [OF assms])
  show "is_error_result (createSubjectAltNameExtension lib c)"
    if "\<lparr>san_Type = t, san_Value = v\<rparr> \<in> set (SANs c)"
  proof (rule encoder_fails [OF that])
    fix rvs
    show "\<exists>e. san_step lib rvs \<lparr>san_Type = t, san_Value = v\<rparr> = Inl e"
      using step [of rvs] by simp
  qed
  show "createSubjectAltNameExtension lib c = Inl (Error (''unsupported SAN type '' @ t))"
    if "SANs c = pre @ \<lparr>san_Type = t, san_Value = v\<rparr> # post
          \<and> san_loop lib [] pre = Inr before"
  proof -
    from that have "SANs c = pre @ \<lparr>san_Type = t, san_Value = v\<rparr> # post"
      and "san_loop lib [] pre = Inr before" by simp_all
    from encoder_entry_error [OF this step [of "[]"]] show ?thesis .
  qed
qed (simp_all add: Set_known)

text \<open>The sample lowercasing meets what is assumed of \<^verbatim>\<open>strings.ToLower\<close>.\<close>

lemma sample_ToLower_ascii: "ascii s \<Longrightarrow> sample_ToLower s = ascii_lower s"
proof (induction s rule: sample_ToLower.induct)
  case (1 a b r)
  from "1.prems" have "(of_char a :: nat) < 128" by (simp add: ascii_def)
  then have "a \<noteq> CHR 0xC4" by auto
  with 1 show ?case by (simp add: ascii_def ascii_lower_def)
next
  case (2 a)
  show ?case by (simp add: ascii_lower_def)
next
  case 3
  show ?case by (simp add: ascii_lower_def)
qed

lemma sample_lib_contract: "ToLower_contract sample_lib"
  by (simp add: ToLower_contract_def sample_lib_def sample_ToLower_ascii)

lemma sample_ToLower_values:
  "strings_ToLower sample_lib ''DNS'' = ''dns''"
  "strings_ToLower sample_lib [CHR 0xC4, CHR 0xB0, CHR ''P''] = ''ip''"
  "strings_ToLower sample_lib ''RegisteredID'' = ''registeredid''"
  "strings_ToLower sample_lib ''x400Address'' = ''x400address''"
  by (simp_all add: sample_lib_def toLower_letters toLower_lower)

lemma not_the_four:
  "''DNS'' \<notin> {DNSType, EmailType, IPType, URIType}"
  "[CHR 0xC4, CHR 0xB0, CHR ''P''] \<notin> {DNSType, EmailType, IPType, URIType}"
  by (simp_all add: DNSType_def EmailType_def IPType_def URIType_def)

theorem case_variant_dispatch_witness:
  "ToLower_contract sample_lib
   \<and> strings_ToLower sample_lib ''DNS'' = ''dns''
   \<and> createSubjectAltNameExtension sample_lib
        (Certificate0\<lparr>SANs := [\<lparr>san_Type = ''dns'', san_Value = ''a''\<rparr>,
                                 \<lparr>san_Type = ''DNS'', san_Value = ''example.com''\<rparr>]\<rparr>) =
       Inl (Error ''unsupported SAN type DNS'')
   \<and> SubjectAlternativeName_Set sample_lib \<lparr>san_Type = ''DNS'', san_Value = ''example.com''\<rparr>
        (x509_Certificate0 :: string x509_Certificate) =
       Inr (x509_Certificate0\<lparr>x509_DNSNames := [''example.com'']\<rparr>)
   \<and> strings_ToLower sample_lib [CHR 0xC4, CHR 0xB0, CHR ''P''] = ''ip''
   \<and> createSubjectAltNameExtension sample_lib
        (Certificate0\<lparr>SANs := [\<lparr>san_Type = [CHR 0xC4, CHR 0xB0, CHR ''P''],
                                  san_Value = ''10.0.0.1''\<rparr>]\<rparr>) =
       Inl (Error (''unsupported SAN type '' @ [CHR 0xC4, CHR 0xB0, CHR ''P'']))
   \<and> SubjectAlternativeName_Set sample_lib
        \<lparr>san_Type = [CHR 0xC4, CHR 0xB0, CHR ''P''], san_Value = ''10.0.0.1''\<rparr>
        (x509_Certificate0 :: string x509_Certificate) =
       Inr (x509_Certificate0\<lparr>x509_IPAddresses :=
              [[0, 0, 0, 0, 0, 0, 0, 0, 0, 0, 0xff, 0xff, 10, 0, 0, 1]]\<rparr>)"
proof (intro conjI)
  show "ToLower_contract sample_lib" by (rule sample_lib_contract)
  show "strings_ToLower sample_lib ''DNS'' = ''dns''" by (rule sample_ToLower_values(1))
  show "strings_ToLower sample_lib [CHR 0xC4, CHR 0xB0, CHR ''P''] = ''ip''"
    by (rule sample_ToLower_values(2))
  let ?dns = "\<lparr>san_Type = ''dns'', san_Value = ''a''\<rparr>"
  let ?DNS = "\<lparr>san_Type = ''DNS'', san_Value = ''example.com''\<rparr>"
  let ?c = "Certificate0\<lparr>SANs := [?dns, ?DNS]\<rparr>"
  have known: "strings_ToLower sample_lib ''DNS'' \<in> {DNSType, EmailType, IPType, URIType}"
    by (simp add: sample_ToLower_values(1) DNSType_def)
  have low: "strings_ToLower sample_lib ''DNS'' = DNSType"
    by (simp add: sample_ToLower_values(1) DNSType_def)
  note inst = case_variant_dispatch [OF sample_lib_contract known not_the_four(1),
      where v = "''example.com''" and c = ?c and pre = "[?dns]" and post = "[]"
        and before = "[RawValue0\<lparr>Tag := nameTypeDNS, Class := 2, Bytes := [0x61]\<rparr>]"
        and x = "x509_Certificate0 :: string x509_Certificate"]
  from inst san_loop_dns_a
  show "createSubjectAltNameExtension sample_lib ?c = Inl (Error ''unsupported SAN type DNS'')"
    by simp
  from inst low show "SubjectAlternativeName_Set sample_lib ?DNS
        (x509_Certificate0 :: string x509_Certificate) =
       Inr (x509_Certificate0\<lparr>x509_DNSNames := [''example.com'']\<rparr>)"
    by (simp add: x509_Certificate0_def)
next
  let ?t = "[CHR 0xC4, CHR 0xB0, CHR ''P'']"
  let ?san = "\<lparr>san_Type = ?t, san_Value = ''10.0.0.1''\<rparr>"
  let ?c = "Certificate0\<lparr>SANs := [?san]\<rparr>"
  have known: "strings_ToLower sample_lib ?t \<in> {DNSType, EmailType, IPType, URIType}"
    by (simp add: sample_ToLower_values(2) IPType_def)
  have low: "strings_ToLower sample_lib ?t = IPType"
    by (simp add: sample_ToLower_values(2) IPType_def)
  note inst = case_variant_dispatch [OF sample_lib_contract known not_the_four(2),
      where v = "''10.0.0.1''" and c = ?c and pre = "[]" and post = "[]" and before = "[]"
        and x = "x509_Certificate0 :: string x509_Certificate"]
  from inst
  show "createSubjectAltNameExtension sample_lib ?c =
      Inl (Error (''unsupported SAN type '' @ ?t))"
    by simp
  from inst low sample_ParseIP_values(1)
  show "SubjectAlternativeName_Set sample_lib ?san
        (x509_Certificate0 :: string x509_Certificate) =
       Inr (x509_Certificate0\<lparr>x509_IPAddresses :=
              [[0, 0, 0, 0, 0, 0, 0, 0, 0, 0, 0xff, 0xff, 10, 0, 0, 1]]\<rparr>)"
    by (simp add: x509_Certificate0_def)
qed

text \<open>
  The type RegisteredID differs from the tag registeredID only by letter case and is not
  a dotted OID. The encoder returns an error, as the claim says, but \<^verbatim>\<open>Set\<close> does not
  apply the entry: it panics.
\<close>

theorem case_variant_registeredID_counterexample:
  "ascii_lower ''RegisteredID'' = ascii_lower RegisteredIDType
   \<and> strings_ToLower sample_lib ''RegisteredID'' = ''registeredid''
   \<and> createSubjectAltNameExtension sample_lib
        (Certificate0\<lparr>SANs := [\<lparr>san_Type = ''RegisteredID'', san_Value = ''1.2.3''\<rparr>]\<rparr>) =
       Inl (Error ''unsupported SAN type RegisteredID'')
   \<and> SubjectAlternativeName_Set sample_lib \<lparr>san_Type = ''RegisteredID'', san_Value = ''1.2.3''\<rparr>
        (x509_Certificate0 :: string x509_Certificate) =
       Inl (Panic ''unsupported subject alternative name type RegisteredID'')"
proof (intro conjI)
  show "ascii_lower ''RegisteredID'' = ascii_lower RegisteredIDType"
    by (simp add: ascii_lower_tags)
  show "strings_ToLower sample_lib ''RegisteredID'' = ''registeredid''"
    by (rule sample_ToLower_values(3))
  have "\<exists>err. parseObjectIdentifier ''RegisteredID'' = Inl err"
    by (rule not_oid_if_letter) (simp add: isDigit_def)
  then obtain err where "parseObjectIdentifier ''RegisteredID'' = Inl err" by blast
  then have "san_step sample_lib [] \<lparr>san_Type = ''RegisteredID'', san_Value = ''1.2.3''\<rparr> =
      Inl (Error ''unsupported SAN type RegisteredID'')"
    by (simp add: san_step_def EmailType_def DNSType_def X400AddressType_def
        DirectoryNameType_def EDIPartyNameType_def URIType_def IPType_def RegisteredIDType_def)
  then show "createSubjectAltNameExtension sample_lib
        (Certificate0\<lparr>SANs := [\<lparr>san_Type = ''RegisteredID'', san_Value = ''1.2.3''\<rparr>]\<rparr>) =
       Inl (Error ''unsupported SAN type RegisteredID'')"
    by (rule encoder_single_error)
  show "SubjectAlternativeName_Set sample_lib \<lparr>san_Type = ''RegisteredID'', san_Value = ''1.2.3''\<rparr>
        (x509_Certificate0 :: string x509_Certificate) =
       Inl (Panic ''unsupported subject alternative name type RegisteredID'')"
    by (simp add: SubjectAlternativeName_Set_def sample_ToLower_values(3) DNSType_def
        EmailType_def IPType_def URIType_def AutoType_def)
qed

section \<open>Unrecognized types in Set\<close>

lemma Set_never_error: "\<not> is_error_result (SubjectAlternativeName_Set lib s c)"
  by (simp add: SubjectAlternativeName_Set_def Let_def split: option.splits prod.splits)

text \<open>
  C1 (as amended). \<^verbatim>\<open>SubjectAlternativeName.Set\<close> has no error result. For every entry
  whose type is lowercased by \<^verbatim>\<open>strings.ToLower\<close> to none of dns, email, ip, uri, auto and
  the empty string, it panics with the message "unsupported subject alternative name
  type" followed by the type; in particular it does so for every entry with an ASCII
  type whose lowercased form (A to Z replaced by a to z) is none of those. For every
  entry whose lowercased type is one of those it returns normally. It never returns a
  recoverable error.
\<close>

theorem Set_unrecognized_type:
  "(strings_ToLower lib (san_Type s) \<notin> {DNSType, EmailType, IPType, URIType, [], AutoType} \<longrightarrow>
      SubjectAlternativeName_Set lib s c =
        Inl (Panic (''unsupported subject alternative name type '' @ san_Type s))
      \<and> is_panic (SubjectAlternativeName_Set lib s c))
   \<and> (ToLower_contract lib \<and> ascii (san_Type s)
      \<and> ascii_lower (san_Type s) \<notin> {DNSType, EmailType, IPType, URIType, [], AutoType} \<longrightarrow>
      SubjectAlternativeName_Set lib s c =
        Inl (Panic (''unsupported subject alternative name type '' @ san_Type s))
      \<and> is_panic (SubjectAlternativeName_Set lib s c))
   \<and> (strings_ToLower lib (san_Type s) \<in> {DNSType, EmailType, IPType, URIType, [], AutoType} \<longrightarrow>
      (\<exists>c'. SubjectAlternativeName_Set lib s c = Inr c'))
   \<and> \<not> is_error_result (SubjectAlternativeName_Set lib s c)"
proof -
  have panics: "SubjectAlternativeName_Set lib s c =
        Inl (Panic (''unsupported subject alternative name type '' @ san_Type s))
      \<and> is_panic (SubjectAlternativeName_Set lib s c)"
    if "strings_ToLower lib (san_Type s) \<notin> {DNSType, EmailType, IPType, URIType, [], AutoType}"
    using that by (simp add: SubjectAlternativeName_Set_def Let_def)
  have ascii_panics: "SubjectAlternativeName_Set lib s c =
        Inl (Panic (''unsupported subject alternative name type '' @ san_Type s))
      \<and> is_panic (SubjectAlternativeName_Set lib s c)"
    if a: "ToLower_contract lib \<and> ascii (san_Type s)
      \<and> ascii_lower (san_Type s) \<notin> {DNSType, EmailType, IPType, URIType, [], AutoType}"
  proof (rule panics)
    from a have "strings_ToLower lib (san_Type s) = ascii_lower (san_Type s)"
      by (simp add: ToLower_contract_def)
    with a show "strings_ToLower lib (san_Type s)
        \<notin> {DNSType, EmailType, IPType, URIType, [], AutoType}"
      by simp
  qed
  have returns: "\<exists>c'. SubjectAlternativeName_Set lib s c = Inr c'"
    if "strings_ToLower lib (san_Type s) \<in> {DNSType, EmailType, IPType, URIType, [], AutoType}"
    using that
    by (auto simp: SubjectAlternativeName_Set_def Let_def split: option.splits prod.splits)
  from panics ascii_panics returns Set_never_error [of lib s c] show ?thesis
    by blast
qed

lemma x400_unknown:
  "ascii ''x400Address''
   \<and> ascii_lower ''x400Address'' \<notin> {DNSType, EmailType, IPType, URIType, [], AutoType}"
  using ascii_lower_tags(1)
  by (simp add: ascii_def X400AddressType_def DNSType_def EmailType_def IPType_def URIType_def
      AutoType_def)

lemma DNS_known: "strings_ToLower sample_lib ''DNS'' = DNSType"
  by (simp add: sample_ToLower_values(1) DNSType_def)

theorem Set_unrecognized_type_witness:
  "ToLower_contract sample_lib
   \<and> ascii ''x400Address''
   \<and> ascii_lower ''x400Address'' = ''x400address''
   \<and> strings_ToLower sample_lib ''x400Address'' = ''x400address''
   \<and> SubjectAlternativeName_Set sample_lib \<lparr>san_Type = ''x400Address'', san_Value = ''x''\<rparr>
        (x509_Certificate0 :: string x509_Certificate) =
       Inl (Panic ''unsupported subject alternative name type x400Address'')
   \<and> (\<exists>c'. SubjectAlternativeName_Set sample_lib \<lparr>san_Type = ''DNS'', san_Value = ''x''\<rparr>
        (x509_Certificate0 :: string x509_Certificate) = Inr c')"
proof (intro conjI)
  show "ToLower_contract sample_lib" by (rule sample_lib_contract)
  show "ascii ''x400Address''" using x400_unknown by simp
  show "ascii_lower ''x400Address'' = ''x400address''"
    using ascii_lower_tags(1) by (simp add: X400AddressType_def)
  show "strings_ToLower sample_lib ''x400Address'' = ''x400address''"
    by (rule sample_ToLower_values(4))
  from Set_unrecognized_type [where lib = sample_lib
      and s = "\<lparr>san_Type = ''x400Address'', san_Value = ''x''\<rparr>"
      and c = "x509_Certificate0 :: string x509_Certificate"] x400_unknown sample_lib_contract
  show "SubjectAlternativeName_Set sample_lib \<lparr>san_Type = ''x400Address'', san_Value = ''x''\<rparr>
        (x509_Certificate0 :: string x509_Certificate) =
       Inl (Panic ''unsupported subject alternative name type x400Address'')"
    by simp
  from Set_unrecognized_type [where lib = sample_lib
      and s = "\<lparr>san_Type = ''DNS'', san_Value = ''x''\<rparr>"
      and c = "x509_Certificate0 :: string x509_Certificate"] DNS_known
  show "\<exists>c'. SubjectAlternativeName_Set sample_lib \<lparr>san_Type = ''DNS'', san_Value = ''x''\<rparr>
        (x509_Certificate0 :: string x509_Certificate) = Inr c'"
    by simp
qed

text \<open>
  The type x400Address is none of the types \<^verbatim>\<open>Set\<close> recognizes. The result of \<^verbatim>\<open>Set\<close> is
  a panic, which is not an error result.
\<close>

theorem Set_panics_counterexample:
  "SubjectAlternativeName_Set sample_lib \<lparr>san_Type = ''x400Address'', san_Value = ''x''\<rparr>
      (x509_Certificate0 :: string x509_Certificate) =
     Inl (Panic ''unsupported subject alternative name type x400Address'')
   \<and> \<not> is_error_result (SubjectAlternativeName_Set sample_lib
        \<lparr>san_Type = ''x400Address'', san_Value = ''x''\<rparr>
        (x509_Certificate0 :: string x509_Certificate))"
proof -
  have "SubjectAlternativeName_Set sample_lib \<lparr>san_Type = ''x400Address'', san_Value = ''x''\<rparr>
      (x509_Certificate0 :: string x509_Certificate) =
     Inl (Panic ''unsupported subject alternative name type x400Address'')"
    by (simp add: SubjectAlternativeName_Set_def sample_ToLower_values(4) DNSType_def
        EmailType_def IPType_def URIType_def AutoType_def)
  then show ?thesis by simp
qed

end
